(* ===== verification/Prelude.thy ===== *)
theory Prelude
  imports Main "HOL-Library.Word" "HOL-Library.Monad_Syntax"
    "HOL-Library.Char_ord" "HOL-Library.List_Lexorder" "HOL-Library.Product_Lexorder"
begin

text \<open>
  Shared vocabulary of the development: the machine integers of the Rust sources, the
  three-way comparison type of the standard library with its combinators, stable sorting
  by a comparator, and the string helpers the renderers use. A Rust \<open>String\<close> is its UTF-8
  byte sequence, a HOL \<open>string\<close> with one \<open>char\<close> per byte; the \<open>Ord\<close> of \<open>String\<close> compares
  bytes, which is the lexicographic order the library theories give to \<open>string\<close>.
\<close>

named_theorems ord_simps \<open>three-way comparison: the equations the component proofs rewrite with\<close>

type_synonym u8 = "8 word"
type_synonym u32 = "32 word"
type_synonym u64 = "64 word"
type_synonym i64 = "64 word"

lemma unat_word_of_nat32: "n < 2 ^ 32 \<Longrightarrow> unat (word_of_nat n :: u32) = n"
  by (simp add: unat_of_nat)

section \<open>Three-way comparison\<close>

datatype Ordering = Less | Equal | Greater

definition cmp_of :: "'a::linorder \<Rightarrow> 'a \<Rightarrow> Ordering" where
  "cmp_of x y = (if x < y then Less else if x = y then Equal else Greater)"

fun ord_then :: "Ordering \<Rightarrow> Ordering \<Rightarrow> Ordering" where
  "ord_then Equal d = d"
| "ord_then Less d = Less"
| "ord_then Greater d = Greater"

fun ord_reverse :: "Ordering \<Rightarrow> Ordering" where
  "ord_reverse Less = Greater"
| "ord_reverse Equal = Equal"
| "ord_reverse Greater = Less"

lemma ord_reverse_reverse [simp]: "ord_reverse (ord_reverse r) = r"
  by (cases r) simp_all

lemma cmp_of_refl [simp, ord_simps]: "cmp_of x x = Equal"
  by (simp add: cmp_of_def)

lemma cmp_of_Equal [simp, ord_simps]: "cmp_of x y = Equal \<longleftrightarrow> x = y"
  by (simp add: cmp_of_def)

lemma cmp_of_Less [ord_simps]: "cmp_of x y = Less \<longleftrightarrow> x < y"
  by (simp add: cmp_of_def)

lemma cmp_of_Greater [ord_simps]: "cmp_of x y = Greater \<longleftrightarrow> y < x"
  by (auto simp: cmp_of_def)

lemma ord_then_Equal_right [simp, ord_simps]: "ord_then c Equal = c"
  by (cases c) simp_all

lemma ord_then_eq_Equal [simp, ord_simps]: "ord_then c d = Equal \<longleftrightarrow> c = Equal \<and> d = Equal"
  by (cases c) simp_all

lemma ord_then_assoc [ord_simps]: "ord_then (ord_then a b) c = ord_then a (ord_then b c)"
  by (cases a) simp_all

lemma cmp_of_Cons [ord_simps]:
  "cmp_of (x # xs) (y # ys) = ord_then (cmp_of x y) (cmp_of xs ys)"
  by (auto simp: cmp_of_def)

lemma cmp_of_Pair [ord_simps]:
  "cmp_of (a, b) (c, d) = ord_then (cmp_of a c) (cmp_of b d)"
  by (auto simp: cmp_of_def less_prod_def)

lemma cmp_of_prefix [ord_simps]: "cmp_of (p @ r) (p @ s) = cmp_of r s"
  by (induction p) (simp_all add: cmp_of_Cons)

lemma cmp_of_Suc [simp, ord_simps]: "cmp_of (Suc m) (Suc n) = cmp_of m n"
  by (simp add: cmp_of_def)

lemma cmp_of_uint: "cmp_of (uint a) (uint b) = cmp_of a b"
  by (auto simp: cmp_of_def word_less_def dest: word_uint_eqI)

lemma ord_then_cmp_of_neq [simp, ord_simps]: "x \<noteq> y \<Longrightarrow> ord_then (cmp_of x y) d = cmp_of x y"
  by (simp add: cmp_of_def)

lemma ord_then_if: "(if c \<noteq> Equal then Some c else Some d) = Some (ord_then c d)"
  by (cases c) simp_all

text \<open>The loop over two slices at once: the first element that differs decides; where one
  slice ends the answer is \<open>Equal\<close> so far. The code's early \<open>return\<close> is the first branch.\<close>

fun lex_zip :: "('a \<Rightarrow> 'b \<Rightarrow> Ordering) \<Rightarrow> 'a list \<Rightarrow> 'b list \<Rightarrow> Ordering" where
  "lex_zip c (x # xs) (y # ys) = ord_then (c x y) (lex_zip c xs ys)"
| "lex_zip c _ _ = Equal"

fun lex_zip_m :: "('a \<Rightarrow> 'b \<Rightarrow> Ordering option) \<Rightarrow> 'a list \<Rightarrow> 'b list \<Rightarrow> Ordering option" where
  "lex_zip_m c (x # xs) (y # ys) =
     do { d \<leftarrow> c x y; if d \<noteq> Equal then Some d else lex_zip_m c xs ys }"
| "lex_zip_m c _ _ = Some Equal"

lemma lex_zip_m_Some:
  assumes "\<And>x y. x \<in> set xs \<Longrightarrow> y \<in> set ys \<Longrightarrow> cm x y = Some (c x y)"
  shows "lex_zip_m cm xs ys = Some (lex_zip c xs ys)"
  using assms
proof (induction cm xs ys rule: lex_zip_m.induct)
  case (1 cm x xs y ys)
  then show ?case by (cases "c x y") auto
qed simp_all

lemma lex_zip_cong [fundef_cong]:
  assumes "xs = xs'" and "ys = ys'"
    and "\<And>x y. x \<in> set xs' \<Longrightarrow> y \<in> set ys' \<Longrightarrow> c x y = c' x y"
  shows "lex_zip c xs ys = lex_zip c' xs' ys'"
  using assms(3) unfolding assms(1,2)
  by (induction c' xs' ys' rule: lex_zip.induct) auto

section \<open>Comparators as an interface\<close>

text \<open>What a sort needs of its comparison, on the elements it is applied to.\<close>

locale comparator =
  fixes cmp :: "'a \<Rightarrow> 'a \<Rightarrow> Ordering"
  assumes cmp_eq: "cmp x y = Equal \<longleftrightarrow> x = y"
    and cmp_sym: "cmp y x = ord_reverse (cmp x y)"
    and cmp_trans: "cmp x y = Less \<Longrightarrow> cmp y z = Less \<Longrightarrow> cmp x z = Less"

text \<open>A comparison induced by an injective key into a linear order is a comparator.\<close>

lemma comparator_key:
  assumes "\<And>x y. c x y = cmp_of (key x) (key y)" and "inj key"
  shows "comparator c"
  by unfold_locales
    (auto simp: assms(1) cmp_of_def inj_eq[OF assms(2)] split: if_splits dest: order.strict_trans)

section \<open>Stable sorting by a comparator\<close>

text \<open>
  \<open>slice::sort_by\<close> is a stable sort: for a total order its result is determined by the input,
  so the model uses insertion, which keeps equal elements in input order.
\<close>

fun insert_by :: "('a \<Rightarrow> 'a \<Rightarrow> Ordering) \<Rightarrow> 'a \<Rightarrow> 'a list \<Rightarrow> 'a list" where
  "insert_by c x [] = [x]"
| "insert_by c x (y # ys) = (if c x y = Greater then y # insert_by c x ys else x # y # ys)"

fun sort_by :: "('a \<Rightarrow> 'a \<Rightarrow> Ordering) \<Rightarrow> 'a list \<Rightarrow> 'a list" where
  "sort_by c [] = []"
| "sort_by c (x # xs) = insert_by c x (sort_by c xs)"

text \<open>The same sort with a comparison that may panic.\<close>

fun insert_by_m :: "('a \<Rightarrow> 'a \<Rightarrow> Ordering option) \<Rightarrow> 'a \<Rightarrow> 'a list \<Rightarrow> 'a list option" where
  "insert_by_m c x [] = Some [x]"
| "insert_by_m c x (y # ys) =
     do { d \<leftarrow> c x y;
          if d = Greater then do { zs \<leftarrow> insert_by_m c x ys; Some (y # zs) }
          else Some (x # y # ys) }"

fun sort_by_m :: "('a \<Rightarrow> 'a \<Rightarrow> Ordering option) \<Rightarrow> 'a list \<Rightarrow> 'a list option" where
  "sort_by_m c [] = Some []"
| "sort_by_m c (x # xs) = do { ys \<leftarrow> sort_by_m c xs; insert_by_m c x ys }"

lemma set_insert_by [simp]: "set (insert_by c x ys) = insert x (set ys)"
  by (induction ys) auto

lemma set_sort_by [simp]: "set (sort_by c xs) = set xs"
  by (induction xs) auto

lemma length_insert_by [simp]: "length (insert_by c x ys) = Suc (length ys)"
  by (induction ys) auto

lemma length_sort_by [simp]: "length (sort_by c xs) = length xs"
  by (induction xs) auto

lemma insert_by_m_Some:
  assumes "\<And>y. y \<in> set ys \<Longrightarrow> cm x y = Some (c x y)"
  shows "insert_by_m cm x ys = Some (insert_by c x ys)"
  using assms by (induction ys) auto

lemma sort_by_m_Some:
  assumes "\<And>x y. x \<in> set xs \<Longrightarrow> y \<in> set xs \<Longrightarrow> cm x y = Some (c x y)"
  shows "sort_by_m cm xs = Some (sort_by c xs)"
  using assms
proof (induction xs)
  case (Cons x xs)
  then have "sort_by_m cm xs = Some (sort_by c xs)" by simp
  moreover have "insert_by_m cm x (sort_by c xs) = Some (insert_by c x (sort_by c xs))"
    by (rule insert_by_m_Some) (use Cons.prems in auto)
  ultimately show ?case by simp
qed simp

lemma map_insert_by:
  "map f (insert_by (\<lambda>x y. c (f x) (f y)) x ys) = insert_by c (f x) (map f ys)"
  by (induction ys) auto

lemma map_sort_by:
  "map f (sort_by (\<lambda>x y. c (f x) (f y)) xs) = sort_by c (map f xs)"
  by (induction xs) (auto simp: map_insert_by)

lemma map_remdups_adj_inj:
  "inj_on f (set xs) \<Longrightarrow> map f (remdups_adj xs) = remdups_adj (map f xs)"
  by (induction xs rule: remdups_adj.induct) (auto simp: inj_on_def)

context comparator begin

definition le :: "'a \<Rightarrow> 'a \<Rightarrow> bool" where
  "le x y \<longleftrightarrow> cmp x y \<noteq> Greater"

lemma cmp_refl [simp]: "cmp x x = Equal"
  by (simp add: cmp_eq)

lemma greater_iff: "cmp x y = Greater \<longleftrightarrow> cmp y x = Less"
  using cmp_sym[of y x] by (cases "cmp x y") auto

lemma not_less_cycle: "cmp x y = Less \<Longrightarrow> cmp y x \<noteq> Less"
  by (simp add: greater_iff[symmetric])

lemma le_trans: "le x y \<Longrightarrow> le y z \<Longrightarrow> le x z"
  unfolding le_def using cmp_eq cmp_trans greater_iff by (metis Ordering.exhaust)

lemma le_total: "\<not> le x y \<Longrightarrow> le y x"
  by (auto simp: le_def greater_iff dest: not_less_cycle)

lemma sorted_insert_by: "sorted_wrt le ys \<Longrightarrow> sorted_wrt le (insert_by cmp x ys)"
proof (induction ys)
  case (Cons y ys)
  show ?case
  proof (cases "cmp x y = Greater")
    case True
    then have "le y x" using le_total by (auto simp: le_def)
    with True Cons show ?thesis by auto
  next
    case False
    then have "le x y" by (simp add: le_def)
    with False Cons.prems show ?thesis by (auto intro: le_trans)
  qed
qed simp

lemma sorted_sort_by: "sorted_wrt le (sort_by cmp xs)"
  by (induction xs) (auto intro: sorted_insert_by)

lemma remdups_adj_strict:
  "sorted_wrt le xs \<Longrightarrow> sorted_wrt (\<lambda>x y. cmp x y = Less) (remdups_adj xs)"
proof (induction xs rule: remdups_adj.induct)
  case (3 x y xs)
  show ?case
  proof (cases "x = y")
    case False
    have less: "cmp x z = Less" if "z \<in> set (y # xs)" for z
    proof -
      have xy: "cmp x y = Less"
        using "3.prems" False cmp_eq[of x y] by (cases "cmp x y") (auto simp: le_def)
      from that "3.prems" have "z = y \<or> le y z" by auto
      then show ?thesis
        using xy cmp_eq[of y z] cmp_trans[of x y z] by (cases "cmp y z") (auto simp: le_def)
    qed
    with 3 False show ?thesis by auto
  qed (use 3 in simp)
qed simp_all

lemma strict_unique:
  assumes "sorted_wrt (\<lambda>x y. cmp x y = Less) xs" and "sorted_wrt (\<lambda>x y. cmp x y = Less) ys"
    and "set xs = set ys"
  shows "xs = ys"
  using assms
proof (induction xs arbitrary: ys)
  case (Cons x xs)
  then obtain y zs where ys: "ys = y # zs" by (cases ys) auto
  have xy: "x = y"
  proof (rule ccontr)
    assume "x \<noteq> y"
    with Cons.prems ys have "x \<in> set zs" and "y \<in> set xs" by auto
    with Cons.prems ys have "cmp y x = Less" and "cmp x y = Less" by auto
    then show False using not_less_cycle by blast
  qed
  have "x \<notin> set xs" and "x \<notin> set zs"
    using Cons.prems ys xy by (auto dest: not_less_cycle)
  then have "set xs = set zs" using Cons.prems(3) ys xy by auto
  with Cons ys xy show ?case by auto
qed simp

lemma canonical:
  "set xs = set ys \<Longrightarrow> remdups_adj (sort_by cmp xs) = remdups_adj (sort_by cmp ys)"
  by (rule strict_unique) (auto intro: remdups_adj_strict sorted_sort_by)

lemma insert_by_min:
  "(\<And>y. y \<in> set ys \<Longrightarrow> cmp x y = Less) \<Longrightarrow> insert_by cmp x ys = x # ys"
  by (cases ys) auto

lemma sort_by_strict:
  "sorted_wrt (\<lambda>x y. cmp x y = Less) xs \<Longrightarrow> sort_by cmp xs = xs"
  by (induction xs) (auto simp: insert_by_min)

lemma strict_distinct: "sorted_wrt (\<lambda>x y. cmp x y = Less) xs \<Longrightarrow> distinct xs"
  by (induction xs) (auto dest: not_less_cycle)

lemma canonical_strict:
  assumes "sorted_wrt (\<lambda>x y. cmp x y = Less) xs"
  shows "remdups_adj (sort_by cmp xs) = xs"
  using assms strict_distinct[OF assms] by (simp add: sort_by_strict remdups_adj_distinct)

end

section \<open>Loops that may panic\<close>

text \<open>A \<open>for\<close> loop whose body threads a state and may panic, and a short-circuit \<open>any\<close>.\<close>

fun fold_m :: "('a \<Rightarrow> 's \<Rightarrow> 's option) \<Rightarrow> 'a list \<Rightarrow> 's \<Rightarrow> 's option" where
  "fold_m f [] s = Some s"
| "fold_m f (x # xs) s = do { s' \<leftarrow> f x s; fold_m f xs s' }"

fun any_m :: "('a \<Rightarrow> bool option) \<Rightarrow> 'a list \<Rightarrow> bool option" where
  "any_m p [] = Some False"
| "any_m p (x # xs) = do { b \<leftarrow> p x; if b then Some True else any_m p xs }"

lemma fold_m_Some:
  assumes "\<And>x s. x \<in> set xs \<Longrightarrow> f x s = Some (g x s)"
  shows "fold_m f xs s = Some (fold g xs s)"
  using assms by (induction xs arbitrary: s) auto

lemma any_m_Some:
  assumes "\<And>x. x \<in> set xs \<Longrightarrow> p x = Some (q x)"
  shows "any_m p xs = Some (\<exists>x \<in> set xs. q x)"
  using assms by (induction xs) auto

section \<open>Strings\<close>

fun digits_of :: "nat \<Rightarrow> string" where
  "digits_of n =
     (if n < 10 then [char_of (48 + n)] else digits_of (n div 10) @ [char_of (48 + n mod 10)])"

declare digits_of.simps [simp del]

definition string_of_int :: "int \<Rightarrow> string" where
  "string_of_int v = (if v < 0 then CHR ''-'' # digits_of (nat (- v)) else digits_of (nat v))"

definition show_u32 :: "u32 \<Rightarrow> string" where
  "show_u32 v = digits_of (unat v)"

definition show_i64 :: "i64 \<Rightarrow> string" where
  "show_i64 v = string_of_int (sint v)"

definition show_bool :: "bool \<Rightarrow> string" where
  "show_bool b = (if b then ''true'' else ''false'')"

text \<open>\<open>[String]::join\<close>.\<close>

fun join_str :: "string \<Rightarrow> string list \<Rightarrow> string" where
  "join_str sep [] = []"
| "join_str sep [x] = x"
| "join_str sep (x # y # ys) = x @ sep @ join_str sep (y # ys)"

end
