(* ===== verification/Float64.thy ===== *)
theory Float64
  imports Prelude
begin

text \<open>
  The 64-bit floats of the Rust standard library, as far as the modelled code uses them. A
  float is its 64 bits; arithmetic is the exact result rounded once to nearest, ties to even;
  the comparison operators, \<open>trunc\<close>, the saturating casts and the two decimal spellings
  (\<open>{}\<close> and \<open>{:e}\<close>, the shortest digits that read back as the same float) are written out over
  integers, so that they evaluate.
\<close>

unbundle bit_operations_syntax

type_synonym f64 = u64

section \<open>Layout\<close>

definition f64_sign :: "f64 \<Rightarrow> bool" where
  "f64_sign b = bit b 63"

definition f64_exponent :: "f64 \<Rightarrow> nat" where
  "f64_exponent b = unat (drop_bit 52 b) mod 2048"

definition f64_fraction :: "f64 \<Rightarrow> nat" where
  "f64_fraction b = unat b mod 2 ^ 52"

definition f64_pack :: "bool \<Rightarrow> nat \<Rightarrow> f64" where
  "f64_pack s magnitude = word_of_nat ((if s then 2 ^ 63 else 0) + magnitude)"

definition f64_nan :: f64 where "f64_nan = f64_pack False (2047 * 2 ^ 52 + 2 ^ 51)"
definition f64_inf :: "bool \<Rightarrow> f64" where "f64_inf s = f64_pack s (2047 * 2 ^ 52)"

definition is_nan :: "f64 \<Rightarrow> bool" where
  "is_nan b \<longleftrightarrow> f64_exponent b = 2047 \<and> f64_fraction b \<noteq> 0"

definition is_infinite :: "f64 \<Rightarrow> bool" where
  "is_infinite b \<longleftrightarrow> f64_exponent b = 2047 \<and> f64_fraction b = 0"

definition is_finite :: "f64 \<Rightarrow> bool" where
  "is_finite b \<longleftrightarrow> f64_exponent b \<noteq> 2047"

definition is_zero :: "f64 \<Rightarrow> bool" where
  "is_zero b \<longleftrightarrow> f64_exponent b = 0 \<and> f64_fraction b = 0"

text \<open>A finite float is \<open>(-1)^sign * mantissa * 2^(scale - 1074)\<close>; the unit is \<open>2^-1074\<close>.\<close>

definition f64_mantissa :: "f64 \<Rightarrow> nat" where
  "f64_mantissa b = (if f64_exponent b = 0 then f64_fraction b else 2 ^ 52 + f64_fraction b)"

definition f64_scale :: "f64 \<Rightarrow> nat" where
  "f64_scale b = f64_exponent b - 1"

text \<open>The value of a finite float in units of \<open>2^-1074\<close>: always an integer.\<close>

definition f64_units :: "f64 \<Rightarrow> int" where
  "f64_units b = (if f64_sign b then - 1 else 1) * int (f64_mantissa b * 2 ^ f64_scale b)"

definition one_unit :: int where "one_unit = 2 ^ 1074"

section \<open>Rounding\<close>

fun bit_length :: "nat \<Rightarrow> nat" where
  "bit_length n = (if n = 0 then 0 else Suc (bit_length (n div 2)))"
declare bit_length.simps [simp del]

text \<open>The float nearest to \<open>n / d\<close> units, ties to even. \<open>k\<close> is the scale that leaves at most 53
  bits of quotient.\<close>

definition round_units :: "bool \<Rightarrow> nat \<Rightarrow> nat \<Rightarrow> f64" where
  "round_units s n d =
     (let q0 = n div d; k = bit_length q0 - 53;
          q = n div (d * 2 ^ k); r = n mod (d * 2 ^ k);
          up = (2 * r > d * 2 ^ k \<or> (2 * r = d * 2 ^ k \<and> odd q));
          m = k * 2 ^ 52 + (if up then q + 1 else q)
      in f64_pack s (min m (2047 * 2 ^ 52)))"

definition of_units :: "int \<Rightarrow> f64" where
  "of_units v = round_units (v < 0) (nat \<bar>v\<bar>) 1"

section \<open>Operations\<close>

definition f64_abs :: "f64 \<Rightarrow> f64" where "f64_abs b = and b (mask 63)"

definition f64_neg :: "f64 \<Rightarrow> f64" where "f64_neg b = xor b (push_bit 63 1)"

definition f64_add :: "f64 \<Rightarrow> f64 \<Rightarrow> f64" where
  "f64_add a b =
     (if is_nan a \<or> is_nan b then f64_nan
      else if is_infinite a then (if is_infinite b \<and> f64_sign a \<noteq> f64_sign b then f64_nan else a)
      else if is_infinite b then b
      else let v = f64_units a + f64_units b in
        if v = 0 then f64_pack (f64_sign a \<and> f64_sign b) 0 else of_units v)"

definition f64_sub :: "f64 \<Rightarrow> f64 \<Rightarrow> f64" where
  "f64_sub a b = (if is_nan b then f64_nan else f64_add a (f64_neg b))"

definition f64_mul :: "f64 \<Rightarrow> f64 \<Rightarrow> f64" where
  "f64_mul a b =
     (let s = (f64_sign a \<noteq> f64_sign b) in
      if is_nan a \<or> is_nan b then f64_nan
      else if is_infinite a \<or> is_infinite b then (if is_zero a \<or> is_zero b then f64_nan else f64_inf s)
      else round_units s (nat \<bar>f64_units a * f64_units b\<bar>) (2 ^ 1074))"

definition f64_div :: "f64 \<Rightarrow> f64 \<Rightarrow> f64" where
  "f64_div a b =
     (let s = (f64_sign a \<noteq> f64_sign b) in
      if is_nan a \<or> is_nan b then f64_nan
      else if is_infinite a then (if is_infinite b then f64_nan else f64_inf s)
      else if is_infinite b then f64_pack s 0
      else if is_zero b then (if is_zero a then f64_nan else f64_inf s)
      else round_units s (nat \<bar>f64_units a\<bar> * 2 ^ 1074) (nat \<bar>f64_units b\<bar>))"

text \<open>The partial order of IEEE comparison; an infinity is beyond every finite value.\<close>

definition f64_key :: "f64 \<Rightarrow> int" where
  "f64_key b = (if is_infinite b then (if f64_sign b then - (2 ^ 4000) else 2 ^ 4000) else f64_units b)"

definition partial_cmp :: "f64 \<Rightarrow> f64 \<Rightarrow> Ordering option" where
  "partial_cmp a b = (if is_nan a \<or> is_nan b then None else Some (cmp_of (f64_key a) (f64_key b)))"

definition f64_lt :: "f64 \<Rightarrow> f64 \<Rightarrow> bool" where "f64_lt a b \<longleftrightarrow> partial_cmp a b = Some Less"
definition f64_le :: "f64 \<Rightarrow> f64 \<Rightarrow> bool" where "f64_le a b \<longleftrightarrow> partial_cmp a b \<in> {Some Less, Some Equal}"
definition f64_eq :: "f64 \<Rightarrow> f64 \<Rightarrow> bool" where "f64_eq a b \<longleftrightarrow> partial_cmp a b = Some Equal"

text \<open>The integer part of a finite float (toward zero), and the cast from an integer.\<close>

definition f64_trunc_int :: "f64 \<Rightarrow> int" where
  "f64_trunc_int b = (if f64_sign b then - 1 else 1) * (\<bar>f64_units b\<bar> div one_unit)"

definition f64_trunc :: "f64 \<Rightarrow> f64" where
  "f64_trunc b = (if is_finite b then round_units (f64_sign b) (nat \<bar>f64_trunc_int b * one_unit\<bar>) 1 else b)"

definition f64_integral :: "f64 \<Rightarrow> bool" where
  "f64_integral b \<longleftrightarrow> is_finite b \<and> f64_units b mod one_unit = 0"

definition f64_floor :: "f64 \<Rightarrow> f64" where
  "f64_floor b = (let t = f64_trunc b in if f64_lt b t then f64_add t (f64_neg (of_units one_unit)) else t)"

definition f64_ceil :: "f64 \<Rightarrow> f64" where
  "f64_ceil b = (let t = f64_trunc b in if f64_lt t b then f64_add t (of_units one_unit) else t)"

definition of_integer :: "int \<Rightarrow> f64" where "of_integer v = of_units (v * one_unit)"

text \<open>The constant \<open>9_223_372_036_854_775_808.0\<close>, that is \<open>2^63\<close>: exponent 1086, fraction 0.\<close>

definition two_63 :: f64 where "two_63 = 0x43E0000000000000"

section \<open>Shortest decimal digits\<close>

text \<open>The half-way points to the neighbouring floats, over the common denominator \<open>scale\<close>:
  \<open>(value, lo, hi, scale, inclusive)\<close>, as \<open>core::num::flt2dec::decode\<close> computes them.\<close>

definition f64_interval :: "f64 \<Rightarrow> nat \<times> nat \<times> nat \<times> nat \<times> bool" where
  "f64_interval b =
     (let m = f64_mantissa b; u = 2 ^ f64_scale b; inclusive = even m \<or> f64_exponent b = 0 in
      if f64_exponent b \<noteq> 0 \<and> f64_fraction b = 0
      then (4 * m * u, u, 2 * u, 4 * 2 ^ 1074, inclusive)
      else (2 * m * u, u, u, 2 * 2 ^ 1074, inclusive))"

text \<open>The decimal exponent \<open>k\<close>: the value with its upper half-way point is under \<open>10^k\<close>, not
  under \<open>10^(k-1)\<close>. Returned with the value scaled by \<open>10^-k\<close>.\<close>

fun scale_down :: "nat \<Rightarrow> nat \<Rightarrow> nat \<Rightarrow> nat \<Rightarrow> bool \<Rightarrow> nat \<times> nat" where
  "scale_down 0 high scale k incl = (scale, k)"
| "scale_down (Suc n) high scale k incl =
     (if scale < high \<or> (incl \<and> scale = high) then scale_down n high (10 * scale) (Suc k) incl
      else (scale, k))"

fun scale_up :: "nat \<Rightarrow> nat \<Rightarrow> nat \<Rightarrow> nat \<Rightarrow> bool \<Rightarrow> nat \<times> nat" where
  "scale_up 0 high scale k incl = (1, k)"
| "scale_up (Suc n) high scale k incl =
     (if 10 * high < scale \<or> (\<not> incl \<and> 10 * high = scale)
      then (let (f, k') = scale_up n (10 * high) scale (Suc k) incl in (10 * f, k'))
      else (1, k))"

text \<open>Digit generation (\<open>flt2dec::strategy::dragon::format_shortest\<close>): digits are emitted until
  what is left is within a half-way distance; the last digit is rounded to the nearer side.\<close>

fun shortest_loop :: "nat \<Rightarrow> nat \<Rightarrow> nat \<Rightarrow> nat \<Rightarrow> nat \<Rightarrow> bool \<Rightarrow> nat \<Rightarrow> nat \<Rightarrow> nat \<times> nat" where
  "shortest_loop 0 v lo hi scale incl acc len = (acc, len)"
| "shortest_loop (Suc n) v lo hi scale incl acc len =
     (let d = 10 * v div scale; r = 10 * v mod scale; lo = 10 * lo; hi = 10 * hi;
          acc = 10 * acc + d; len = Suc len;
          down = (r < lo \<or> (incl \<and> r = lo));
          up = (scale < r + hi \<or> (incl \<and> scale = r + hi))
      in if \<not> down \<and> \<not> up then shortest_loop n r lo hi scale incl acc len
         else if up \<and> (\<not> down \<or> scale \<le> 2 * r) then (acc + 1, len) else (acc, len))"

text \<open>\<open>(digits, k)\<close>: the float's magnitude is read back from \<open>0.digits * 10^k\<close>.\<close>

definition f64_shortest :: "f64 \<Rightarrow> string \<times> int" where
  "f64_shortest b =
     (let (v, lo, hi, scale, incl) = f64_interval b;
          (scale', k1) = scale_down 400 (v + hi) scale 0 incl;
          (f, k2) = scale_up 400 (v + hi) scale' 0 incl;
          (acc, len) = shortest_loop 20 (v * f) (lo * f) (hi * f) scale' incl 0 0;
          ds = digits_of acc
      in (ds, int k1 - int k2 + (int (length ds) - int len)))"

definition f64_minus :: "f64 \<Rightarrow> string" where
  "f64_minus b = (if f64_sign b then ''-'' else '''')"

text \<open>\<open>format!("{:e}")\<close> of a finite nonzero float: mantissa text and decimal exponent.\<close>

definition f64_sci :: "f64 \<Rightarrow> string \<times> int" where
  "f64_sci b =
     (let (ds, k) = f64_shortest b in
      (f64_minus b @ (case ds of d # rest \<Rightarrow> if rest = [] then [d] else d # CHR ''.'' # rest | [] \<Rightarrow> []), k - 1))"

text \<open>\<open>format!("{}")\<close>.\<close>

definition f64_display :: "f64 \<Rightarrow> string" where
  "f64_display b =
     (if is_nan b then ''NaN''
      else if is_infinite b then f64_minus b @ ''inf''
      else if is_zero b then f64_minus b @ ''0''
      else let (ds, k) = f64_shortest b in
        f64_minus b @
        (if k \<le> 0 then ''0.'' @ replicate (nat (- k)) CHR ''0'' @ ds
         else if nat k < length ds then take (nat k) ds @ ''.'' @ drop (nat k) ds
         else ds @ replicate (nat k - length ds) CHR ''0''))"

text \<open>\<open>format!("{:.1}")\<close> of a float whose value is an integer.\<close>

definition f64_fixed1_integral :: "f64 \<Rightarrow> string" where
  "f64_fixed1_integral b = f64_minus b @ digits_of (nat \<bar>f64_trunc_int b\<bar>) @ ''.0''"

end
