(* ===== verification/Ty.thy ===== *)
theory Ty
  imports Prelude
begin

text \<open>
  The carrier set of the type lattice, \<open>crates/rigor-types/src/ty.rs\<close>: the handle
  \<open>TypeId\<close>, the scalar literals, the hash-shape keys and the carriers themselves. The
  carrier type takes the type of its children as a parameter: \<open>TypeId Type\<close> is the source's
  \<open>Type\<close>, whose children are handles; the same constructors over fully unfolded children
  make the abstract types of theory \<open>Type_Tree\<close>. An \<open>f64\<close> is kept as its 64 raw bits, because
  the source's equality, hash and order of a float read only \<open>to_bits\<close>.
\<close>

datatype TypeId = TypeId (index: u32)

datatype ClassId = ClassId (class_no: u32)

datatype RefinementId = RefinementId (refinement_no: u32)

datatype HktUri = HktUri (uri_text: string)

datatype Scalar =
    SInt i64
  | SBigInt string
  | SStr string
  | SSym string
  | SBool bool
  | SNil
  | SFloat u64

fun scalar_tag :: "Scalar \<Rightarrow> nat" where
  "scalar_tag SNil = 0"
| "scalar_tag (SBool _) = 1"
| "scalar_tag (SInt _) = 2"
| "scalar_tag (SFloat _) = 3"
| "scalar_tag (SStr _) = 4"
| "scalar_tag (SSym _) = 5"
| "scalar_tag (SBigInt _) = 6"

definition scalar_cmp :: "Scalar \<Rightarrow> Scalar \<Rightarrow> Ordering" where
  "scalar_cmp x y = (case x of
     SInt a \<Rightarrow> (case y of SInt b \<Rightarrow> cmp_of (sint a) (sint b) | _ \<Rightarrow> cmp_of (scalar_tag x) (scalar_tag y))
   | SBigInt a \<Rightarrow> (case y of SBigInt b \<Rightarrow> cmp_of a b | _ \<Rightarrow> cmp_of (scalar_tag x) (scalar_tag y))
   | SStr a \<Rightarrow> (case y of SStr b \<Rightarrow> cmp_of a b | _ \<Rightarrow> cmp_of (scalar_tag x) (scalar_tag y))
   | SSym a \<Rightarrow> (case y of SSym b \<Rightarrow> cmp_of a b | _ \<Rightarrow> cmp_of (scalar_tag x) (scalar_tag y))
   | SBool a \<Rightarrow> (case y of SBool b \<Rightarrow> cmp_of a b | _ \<Rightarrow> cmp_of (scalar_tag x) (scalar_tag y))
   | SNil \<Rightarrow> (case y of SNil \<Rightarrow> Equal | _ \<Rightarrow> cmp_of (scalar_tag x) (scalar_tag y))
   | SFloat a \<Rightarrow> (case y of SFloat b \<Rightarrow> cmp_of (uint a) (uint b)
                         | _ \<Rightarrow> cmp_of (scalar_tag x) (scalar_tag y)))"

text \<open>The derived \<open>Ord\<close> of \<open>ShapeKey\<close>: variants in declaration order, then the payload.\<close>

datatype ShapeKey =
    KSym string
  | KStr string
  | KInt i64
  | KFloat u64
  | KBool bool
  | KNil
  | KOther

fun shape_key_ord :: "ShapeKey \<Rightarrow> nat \<times> int \<times> string" where
  "shape_key_ord (KSym s) = (0, 0, s)"
| "shape_key_ord (KStr s) = (1, 0, s)"
| "shape_key_ord (KInt v) = (2, sint v, '''')"
| "shape_key_ord (KFloat b) = (3, uint b, '''')"
| "shape_key_ord (KBool b) = (4, of_bool b, '''')"
| "shape_key_ord KNil = (5, 0, '''')"
| "shape_key_ord KOther = (6, 0, '''')"

definition shape_key_cmp :: "ShapeKey \<Rightarrow> ShapeKey \<Rightarrow> Ordering" where
  "shape_key_cmp x y = cmp_of (shape_key_ord x) (shape_key_ord y)"

datatype 'a ShapeMember = ShapeMember (key: ShapeKey) (mvalue: 'a) (optional: bool)

datatype 'a Type =
    Top
  | Bottom
  | Dynamic 'a
  | Nominal ClassId "'a list"
  | Singleton ClassId
  | Constant Scalar
  | Tuple "'a list"
  | HashShape "'a ShapeMember list"
  | IntegerRange "i64 option" "i64 option"
  | Refined 'a RefinementId
  | Difference 'a 'a
  | Intersection "'a list"
  | Complement 'a
  | App HktUri "'a list"
  | DataInstance ClassId "(string \<times> 'a) list"
  | Void
  | SelfType
  | Instance
  | ClassType
  | Union "'a list"

type_synonym Ty = "TypeId Type"

fun tag :: "'a Type \<Rightarrow> nat" where
  "tag Bottom = 0"
| "tag Top = 1"
| "tag (Constant _) = 2"
| "tag (IntegerRange _ _) = 3"
| "tag (Nominal _ _) = 4"
| "tag (Tuple _) = 5"
| "tag (HashShape _) = 6"
| "tag (DataInstance _ _) = 7"
| "tag (Refined _ _) = 8"
| "tag (App _ _) = 9"
| "tag (Intersection _) = 10"
| "tag (Difference _ _) = 11"
| "tag (Complement _) = 12"
| "tag (Dynamic _) = 13"
| "tag (Union _) = 14"
| "tag Void = 15"
| "tag SelfType = 16"
| "tag Instance = 17"
| "tag ClassType = 18"
| "tag (Singleton _) = 19"

text \<open>The pattern of \<open>if let Type::Union(members) = ...\<close>, and its like for the other list carrier.\<close>

fun as_union :: "'a Type \<Rightarrow> 'a list option" where
  "as_union (Union ms) = Some ms"
| "as_union _ = None"

fun as_intersection :: "'a Type \<Rightarrow> 'a list option" where
  "as_intersection (Intersection ms) = Some ms"
| "as_intersection _ = None"

fun as_dynamic_type :: "'a Type \<Rightarrow> 'a option" where
  "as_dynamic_type (Dynamic f) = Some f"
| "as_dynamic_type _ = None"

lemma as_union_Some [simp]: "as_union t = Some ms \<longleftrightarrow> t = Union ms"
  by (cases t) auto

lemma as_intersection_Some [simp]: "as_intersection t = Some ms \<longleftrightarrow> t = Intersection ms"
  by (cases t) auto

lemma as_dynamic_type_Some [simp]: "as_dynamic_type t = Some f \<longleftrightarrow> t = Dynamic f"
  by (cases t) auto

lemma as_union_map [simp]: "as_union (map_Type f t) = map_option (map f) (as_union t)"
  by (cases t) auto

lemma as_intersection_map [simp]:
  "as_intersection (map_Type f t) = map_option (map f) (as_intersection t)"
  by (cases t) auto

lemma as_dynamic_type_map [simp]:
  "as_dynamic_type (map_Type f t) = map_option f (as_dynamic_type t)"
  by (cases t) auto

lemma class_no_eq [simp]: "uint (class_no c) = uint (class_no d) \<longleftrightarrow> c = d"
  by (cases c; cases d) (auto dest: word_uint_eqI)

lemma refinement_no_eq [simp]: "uint (refinement_no c) = uint (refinement_no d) \<longleftrightarrow> c = d"
  by (cases c; cases d) (auto dest: word_uint_eqI)

lemma uri_text_eq [simp]: "uri_text c = uri_text d \<longleftrightarrow> c = d"
  by (cases c; cases d) simp

section \<open>The orders of the leaves\<close>

fun scalar_key :: "Scalar \<Rightarrow> nat \<times> int \<times> string" where
  "scalar_key SNil = (0, 0, '''')"
| "scalar_key (SBool b) = (1, of_bool b, '''')"
| "scalar_key (SInt v) = (2, sint v, '''')"
| "scalar_key (SFloat b) = (3, uint b, '''')"
| "scalar_key (SStr s) = (4, 0, s)"
| "scalar_key (SSym s) = (5, 0, s)"
| "scalar_key (SBigInt s) = (6, 0, s)"

lemma scalar_cmp_key: "scalar_cmp x y = cmp_of (scalar_key x) (scalar_key y)"
  by (cases x; cases y) (simp_all add: scalar_cmp_def cmp_of_def less_prod_def)

lemma inj_scalar_key: "inj scalar_key"
proof (rule injI)
  fix x y show "scalar_key x = scalar_key y \<Longrightarrow> x = y"
    by (cases x; cases y) (auto simp: signed_word_eqI dest: word_uint_eqI)
qed

lemma inj_shape_key_ord: "inj shape_key_ord"
proof (rule injI)
  fix x y show "shape_key_ord x = shape_key_ord y \<Longrightarrow> x = y"
    by (cases x; cases y) (auto simp: signed_word_eqI dest: word_uint_eqI)
qed

interpretation scalar_order: comparator scalar_cmp
  by (rule comparator_key[OF scalar_cmp_key inj_scalar_key])

interpretation shape_key_order: comparator shape_key_cmp
  by (rule comparator_key[OF shape_key_cmp_def inj_shape_key_ord])

text \<open>The derived order of \<open>Option<i64>\<close>: \<open>None\<close> first.\<close>

fun opt_i64_key :: "i64 option \<Rightarrow> nat \<times> int" where
  "opt_i64_key None = (0, 0)"
| "opt_i64_key (Some v) = (1, sint v)"

definition opt_i64_cmp :: "i64 option \<Rightarrow> i64 option \<Rightarrow> Ordering" where
  "opt_i64_cmp x y = cmp_of (opt_i64_key x) (opt_i64_key y)"

lemma inj_opt_i64_key: "inj opt_i64_key"
proof (rule injI)
  fix x y show "opt_i64_key x = opt_i64_key y \<Longrightarrow> x = y"
    by (cases x; cases y) (auto simp: signed_word_eqI dest: word_uint_eqI)
qed

interpretation bound_order: comparator opt_i64_cmp
  by (rule comparator_key[OF opt_i64_cmp_def inj_opt_i64_key])

lemma opt_i64_cmp_eq [simp]: "opt_i64_cmp x y = Equal \<longleftrightarrow> x = y"
  by (rule bound_order.cmp_eq)

lemma shape_key_cmp_eq [simp]: "shape_key_cmp x y = Equal \<longleftrightarrow> x = y"
  by (rule shape_key_order.cmp_eq)

lemma scalar_cmp_eq [simp]: "scalar_cmp x y = Equal \<longleftrightarrow> x = y"
  by (rule scalar_order.cmp_eq)

end
