(* ===== verification/Ruby_Text.thy ===== *)
theory Ruby_Text
  imports Float64 Ty
begin

text \<open>
  The text layer of \<open>crates/rigor-types/src/display.rs\<close>: how Ruby spells a literal. A Rust
  \<open>String\<close> is its UTF-8 bytes (one \<open>char\<close> each); every test these functions make is on ASCII
  bytes, and a byte of a multi-byte character is passed through, so walking bytes and walking
  characters give the same text. The main result is that a quoted literal reads back: the
  reader \<open>ruby_unquote\<close> of Ruby's double-quoted escapes recovers the original bytes and finds
  neither an unescaped quote nor an interpolation.
\<close>

section \<open>Characters\<close>

definition between :: "char \<Rightarrow> char \<Rightarrow> char \<Rightarrow> bool" where
  "between lo hi c \<longleftrightarrow> (of_char lo :: nat) \<le> of_char c \<and> (of_char c :: nat) \<le> of_char hi"

definition is_ascii_digit :: "char \<Rightarrow> bool" where
  "is_ascii_digit c \<longleftrightarrow> between CHR ''0'' CHR ''9'' c"

definition is_ascii_alphabetic :: "char \<Rightarrow> bool" where
  "is_ascii_alphabetic c \<longleftrightarrow> between CHR ''a'' CHR ''z'' c \<or> between CHR ''A'' CHR ''Z'' c"

definition is_ascii_alphanumeric :: "char \<Rightarrow> bool" where
  "is_ascii_alphanumeric c \<longleftrightarrow> is_ascii_alphabetic c \<or> is_ascii_digit c"

definition is_ascii :: "string \<Rightarrow> bool" where
  "is_ascii s \<longleftrightarrow> (\<forall>c \<in> set s. (of_char c :: nat) < 128)"

abbreviation dquote :: char where "dquote \<equiv> CHR 0x22"
abbreviation backslash :: char where "backslash \<equiv> CHR 0x5C"

section \<open>Quoted literals\<close>

definition hex_upper :: "nat \<Rightarrow> char" where
  "hex_upper d = (if d < 10 then char_of (48 + d) else char_of (55 + d))"

text \<open>One byte of the body; the second argument is the rest of the string (\<open>chars.peek\<close>).\<close>

definition inspect_char :: "char \<Rightarrow> string \<Rightarrow> string" where
  "inspect_char c rest =
     (if c = dquote then [backslash, dquote]
      else if c = backslash then [backslash, backslash]
      else if c = CHR 0x0A then [backslash, CHR ''n'']
      else if c = CHR 0x09 then [backslash, CHR ''t'']
      else if c = CHR 0x0D then [backslash, CHR ''r'']
      else if c = CHR 0x00 then [backslash, CHR ''0'']
      else if c = CHR 0x07 then [backslash, CHR ''a'']
      else if c = CHR 0x08 then [backslash, CHR ''b'']
      else if c = CHR 0x0C then [backslash, CHR ''f'']
      else if c = CHR 0x0B then [backslash, CHR ''v'']
      else if c = CHR 0x1B then [backslash, CHR ''e'']
      else if c = CHR ''#'' then
        (case rest of
           n # _ \<Rightarrow> if n = CHR ''{'' \<or> n = CHR ''@'' \<or> n = CHR ''$'' then [backslash, CHR ''#''] else [CHR ''#'']
         | [] \<Rightarrow> [CHR ''#''])
      else if (of_char c :: nat) < 32 \<or> c = CHR 0x7F then
        [backslash, CHR ''x'', hex_upper (of_char c div 16), hex_upper (of_char c mod 16)]
      else [c])"

fun inspect_body :: "string \<Rightarrow> string" where
  "inspect_body [] = []"
| "inspect_body (c # rest) = inspect_char c rest @ inspect_body rest"

definition ruby_inspect_dq :: "string \<Rightarrow> string" where
  "ruby_inspect_dq s = dquote # inspect_body s @ [dquote]"

section \<open>Symbols\<close>

definition identchar :: "char \<Rightarrow> bool" where
  "identchar c \<longleftrightarrow> is_ascii_alphanumeric c \<or> c = CHR ''_''"

definition OPERATOR_SYMNAMES :: "string list" where
  "OPERATOR_SYMNAMES =
     [''+'', ''-'', ''*'', ''**'', ''/'', ''%'', ''=='', ''==='', ''=~'', ''!~'', ''!='', ''<'', ''<='', ''<=>'',
      ''>'', ''>='', ''<<'', ''>>'', ''&'', ''|'', ''^'', ''~'', ''+@'', ''-@'', ''[]'', ''[]='',
      [CHR 0x60], ''!'']"

definition GLOBAL_NAME_PUNCT :: "char list" where
  "GLOBAL_NAME_PUNCT = ''~*$?!@/'' @ [backslash] @ '';,.=:<>'' @ [dquote] @ ''&'' @ [CHR 0x60, CHR 0x27] @ ''+0''"

definition special_global_tail :: "string \<Rightarrow> bool" where
  "special_global_tail t =
     (case t of [] \<Rightarrow> False
      | first # rest \<Rightarrow>
          if first \<in> set GLOBAL_NAME_PUNCT then rest = []
          else if first = CHR ''-'' then (case rest of [c] \<Rightarrow> identchar c | _ \<Rightarrow> False)
          else is_ascii_digit first \<and> list_all is_ascii_digit rest)"

definition ident_tail :: "string \<Rightarrow> bool \<Rightarrow> bool" where
  "ident_tail name allow_sigil =
     (case name of [] \<Rightarrow> False
      | c # rest \<Rightarrow>
          if \<not> (c = CHR ''_'' \<or> is_ascii_alphabetic c) then False
          else if list_all identchar rest then True
          else if \<not> allow_sigil then False
          else last name \<in> {CHR ''?'', CHR ''!'', CHR ''=''} \<and> list_all identchar (butlast name))"

definition bare_symname :: "string \<Rightarrow> bool" where
  "bare_symname name =
     (if name \<in> set OPERATOR_SYMNAMES then True
      else case name of
          [] \<Rightarrow> False
        | c # rest \<Rightarrow>
            if c = CHR ''$'' then special_global_tail rest \<or> ident_tail rest False
            else if c = CHR ''@'' then
              ident_tail (case rest of d # rest' \<Rightarrow> if d = CHR ''@'' then rest' else rest | [] \<Rightarrow> rest) False
            else ident_tail name True)"

definition symbol_inspect :: "string \<Rightarrow> string" where
  "symbol_inspect name = (if bare_symname name then CHR '':'' # name else CHR '':'' # ruby_inspect_dq name)"

section \<open>Floats\<close>

definition ruby_float_to_s :: "f64 \<Rightarrow> string" where
  "ruby_float_to_s f =
     (if is_nan f then ''NaN''
      else if is_infinite f then (if \<not> f64_sign f then ''Infinity'' else ''-Infinity'')
      else if is_zero f then f64_fixed1_integral f
      else let (mant, exp10) = f64_sci f;
               use_exp = (exp10 \<le> - 5 \<or> exp10 \<ge> 16 \<or> (exp10 = 15 \<and> f64_integral f))
        in if \<not> use_exp then (if f64_integral f then f64_fixed1_integral f else f64_display f)
           else let sign = (if exp10 < 0 then ''-'' else ''+'');
                    mantissa = (if CHR ''.'' \<in> set mant then mant else mant @ ''.0'');
                    e = digits_of (nat \<bar>exp10\<bar>)
             in mantissa @ ''e'' @ sign @ (if length e < 2 then CHR ''0'' # e else e))"

definition named_float :: "f64 \<Rightarrow> string" where
  "named_float f = ruby_float_to_s f"

section \<open>Scalars, keys and ranges\<close>

fun scalar_inspect :: "Scalar \<Rightarrow> string" where
  "scalar_inspect (SStr v) = ruby_inspect_dq v"
| "scalar_inspect (SSym v) = symbol_inspect v"
| "scalar_inspect (SInt n) = show_i64 n"
| "scalar_inspect (SBigInt digits) = digits"
| "scalar_inspect (SFloat f) = named_float f"
| "scalar_inspect (SBool b) = show_bool b"
| "scalar_inspect SNil = ''nil''"

fun scalar_erase :: "Scalar \<Rightarrow> string" where
  "scalar_erase (SBool True) = ''true''"
| "scalar_erase (SBool False) = ''false''"
| "scalar_erase SNil = ''nil''"
| "scalar_erase (SInt n) = show_i64 n"
| "scalar_erase (SBigInt digits) = digits"
| "scalar_erase (SStr v) = ruby_inspect_dq v"
| "scalar_erase (SSym v) = symbol_inspect v"
| "scalar_erase (SFloat _) = ''Float''"

fun scalar_text :: "Scalar \<Rightarrow> string" where
  "scalar_text (SInt v) = show_i64 v"
| "scalar_text (SBigInt digits) = digits"
| "scalar_text (SStr v) = ruby_inspect_dq v"
| "scalar_text (SSym v) = symbol_inspect v"
| "scalar_text (SBool v) = show_bool v"
| "scalar_text SNil = ''nil''"
| "scalar_text (SFloat v) = f64_display v"

fun shape_key_text :: "ShapeKey \<Rightarrow> string" where
  "shape_key_text (KSym s) = symbol_inspect s"
| "shape_key_text (KStr s) = ruby_inspect_dq s"
| "shape_key_text (KInt v) = show_i64 v"
| "shape_key_text (KFloat bits) = named_float bits"
| "shape_key_text (KBool b) = show_bool b"
| "shape_key_text KNil = ''nil''"
| "shape_key_text KOther = ''_''"

fun shape_key_class_name :: "ShapeKey \<Rightarrow> string" where
  "shape_key_class_name (KSym _) = ''Symbol''"
| "shape_key_class_name (KStr _) = ''String''"
| "shape_key_class_name (KInt _) = ''Integer''"
| "shape_key_class_name (KFloat _) = ''Float''"
| "shape_key_class_name (KBool True) = ''true''"
| "shape_key_class_name (KBool False) = ''false''"
| "shape_key_class_name KNil = ''nil''"
| "shape_key_class_name KOther = ''untyped''"

definition is_bare_record_key :: "string \<Rightarrow> bool" where
  "is_bare_record_key s =
     (case s of [] \<Rightarrow> False
      | first # rest \<Rightarrow>
          if \<not> (is_ascii_alphabetic first \<or> first = CHR ''_'') then False
          else list_all (\<lambda>c. is_ascii_alphanumeric c \<or> c = CHR ''_'')
            (if rest \<noteq> [] \<and> (last rest = CHR ''?'' \<or> last rest = CHR ''!'') then butlast rest else rest))"

fun named_key_prefix :: "ShapeKey \<Rightarrow> string" where
  "named_key_prefix (KSym s) =
     (if is_bare_record_key s then s @ '':'' else CHR '':'' # ruby_inspect_dq s @ '' =>'')"
| "named_key_prefix (KStr s) = ruby_inspect_dq s @ '' =>''"
| "named_key_prefix (KInt v) = show_i64 v @ '' =>''"
| "named_key_prefix (KFloat bits) = named_float bits @ '' =>''"
| "named_key_prefix (KBool b) = show_bool b @ '' =>''"
| "named_key_prefix KNil = ''nil =>''"
| "named_key_prefix KOther = ''_ =>''"

definition named_integer_range :: "i64 option \<Rightarrow> i64 option \<Rightarrow> string" where
  "named_integer_range lo hi =
     (if lo = None \<and> hi = None then ''int''
      else if lo = Some 1 \<and> hi = None then ''positive-int''
      else if lo = Some 0 \<and> hi = None then ''non-negative-int''
      else if lo = None \<and> hi = Some (- 1) then ''negative-int''
      else if lo = None \<and> hi = Some 0 then ''non-positive-int''
      else ''int<'' @ (case lo of None \<Rightarrow> ''min'' | Some v \<Rightarrow> show_i64 v) @ '', '' @
           (case hi of None \<Rightarrow> ''max'' | Some v \<Rightarrow> show_i64 v) @ ''>'')"

definition uniq_join :: "string list \<Rightarrow> string" where
  "uniq_join items = join_str '' | '' (rev (remdups (rev items)))"

section \<open>The inverse of inspecting\<close>

text \<open>A decoder of what \<open>inspect_body\<close> writes, which takes \<open>\0\<close> for a whole escape: it shows that
  the spelling loses nothing. It is not Ruby's reader, which follows below.\<close>

definition unhex :: "char \<Rightarrow> nat option" where
  "unhex c = (if is_ascii_digit c then Some (of_char c - 48)
              else if between CHR ''A'' CHR ''F'' c then Some (of_char c - 55) else None)"

definition unescape :: "char \<Rightarrow> char option" where
  "unescape e = map_of
     [(dquote, dquote), (backslash, backslash), (CHR ''n'', CHR 0x0A), (CHR ''t'', CHR 0x09), (CHR ''r'', CHR 0x0D),
      (CHR ''0'', CHR 0x00), (CHR ''a'', CHR 0x07), (CHR ''b'', CHR 0x08), (CHR ''f'', CHR 0x0C),
      (CHR ''v'', CHR 0x0B), (CHR ''e'', CHR 0x1B), (CHR ''#'', CHR ''#'')] e"

fun decode_body :: "string \<Rightarrow> string option" where
  "decode_body [] = None"
| "decode_body [c] = (if c = dquote then Some [] else None)"
| "decode_body (c # e # rest) =
     (if c = dquote then None
      else if c = backslash then
        (if e = CHR ''x'' then
           (case rest of h1 # h2 # rest' \<Rightarrow> do {
              d1 \<leftarrow> unhex h1; d2 \<leftarrow> unhex h2; s \<leftarrow> decode_body rest';
              Some (char_of (16 * d1 + d2) # s) }
            | _ \<Rightarrow> None)
         else do { u \<leftarrow> unescape e; s \<leftarrow> decode_body rest; Some (u # s) })
      else if c = CHR ''#'' \<and> (e = CHR ''{'' \<or> e = CHR ''@'' \<or> e = CHR ''$'') then None
      else do { s \<leftarrow> decode_body (e # rest); Some (c # s) })"

definition decode_inspect :: "string \<Rightarrow> string option" where
  "decode_inspect s = (case s of c # rest \<Rightarrow> if c = dquote then decode_body rest else None | [] \<Rightarrow> None)"

lemma unhex_hex: "d < 16 \<Longrightarrow> unhex (hex_upper d) = Some d"
  by (auto simp: hex_upper_def unhex_def is_ascii_digit_def between_def)

text \<open>The escapes written for a byte read back, one case per branch of \<open>inspect_char\<close>.\<close>

definition simple_escapes :: "(char \<times> char) list" where
  "simple_escapes =
     [(dquote, dquote), (backslash, backslash), (CHR 0x0A, CHR ''n''), (CHR 0x09, CHR ''t''), (CHR 0x0D, CHR ''r''),
      (CHR 0x00, CHR ''0''), (CHR 0x07, CHR ''a''), (CHR 0x08, CHR ''b''), (CHR 0x0C, CHR ''f''),
      (CHR 0x0B, CHR ''v''), (CHR 0x1B, CHR ''e'')]"

lemma inspect_char_cases:
  obtains (simple) e where "inspect_char c rest = [backslash, e]" "(c, e) \<in> set simple_escapes"
    | (guard) "c = CHR ''#''" "inspect_char c rest = [backslash, CHR ''#'']"
    | (hash) "c = CHR ''#''" "inspect_char c rest = [CHR ''#'']"
        "rest = [] \<or> hd rest \<notin> {CHR ''{'', CHR ''@'', CHR ''$''}"
    | (hex) "inspect_char c rest = [backslash, CHR ''x'', hex_upper (of_char c div 16), hex_upper (of_char c mod 16)]"
    | (plain) "inspect_char c rest = [c]" "c \<noteq> dquote" "c \<noteq> backslash" "c \<noteq> CHR ''#''"
proof (cases "c \<in> fst ` set simple_escapes")
  case True
  then obtain e where "(c, e) \<in> set simple_escapes" by auto
  moreover from this have "inspect_char c rest = [backslash, e]"
    unfolding simple_escapes_def list.set insert_iff prod.inject empty_iff
    by (elim disjE conjE) (simp_all add: inspect_char_def)
  ultimately show thesis by (rule simple[rotated])
next
  case False
  then have n: "c \<noteq> dquote" "c \<noteq> backslash" "c \<noteq> CHR 0x0A" "c \<noteq> CHR 0x09" "c \<noteq> CHR 0x0D" "c \<noteq> CHR 0x00"
    "c \<noteq> CHR 0x07" "c \<noteq> CHR 0x08" "c \<noteq> CHR 0x0C" "c \<noteq> CHR 0x0B" "c \<noteq> CHR 0x1B"
    by (simp_all add: simple_escapes_def)
  show thesis
  proof (cases "c = CHR ''#''")
    case hash_char: True
    show thesis
    proof (cases "rest \<noteq> [] \<and> hd rest \<in> {CHR ''{'', CHR ''@'', CHR ''$''}")
      case True
      with hash_char show thesis by (intro guard) (auto simp: inspect_char_def neq_Nil_conv)
    next
      case False
      with hash_char show thesis by (intro hash) (auto simp: inspect_char_def split: list.splits)
    qed
  next
    case nh: False
    then show thesis
      using n by (cases "(of_char c :: nat) < 32 \<or> c = CHR 0x7F")
        (rule hex, simp add: inspect_char_def, rule plain, simp_all add: inspect_char_def)
  qed
qed

lemma unescape_simple: "(c, e) \<in> set simple_escapes \<Longrightarrow> unescape e = Some c \<and> e \<noteq> CHR ''x''"
proof -
  have "\<forall>(c, e) \<in> set simple_escapes. unescape e = Some c \<and> e \<noteq> CHR ''x''" by code_simp
  then show "(c, e) \<in> set simple_escapes \<Longrightarrow> unescape e = Some c \<and> e \<noteq> CHR ''x''" by blast
qed

text \<open>The first byte written for a string: an escape, or the string's own first byte.\<close>

lemma inspect_body_head:
  "\<exists>h t. inspect_body s @ [dquote] = h # t \<and> (h = backslash \<or> (s = [] \<and> h = dquote) \<or> (s \<noteq> [] \<and> h = hd s))"
proof (cases s)
  case (Cons c rest)
  show ?thesis unfolding Cons by (cases rule: inspect_char_cases[of c rest]) auto
qed simp

lemma decode_plain:
  "c \<noteq> dquote \<Longrightarrow> c \<noteq> backslash \<Longrightarrow> c \<noteq> CHR ''#'' \<Longrightarrow> r \<noteq> [] \<Longrightarrow>
   decode_body (c # r) = do { s \<leftarrow> decode_body r; Some (c # s) }"
  by (cases r) auto

lemma decode_inspect_body: "decode_body (inspect_body s @ [dquote]) = Some s"
proof (induction s)
  case (Cons c rest)
  obtain h t where ht: "inspect_body rest @ [dquote] = h # t"
    "h = backslash \<or> (rest = [] \<and> h = dquote) \<or> (rest \<noteq> [] \<and> h = hd rest)"
    using inspect_body_head by blast
  show ?case
  proof (cases rule: inspect_char_cases[of c rest])
    case (simple e)
    then show ?thesis using Cons unescape_simple[OF simple(2)] by simp
  next
    case guard
    then show ?thesis using Cons by (simp add: unescape_def)
  next
    case hash
    then have "h \<notin> {CHR ''{'', CHR ''@'', CHR ''$''}" using ht(2) by auto
    with hash Cons ht(1) show ?thesis by simp
  next
    case hex
    have "(of_char c :: nat) < 16 * 16" by simp
    then have "(of_char c :: nat) div 16 < 16" by (rule less_mult_imp_div_less)
    then show ?thesis using hex Cons by (simp add: unhex_hex)
  next
    case plain
    then show ?thesis using Cons by (simp add: decode_plain)
  qed
qed simp

lemma decode_inspect_inv: "decode_inspect (ruby_inspect_dq s) = Some s"
  by (simp add: decode_inspect_def ruby_inspect_dq_def decode_inspect_body)

lemma inspect_inj: "ruby_inspect_dq s = ruby_inspect_dq t \<longleftrightarrow> s = t"
  by (metis option.inject decode_inspect_inv)

text \<open>A bare symbol never starts with a quote, so the two spellings of symbols cannot collide.\<close>

lemma bare_symname_head: "bare_symname name \<Longrightarrow> hd name \<noteq> dquote \<and> name \<noteq> []"
proof -
  have op: "\<forall>n \<in> set OPERATOR_SYMNAMES. hd n \<noteq> dquote \<and> n \<noteq> []" by code_simp
  have "\<not> is_ascii_alphabetic dquote" by code_simp
  then show "bare_symname name \<Longrightarrow> hd name \<noteq> dquote \<and> name \<noteq> []"
    using op by (auto simp: bare_symname_def ident_tail_def split: if_splits list.splits)
qed

lemma symbol_inspect_inj: "symbol_inspect s = symbol_inspect t \<longleftrightarrow> s = t"
proof -
  have q: "x \<noteq> ruby_inspect_dq y" if "bare_symname x" for x y
    using bare_symname_head[OF that] by (cases x) (auto simp: ruby_inspect_dq_def)
  show ?thesis
    using q by (auto simp: symbol_inspect_def inspect_inj split: if_splits)
qed

section \<open>Ruby's reading of a double-quoted literal\<close>

text \<open>Ruby's reader: an octal escape takes up to three octal digits and a hexadecimal one up to two
  hexadecimal digits. \<open>None\<close> at an unterminated literal, an early closing quote, an interpolation and
  the escapes that no rendering writes.\<close>

definition is_octal :: "char \<Rightarrow> bool" where
  "is_octal c = between CHR ''0'' CHR ''7'' c"

definition hex_digit_value :: "char \<Rightarrow> nat option" where
  "hex_digit_value c =
     (if between CHR ''a'' CHR ''f'' c then Some (of_char c - 87) else unhex c)"

definition hex_run :: "string \<Rightarrow> string" where
  "hex_run s = takeWhile (\<lambda>c. hex_digit_value c \<noteq> None) (take 2 s)"

definition octal_run :: "string \<Rightarrow> string" where
  "octal_run s = takeWhile is_octal (take 3 s)"

definition number_in :: "nat \<Rightarrow> string \<Rightarrow> nat" where
  "number_in base ds = foldl (\<lambda>v c. base * v + the (hex_digit_value c)) 0 ds"

function ruby_unquote_body :: "string \<Rightarrow> string option" where
  "ruby_unquote_body [] = None"
| "ruby_unquote_body (c # t) =
     (if c = dquote then (if t = [] then Some [] else None)
      else if c = backslash then
        (case t of
           [] \<Rightarrow> None
         | e # rest \<Rightarrow>
             if e = CHR ''x'' then
               (if hex_run rest = [] then None
                else map_option ((#) (char_of (number_in 16 (hex_run rest))))
                  (ruby_unquote_body (drop (length (hex_run rest)) rest)))
             else if is_octal e then
               map_option ((#) (char_of (number_in 8 (octal_run t) mod 256)))
                 (ruby_unquote_body (drop (length (octal_run t)) t))
             else do { u \<leftarrow> unescape e; s \<leftarrow> ruby_unquote_body rest; Some (u # s) })
      else if c = CHR ''#'' \<and> t \<noteq> [] \<and> hd t \<in> {CHR ''{'', CHR ''@'', CHR ''$''} then None
      else map_option ((#) c) (ruby_unquote_body t))"
  by pat_completeness auto
termination by (relation "measure length") auto

declare ruby_unquote_body.simps(2) [simp del]

definition ruby_unquote :: "string \<Rightarrow> string option" where
  "ruby_unquote s = (case s of c # rest \<Rightarrow> if c = dquote then ruby_unquote_body rest else None | [] \<Rightarrow> None)"

text \<open>A zero byte in front of an octal digit.\<close>

fun nul_then_octal :: "string \<Rightarrow> bool" where
  "nul_then_octal (a # b # s) = (a = CHR 0x00 \<and> is_octal b \<or> nul_then_octal (b # s))"
| "nul_then_octal _ = False"

lemma octal_digits: "is_octal c \<Longrightarrow> c \<in> set ''01234567''"
proof -
  assume "is_octal c"
  then have "48 \<le> (of_char c :: nat)" "(of_char c :: nat) \<le> 55" by (simp_all add: is_octal_def between_def)
  then have "of_char c \<in> set [48, 49, 50, 51, 52, 53, 54, 55 :: nat]" by auto
  then have "char_of (of_char c :: nat) \<in> char_of ` set [48, 49, 50, 51, 52, 53, 54, 55 :: nat]" by blast
  moreover have "char_of ` set [48, 49, 50, 51, 52, 53, 54, 55 :: nat] = set ''01234567''" by code_simp
  ultimately show "c \<in> set ''01234567''" by (simp only: char_of_char)
qed

lemma octal_plain: "is_octal c \<Longrightarrow> inspect_char c rest = [c]"
proof -
  have "\<forall>c \<in> set ''01234567''. inspect_char c rest = [c]" by (simp add: inspect_char_def)
  then show "is_octal c \<Longrightarrow> inspect_char c rest = [c]" using octal_digits by blast
qed

lemma not_octal_first: "\<not> is_octal c \<Longrightarrow> \<not> is_octal (hd (inspect_char c rest))"
  by (cases rule: inspect_char_cases[of c rest]) (auto simp: is_octal_def between_def)

lemma octals_written:
  "takeWhile is_octal (take n (inspect_body s @ [dquote])) = takeWhile is_octal (take n s)
   \<and> drop (length (takeWhile is_octal (take n s))) (inspect_body s @ [dquote])
      = inspect_body (drop (length (takeWhile is_octal (take n s))) s) @ [dquote]"
proof (induction n arbitrary: s)
  case (Suc n)
  show ?case
  proof (cases s)
    case Nil
    then show ?thesis by (simp add: is_octal_def between_def)
  next
    case (Cons c rest)
    show ?thesis
    proof (cases "is_octal c")
      case True
      then show ?thesis using Suc[of rest] by (simp add: Cons octal_plain)
    next
      case False
      have "inspect_char c rest \<noteq> []" by (cases rule: inspect_char_cases[of c rest]) auto
      then obtain h t where h: "inspect_char c rest = h # t" by (cases "inspect_char c rest") auto
      then have "\<not> is_octal h" using not_octal_first[OF False, of rest] by simp
      then show ?thesis using False h by (simp add: Cons)
    qed
  qed
qed simp

lemma unescape_not_octal:
  "(c, e) \<in> set simple_escapes \<Longrightarrow> c \<noteq> CHR 0x00 \<Longrightarrow> \<not> is_octal e"
  by (auto simp: simple_escapes_def is_octal_def between_def)

lemma hex_value_hex: "d < 16 \<Longrightarrow> hex_digit_value (hex_upper d) = Some d"
proof -
  assume d: "d < 16"
  then have "\<not> between CHR ''a'' CHR ''f'' (hex_upper d)" by (auto simp: hex_upper_def between_def)
  with d show "hex_digit_value (hex_upper d) = Some d" by (simp add: hex_digit_value_def unhex_hex)
qed

lemma unquote_step:
  assumes "c \<noteq> CHR 0x00"
  shows "ruby_unquote_body (inspect_body (c # rest) @ [dquote])
    = map_option ((#) c) (ruby_unquote_body (inspect_body rest @ [dquote]))"
proof -
  obtain h t where ht: "inspect_body rest @ [dquote] = h # t"
    "h = backslash \<or> (rest = [] \<and> h = dquote) \<or> (rest \<noteq> [] \<and> h = hd rest)"
    using inspect_body_head by blast
  show ?thesis
  proof (cases rule: inspect_char_cases[of c rest])
    case (simple e)
    then show ?thesis
      using unescape_simple[OF simple(2)] unescape_not_octal[OF simple(2) assms]
      by (simp add: ruby_unquote_body.simps(2) map_option_case split: option.splits)
  next
    case guard
    then show ?thesis
      by (simp add: ruby_unquote_body.simps(2) unescape_def is_octal_def between_def map_option_case
          split: option.splits)
  next
    case hash
    then have "h \<notin> {CHR ''{'', CHR ''@'', CHR ''$''}" using ht(2) by auto
    with hash ht(1) show ?thesis by (simp add: ruby_unquote_body.simps(2))
  next
    case hex
    have "(of_char c :: nat) < 16 * 16" by simp
    then have d: "(of_char c :: nat) div 16 < 16" by (rule less_mult_imp_div_less)
    then show ?thesis
      using hex by (simp add: ruby_unquote_body.simps(2) hex_run_def hex_value_hex number_in_def)
  next
    case plain
    then show ?thesis by (simp add: ruby_unquote_body.simps(2))
  qed
qed

lemma unquote_nul:
  "ruby_unquote_body (inspect_body (CHR 0x00 # rest) @ [dquote])
    = map_option ((#) (char_of (number_in 8 (CHR ''0'' # takeWhile is_octal (take 2 rest)) mod 256)))
       (ruby_unquote_body (inspect_body (drop (length (takeWhile is_octal (take 2 rest))) rest) @ [dquote]))"
proof -
  have zero: "inspect_char (CHR 0x00) rest = [backslash, CHR ''0'']" "is_octal CHR ''0''"
    by (simp_all add: inspect_char_def is_octal_def between_def)
  have run: "octal_run (CHR ''0'' # x) = CHR ''0'' # takeWhile is_octal (take 2 x)" for x
    using zero(2) by (simp add: octal_run_def numeral_3_eq_3 numeral_2_eq_2)
  show ?thesis
    using octals_written[of 2 rest] zero by (simp only: inspect_body.simps append_Cons append_Nil append_assoc)
      (simp add: ruby_unquote_body.simps(2) run)
qed

lemma unquote_inspect_body:
  "\<exists>r. ruby_unquote_body (inspect_body s @ [dquote]) = Some r \<and> length r \<le> length s
    \<and> (if nul_then_octal s then length r < length s else r = s)"
proof (induction s rule: length_induct)
  case (1 s)
  show ?case
  proof (cases s)
    case Nil
    then show ?thesis by (simp add: ruby_unquote_body.simps(2))
  next
    case (Cons c rest)
    show ?thesis
    proof (cases "c = CHR 0x00")
      case False
      obtain r where r: "ruby_unquote_body (inspect_body rest @ [dquote]) = Some r" "length r \<le> length rest"
        "if nul_then_octal rest then length r < length rest else r = rest"
        using 1 Cons by fastforce
      have "nul_then_octal s \<longleftrightarrow> nul_then_octal rest" using False by (cases rest) (simp_all add: Cons)
      then show ?thesis using r unfolding Cons unquote_step[OF False] by auto
    next
      case True
      let ?k = "length (takeWhile is_octal (take 2 rest))"
      have "?k \<le> length rest" by (metis length_takeWhile_le le_trans length_take min.cobounded1)
      have "length (drop ?k rest) < length s" by (simp add: Cons)
      with 1 obtain r where r: "ruby_unquote_body (inspect_body (drop ?k rest) @ [dquote]) = Some r"
        "length r \<le> length (drop ?k rest)"
        "if nul_then_octal (drop ?k rest) then length r < length (drop ?k rest) else r = drop ?k rest"
        by blast
      show ?thesis
      proof (cases "?k = 0")
        case k: True
        have "nul_then_octal s \<longleftrightarrow> nul_then_octal rest"
          using k True by (cases rest) (auto simp: Cons split: if_splits)
        then show ?thesis
          using r k True unfolding Cons True unquote_nul by (auto simp: number_in_def hex_digit_value_def
            unhex_def is_ascii_digit_def between_def char_of_def)
      next
        case False
        have "nul_then_octal s" using False True by (cases rest) (auto simp: Cons split: if_splits)
        moreover have "length (drop ?k rest) < length rest"
          unfolding length_drop by (rule diff_less) (use False \<open>?k \<le> length rest\<close> in linarith)+
        ultimately show ?thesis using r unfolding Cons True unquote_nul by auto
      qed
    qed
  qed
qed

lemma unquote_inspect: "ruby_unquote (ruby_inspect_dq s) = Some s \<longleftrightarrow> \<not> nul_then_octal s"
  using unquote_inspect_body[of s] by (auto simp: ruby_unquote_def ruby_inspect_dq_def split: if_splits)

end
