(* ===== verification/Interner.thy ===== *)
theory Interner
  imports Ty
begin

text \<open>
  The interner, \<open>crates/rigor-types/src/interner.rs\<close>: an arena of carriers and a hash-cons
  map that gives every carrier one \<open>TypeId\<close>. A read outside the arena is Rust's index
  panic, the value \<open>None\<close>. The structural order \<open>cmp\<close> recurses through handles; its fuel is
  one more than the arena's length, and \<open>None\<close> is also an exhausted stack. On a well-formed
  interner (\<open>interner_wf\<close>, kept by every operation) children precede their parents, and no
  operation on valid handles is \<open>None\<close>.
\<close>

record Interner =
  arena :: "Ty list"
  dedup :: "Ty \<rightharpoonup> TypeId"
  top_id :: TypeId
  bottom_id :: TypeId
  nil_id :: TypeId
  true_id :: TypeId
  false_id :: TypeId

definition intern :: "Interner \<Rightarrow> Ty \<Rightarrow> TypeId \<times> Interner" where
  "intern i ty =
     (case dedup i ty of
        Some tid \<Rightarrow> (tid, i)
      | None \<Rightarrow>
          let tid = TypeId (word_of_nat (length (arena i)))
          in (tid, i\<lparr>arena := arena i @ [ty], dedup := (dedup i)(ty \<mapsto> tid)\<rparr>))"

definition interner_new :: Interner where
  "interner_new =
     (let me = \<lparr>arena = [], dedup = Map.empty, top_id = TypeId 0, bottom_id = TypeId 0,
                nil_id = TypeId 0, true_id = TypeId 0, false_id = TypeId 0\<rparr>;
          (t, me) = intern me Top; me = me\<lparr>top_id := t\<rparr>;
          (b, me) = intern me Bottom; me = me\<lparr>bottom_id := b\<rparr>;
          (n, me) = intern me (Constant SNil); me = me\<lparr>nil_id := n\<rparr>;
          (tr, me) = intern me (Constant (SBool True)); me = me\<lparr>true_id := tr\<rparr>;
          (fa, me) = intern me (Constant (SBool False)); me = me\<lparr>false_id := fa\<rparr>
      in me)"

definition get :: "Interner \<Rightarrow> TypeId \<Rightarrow> Ty option" where
  "get i tid =
     (let k = unat (index tid) in if k < length (arena i) then Some (arena i ! k) else None)"

definition interner_len :: "Interner \<Rightarrow> nat" where
  "interner_len i = length (arena i)"

definition interner_is_empty :: "Interner \<Rightarrow> bool" where
  "interner_is_empty i \<longleftrightarrow> arena i = []"

definition untyped :: "Interner \<Rightarrow> TypeId \<times> Interner" where
  "untyped i = intern i (Dynamic (top_id i))"

definition intern_int :: "Interner \<Rightarrow> i64 \<Rightarrow> TypeId \<times> Interner" where
  "intern_int i v = intern i (Constant (SInt v))"

section \<open>The structural order\<close>

definition cmp_slice_m :: "('a \<Rightarrow> 'a \<Rightarrow> Ordering option) \<Rightarrow> 'a list \<Rightarrow> 'a list \<Rightarrow> Ordering option" where
  "cmp_slice_m c a b =
     do { d \<leftarrow> lex_zip_m c a b;
          if d \<noteq> Equal then Some d else Some (cmp_of (length a) (length b)) }"

definition cmp_member_m ::
  "('a \<Rightarrow> 'a \<Rightarrow> Ordering option) \<Rightarrow> 'a ShapeMember \<Rightarrow> 'a ShapeMember \<Rightarrow> Ordering option" where
  "cmp_member_m c mx my =
     (let k = shape_key_cmp (key mx) (key my) in
      if k \<noteq> Equal then Some k
      else let o' = cmp_of (optional mx) (optional my) in
      if o' \<noteq> Equal then Some o'
      else c (mvalue mx) (mvalue my))"

definition cmp_field_m ::
  "('a \<Rightarrow> 'a \<Rightarrow> Ordering option) \<Rightarrow> string \<times> 'a \<Rightarrow> string \<times> 'a \<Rightarrow> Ordering option" where
  "cmp_field_m c ma mb =
     (let n = cmp_of (fst ma) (fst mb) in if n \<noteq> Equal then Some n else c (snd ma) (snd mb))"

definition cmp_type_m :: "('a \<Rightarrow> 'a \<Rightarrow> Ordering option) \<Rightarrow> 'a Type \<Rightarrow> 'a Type \<Rightarrow> Ordering option" where
  "cmp_type_m c ta tb =
     (let tg = cmp_of (tag ta) (tag tb) in
      if tg \<noteq> Equal then Some tg else
      case ta of
        Constant x \<Rightarrow> (case tb of Constant y \<Rightarrow> Some (scalar_cmp x y) | _ \<Rightarrow> Some Equal)
      | IntegerRange amin amax \<Rightarrow>
          (case tb of IntegerRange bmin bmax \<Rightarrow>
             Some (ord_then (opt_i64_cmp amin bmin) (opt_i64_cmp amax bmax)) | _ \<Rightarrow> Some Equal)
      | Nominal ac aargs \<Rightarrow>
          (case tb of Nominal bc bargs \<Rightarrow>
             let d = cmp_of (class_no ac) (class_no bc) in
             if d \<noteq> Equal then Some d else cmp_slice_m c aargs bargs | _ \<Rightarrow> Some Equal)
      | Singleton ac \<Rightarrow>
          (case tb of Singleton bc \<Rightarrow> Some (cmp_of (class_no ac) (class_no bc)) | _ \<Rightarrow> Some Equal)
      | Tuple x \<Rightarrow> (case tb of Tuple y \<Rightarrow> cmp_slice_m c x y | _ \<Rightarrow> Some Equal)
      | HashShape x \<Rightarrow>
          (case tb of HashShape y \<Rightarrow>
             let by_len = cmp_of (length x) (length y) in
             if by_len \<noteq> Equal then Some by_len else lex_zip_m (cmp_member_m c) x y
           | _ \<Rightarrow> Some Equal)
      | DataInstance ac am \<Rightarrow>
          (case tb of DataInstance bc bm \<Rightarrow>
             let d = cmp_of (class_no ac) (class_no bc) in
             if d \<noteq> Equal then Some d else
             let by_len = cmp_of (length am) (length bm) in
             if by_len \<noteq> Equal then Some by_len else lex_zip_m (cmp_field_m c) am bm
           | _ \<Rightarrow> Some Equal)
      | Refined ab ar \<Rightarrow>
          (case tb of Refined bb br \<Rightarrow>
             do { d \<leftarrow> c ab bb; Some (ord_then d (cmp_of (refinement_no ar) (refinement_no br))) }
           | _ \<Rightarrow> Some Equal)
      | App au aa \<Rightarrow>
          (case tb of App bu ba \<Rightarrow>
             let d = cmp_of (uri_text au) (uri_text bu) in
             if d \<noteq> Equal then Some d else cmp_slice_m c aa ba | _ \<Rightarrow> Some Equal)
      | Intersection x \<Rightarrow> (case tb of Intersection y \<Rightarrow> cmp_slice_m c x y | _ \<Rightarrow> Some Equal)
      | Difference ab ar \<Rightarrow>
          (case tb of Difference bb br \<Rightarrow>
             do { d \<leftarrow> c ab bb; if d \<noteq> Equal then Some d else c ar br } | _ \<Rightarrow> Some Equal)
      | Complement x \<Rightarrow> (case tb of Complement y \<Rightarrow> c x y | _ \<Rightarrow> Some Equal)
      | Dynamic x \<Rightarrow> (case tb of Dynamic y \<Rightarrow> c x y | _ \<Rightarrow> Some Equal)
      | Union x \<Rightarrow> (case tb of Union y \<Rightarrow> cmp_slice_m c x y | _ \<Rightarrow> Some Equal)
      | _ \<Rightarrow> Some Equal)"

fun cmp_fuel :: "nat \<Rightarrow> Interner \<Rightarrow> TypeId \<Rightarrow> TypeId \<Rightarrow> Ordering option" where
  "cmp_fuel 0 i a b = None"
| "cmp_fuel (Suc n) i a b =
     (if a = b then Some Equal
      else do { ta \<leftarrow> get i a; tb \<leftarrow> get i b; cmp_type_m (cmp_fuel n i) ta tb })"

definition cmp :: "Interner \<Rightarrow> TypeId \<Rightarrow> TypeId \<Rightarrow> Ordering option" where
  "cmp i a b = cmp_fuel (Suc (length (arena i))) i a b"

section \<open>Well-formed interners\<close>

text \<open>
  The invariant: the hash-cons map is exactly the arena read backwards (so the arena holds
  every carrier once), the children of a carrier stand before it, the arena fits the 32-bit
  handle, and the cached atomics are what they are named.
\<close>

definition valid :: "Interner \<Rightarrow> TypeId \<Rightarrow> bool" where
  "valid i a \<longleftrightarrow> unat (index a) < length (arena i)"

definition valid_type :: "Interner \<Rightarrow> Ty \<Rightarrow> bool" where
  "valid_type i t \<longleftrightarrow> (\<forall>a \<in> set_Type t. valid i a)"

definition dedup_exact :: "Interner \<Rightarrow> bool" where
  "dedup_exact i \<longleftrightarrow> (\<forall>t a. dedup i t = Some a \<longleftrightarrow> get i a = Some t)"

definition children_before :: "Interner \<Rightarrow> bool" where
  "children_before i \<longleftrightarrow>
     (\<forall>k < length (arena i). \<forall>c \<in> set_Type (arena i ! k). unat (index c) < k)"

definition atomics_ok :: "Interner \<Rightarrow> bool" where
  "atomics_ok i \<longleftrightarrow> get i (top_id i) = Some Top \<and> get i (bottom_id i) = Some Bottom
     \<and> get i (nil_id i) = Some (Constant SNil) \<and> get i (true_id i) = Some (Constant (SBool True))
     \<and> get i (false_id i) = Some (Constant (SBool False))"

definition interner_wf :: "Interner \<Rightarrow> bool" where
  "interner_wf i \<longleftrightarrow> length (arena i) \<le> 2 ^ 32 \<and> dedup_exact i \<and> children_before i \<and> atomics_ok i"

text \<open>The interner has room for \<open>n\<close> more carriers before a handle would wrap.\<close>

definition room :: "Interner \<Rightarrow> nat \<Rightarrow> bool" where
  "room i n \<longleftrightarrow> length (arena i) + n \<le> 2 ^ 32"

text \<open>A later state of the interner: the arena has only grown, the atomics are the same.\<close>

definition extends :: "Interner \<Rightarrow> Interner \<Rightarrow> bool" where
  "extends i j \<longleftrightarrow> (\<exists>ts. arena j = arena i @ ts) \<and> top_id j = top_id i \<and> bottom_id j = bottom_id i
     \<and> nil_id j = nil_id i \<and> true_id j = true_id i \<and> false_id j = false_id i"

lemma interner_wfD:
  assumes "interner_wf i"
  shows "length (arena i) \<le> 2 ^ 32" and "dedup_exact i" and "children_before i" and "atomics_ok i"
  using assms by (simp_all add: interner_wf_def)

lemma valid_iff_get: "valid i a \<longleftrightarrow> (\<exists>t. get i a = Some t)"
  by (auto simp: valid_def get_def Let_def)

lemma get_Some_valid: "get i a = Some t \<Longrightarrow> valid i a"
  by (auto simp: valid_iff_get)

lemma dedup_get: "interner_wf i \<Longrightarrow> dedup i t = Some a \<longleftrightarrow> get i a = Some t"
  by (auto simp: interner_wf_def dedup_exact_def)

lemma get_inj: "interner_wf i \<Longrightarrow> get i a = Some t \<Longrightarrow> get i b = Some t \<Longrightarrow> a = b"
  by (metis dedup_get option.inject)

lemma child_before:
  assumes "interner_wf i" "get i a = Some t" "c \<in> set_Type t"
  shows "unat (index c) < unat (index a)"
  using assms by (auto simp: interner_wf_def children_before_def get_def Let_def split: if_splits)

lemma child_valid: "interner_wf i \<Longrightarrow> get i a = Some t \<Longrightarrow> c \<in> set_Type t \<Longrightarrow> valid i c"
  using child_before get_Some_valid unfolding valid_def by (meson less_trans)

lemma get_valid_type: "interner_wf i \<Longrightarrow> get i a = Some t \<Longrightarrow> valid_type i t"
  by (auto simp: valid_type_def intro: child_valid)

lemma extends_refl [simp]: "extends i i"
  by (simp add: extends_def)

lemma extends_trans: "extends i j \<Longrightarrow> extends j k \<Longrightarrow> extends i k"
  by (auto simp: extends_def)

lemma extends_get: "extends i j \<Longrightarrow> get i a = Some t \<Longrightarrow> get j a = Some t"
  by (auto simp: extends_def get_def Let_def nth_append split: if_splits)

lemma extends_valid: "extends i j \<Longrightarrow> valid i a \<Longrightarrow> valid j a"
  by (auto simp: valid_iff_get intro: extends_get)

lemma extends_valid_type: "extends i j \<Longrightarrow> valid_type i t \<Longrightarrow> valid_type j t"
  by (auto simp: valid_type_def intro: extends_valid)

lemma room_mono: "room i n \<Longrightarrow> m \<le> n \<Longrightarrow> room i m"
  by (simp add: room_def)

section \<open>Interning keeps the invariant\<close>

lemma intern_known: "dedup i t = Some a \<Longrightarrow> intern i t = (a, i)"
  by (simp add: intern_def)

lemma intern_extends: "extends i (snd (intern i t))"
  by (auto simp: intern_def extends_def Let_def split: option.splits)

lemma intern_length: "length (arena (snd (intern i t))) \<le> Suc (length (arena i))"
  by (auto simp: intern_def Let_def split: option.splits)

lemma intern_room: "room i (Suc n) \<Longrightarrow> room (snd (intern i t)) n"
  using intern_length[of i t] by (simp add: room_def)

lemma get_fresh:
  assumes "length (arena i) < 2 ^ 32"
  shows "get (i\<lparr>arena := arena i @ [t], dedup := d\<rparr>) a =
    (if a = TypeId (word_of_nat (length (arena i))) then Some t else get i a)"
proof -
  have u: "unat (word_of_nat (length (arena i)) :: u32) = length (arena i)"
    using assms by (simp add: unat_word_of_nat32)
  have "a = TypeId (word_of_nat (length (arena i))) \<longleftrightarrow> unat (index a) = length (arena i)"
    using u by (cases a) (auto simp: word_unat_eq_iff)
  then show ?thesis by (auto simp: get_def Let_def nth_append u)
qed

lemma get_intern:
  assumes "interner_wf i" "room i 1"
  shows "get (snd (intern i t)) (fst (intern i t)) = Some t"
  using assms
  by (auto simp: intern_def Let_def get_fresh room_def dedup_get split: option.splits)

lemma intern_wf:
  assumes wf: "interner_wf i" and room: "room i 1" and kids: "valid_type i t"
  shows "interner_wf (snd (intern i t))"
proof (cases "dedup i t")
  case (Some a)
  with wf show ?thesis by (simp add: intern_known)
next
  case None
  let ?id = "TypeId (word_of_nat (length (arena i)))"
  let ?j = "i\<lparr>arena := arena i @ [t], dedup := (dedup i)(t \<mapsto> ?id)\<rparr>"
  have j: "snd (intern i t) = ?j" using None by (simp add: intern_def Let_def)
  have len: "length (arena i) < 2 ^ 32" using room by (simp add: room_def)
  have nt: "get i a \<noteq> Some t" for a using None dedup_get[OF wf, of t a] by auto
  have no_id: "get i ?id = None"
    using len by (simp add: get_def Let_def unat_word_of_nat32)
  have "dedup_exact ?j"
    unfolding dedup_exact_def get_fresh[OF len]
    using dedup_get[OF wf] nt no_id by auto
  moreover have "children_before ?j"
    using wf kids
    by (auto simp: interner_wf_def children_before_def nth_append valid_type_def valid_def less_Suc_eq)
  moreover have "atomics_ok ?j"
    using interner_wfD(4)[OF wf] no_id unfolding atomics_ok_def get_fresh[OF len] by auto
  ultimately show ?thesis using len unfolding j by (simp add: interner_wf_def)
qed


lemma interner_new_eq:
  "interner_new = \<lparr>arena = [Top, Bottom, Constant SNil, Constant (SBool True), Constant (SBool False)],
     dedup = [Top \<mapsto> TypeId 0, Bottom \<mapsto> TypeId 1, Constant SNil \<mapsto> TypeId 2,
              Constant (SBool True) \<mapsto> TypeId 3, Constant (SBool False) \<mapsto> TypeId 4],
     top_id = TypeId 0, bottom_id = TypeId 1, nil_id = TypeId 2, true_id = TypeId 3, false_id = TypeId 4\<rparr>"
  by (simp add: interner_new_def intern_def Let_def)

lemma get_interner_new:
  "get interner_new a =
     (if a = TypeId 0 then Some Top else if a = TypeId 1 then Some Bottom
      else if a = TypeId 2 then Some (Constant SNil) else if a = TypeId 3 then Some (Constant (SBool True))
      else if a = TypeId 4 then Some (Constant (SBool False)) else None)"
proof (cases "a \<in> {TypeId 0, TypeId 1, TypeId 2, TypeId 3, TypeId 4}")
  case True
  then show ?thesis by (auto simp: get_def interner_new_eq Let_def)
next
  case False
  have "\<not> unat (index a) < 5"
  proof
    assume "unat (index a) < 5"
    then have "unat (index a) \<in> {0, 1, 2, 3, 4}" by auto
    then have "index a \<in> {0, 1, 2, 3, 4}" by (auto simp: word_unat_eq_iff)
    with False show False by (cases a) auto
  qed
  with False show ?thesis by (simp add: get_def interner_new_eq Let_def)
qed

lemma interner_new_wf: "interner_wf interner_new"
proof -
  have "dedup_exact interner_new"
    unfolding dedup_exact_def get_interner_new by (auto simp: interner_new_eq)
  moreover have "children_before interner_new"
    by (auto simp: children_before_def interner_new_eq less_Suc_eq numeral_eq_Suc)
  moreover have "atomics_ok interner_new"
    unfolding atomics_ok_def get_interner_new by (simp add: interner_new_eq)
  ultimately show ?thesis by (simp add: interner_wf_def interner_new_eq)
qed

end
