(* ===== verification/Type_Tree.thy ===== *)
theory Type_Tree
  imports Interner
begin

text \<open>
  The abstract view of the interner: the finite tree a handle stands for. \<open>tree_of i a\<close>
  unfolds handle \<open>a\<close> in interner \<open>i\<close>. On a well-formed interner handles and trees
  correspond one to one, later interning never changes the tree of a handle, and the
  interner's \<open>cmp\<close> is a linear order of the trees alone: the canonical order of union members
  does not depend on the sequence in which carriers were interned. The interface the
  algebra relies on is the locale \<open>carrier_store\<close>.
\<close>

datatype tree = Node (root: "tree Type")

fun tree_fuel :: "nat \<Rightarrow> Interner \<Rightarrow> TypeId \<Rightarrow> tree" where
  "tree_fuel 0 i a = Node Bottom"
| "tree_fuel (Suc n) i a =
     (case get i a of None \<Rightarrow> Node Bottom | Some t \<Rightarrow> Node (map_Type (tree_fuel n i) t))"

definition tree_of :: "Interner \<Rightarrow> TypeId \<Rightarrow> tree" where
  "tree_of i a = tree_fuel (Suc (length (arena i))) i a"

section \<open>Unfolding a handle\<close>

lemma tree_fuel_enough:
  assumes "interner_wf i"
  shows "unat (index a) < n \<Longrightarrow> unat (index a) < m \<Longrightarrow> tree_fuel n i a = tree_fuel m i a"
proof (induction n arbitrary: m a)
  case (Suc n)
  then obtain m' where m: "m = Suc m'" by (cases m) auto
  show ?case
  proof (cases "get i a")
    case (Some t)
    have "tree_fuel n i c = tree_fuel m' i c" if "c \<in> set_Type t" for c
      using child_before[OF assms Some that] Suc.prems m by (intro Suc.IH) simp_all
    with Some show ?thesis by (auto simp: m intro: Type.map_cong)
  qed (simp add: m)
qed simp

lemma tree_of_get:
  assumes wf: "interner_wf i" and g: "get i a = Some t"
  shows "tree_of i a = Node (map_Type (tree_of i) t)"
proof -
  have "tree_fuel (length (arena i)) i c = tree_of i c" if "c \<in> set_Type t" for c
  proof -
    have "unat (index c) < length (arena i)"
      using child_valid[OF wf g that] by (simp add: valid_def)
    then show ?thesis unfolding tree_of_def by (intro tree_fuel_enough[OF wf]) simp_all
  qed
  with g show ?thesis unfolding tree_of_def[of i a] by (auto intro: Type.map_cong)
qed

lemma index_induct [consumes 1, case_names valid]:
  assumes "valid i a" and "\<And>a. valid i a \<Longrightarrow>
    (\<And>b. valid i b \<Longrightarrow> unat (index b) < unat (index a) \<Longrightarrow> P b) \<Longrightarrow> P a"
  shows "P a"
  using assms by (induction "unat (index a)" arbitrary: a rule: less_induct) blast

lemma tree_of_inj:
  assumes wf: "interner_wf i"
  shows "valid i a \<Longrightarrow> valid i b \<Longrightarrow> tree_of i a = tree_of i b \<Longrightarrow> a = b"
proof (induction a arbitrary: b rule: index_induct)
  case (valid a)
  obtain t u where t: "get i a = Some t" and u: "get i b = Some u"
    using valid.hyps valid.prems by (auto simp: valid_iff_get)
  have eq: "map_Type (tree_of i) t = map_Type (tree_of i) u"
    using valid.prems by (simp add: tree_of_get[OF wf t] tree_of_get[OF wf u])
  have "t = u"
  proof (rule Type.inj_map_strong[OF _ eq])
    fix x y assume "x \<in> set_Type t" "y \<in> set_Type u" "tree_of i x = tree_of i y"
    then show "x = y"
      using child_valid[OF wf t] child_valid[OF wf u] child_before[OF wf t] by (intro valid.IH)
  qed
  with t u show ?case using get_inj[OF wf] by simp
qed

lemma tree_of_extends:
  assumes wf: "interner_wf i" and wf': "interner_wf j" and ext: "extends i j"
  shows "valid i a \<Longrightarrow> tree_of j a = tree_of i a"
proof (induction a rule: index_induct)
  case (valid a)
  then obtain t where t: "get i a = Some t" by (auto simp: valid_iff_get)
  have "map_Type (tree_of j) t = map_Type (tree_of i) t"
    using child_valid[OF wf t] child_before[OF wf t] by (intro Type.map_cong refl valid.IH)
  then show ?case
    by (simp add: tree_of_get[OF wf t] tree_of_get[OF wf' extends_get[OF ext t]])
qed

section \<open>The interface of a hash-consing store\<close>

text \<open>
  What a client of the interner relies on: \<open>ins\<close> stores a carrier whose children are in the
  store, \<open>look\<close> reads it back, \<open>abs\<close> is the tree of a handle. \<open>later\<close> relates a store to any
  store reached from it. The laws make handles a faithful, stable name for trees.
\<close>

locale carrier_store =
  fixes inv :: "'s \<Rightarrow> bool"
    and free :: "'s \<Rightarrow> nat \<Rightarrow> bool"
    and later :: "'s \<Rightarrow> 's \<Rightarrow> bool"
    and holds :: "'s \<Rightarrow> 'h \<Rightarrow> bool"
    and look :: "'s \<Rightarrow> 'h \<Rightarrow> 'h Type option"
    and ins :: "'s \<Rightarrow> 'h Type \<Rightarrow> 'h \<times> 's"
    and abs :: "'s \<Rightarrow> 'h \<Rightarrow> tree"
  assumes ins_inv: "inv s \<Longrightarrow> free s 1 \<Longrightarrow> \<forall>c \<in> set_Type t. holds s c \<Longrightarrow> inv (snd (ins s t))"
    and ins_look: "inv s \<Longrightarrow> free s 1 \<Longrightarrow> look (snd (ins s t)) (fst (ins s t)) = Some t"
    and ins_later: "later s (snd (ins s t))"
    and ins_free: "free s (Suc n) \<Longrightarrow> free (snd (ins s t)) n"
    and free_less: "free s n \<Longrightarrow> m \<le> n \<Longrightarrow> free s m"
    and later_trans: "later s s' \<Longrightarrow> later s' s'' \<Longrightarrow> later s s''"
    and later_holds: "later s s' \<Longrightarrow> holds s h \<Longrightarrow> holds s' h"
    and look_holds: "holds s h \<longleftrightarrow> (\<exists>t. look s h = Some t)"
    and look_children: "inv s \<Longrightarrow> look s h = Some t \<Longrightarrow> c \<in> set_Type t \<Longrightarrow> holds s c"
    and abs_look: "inv s \<Longrightarrow> look s h = Some t \<Longrightarrow> abs s h = Node (map_Type (abs s) t)"
    and abs_later: "inv s \<Longrightarrow> inv s' \<Longrightarrow> later s s' \<Longrightarrow> holds s h \<Longrightarrow> abs s' h = abs s h"
    and abs_inj: "inv s \<Longrightarrow> holds s h \<Longrightarrow> holds s k \<Longrightarrow> abs s h = abs s k \<Longrightarrow> h = k"
begin

lemma ins_abs:
  assumes "inv s" "free s 1" "\<forall>c \<in> set_Type t. holds s c"
  shows "abs (snd (ins s t)) (fst (ins s t)) = Node (map_Type (abs s) t)"
proof -
  have "inv (snd (ins s t))" using assms by (rule ins_inv)
  moreover from this have "abs (snd (ins s t)) c = abs s c" if "c \<in> set_Type t" for c
    using assms that ins_later by (blast intro: abs_later)
  ultimately show ?thesis
    using abs_look[OF _ ins_look] assms by (simp cong: Type.map_cong)
qed

lemma ins_holds: "inv s \<Longrightarrow> free s 1 \<Longrightarrow> holds (snd (ins s t)) (fst (ins s t))"
  using ins_look look_holds by blast

text \<open>Handles are equal exactly when their trees are.\<close>

lemma handle_eq_iff: "inv s \<Longrightarrow> holds s h \<Longrightarrow> holds s k \<Longrightarrow> h = k \<longleftrightarrow> abs s h = abs s k"
  using abs_inj by blast

text \<open>Interning the same carrier again, at any later time, gives the same handle.\<close>

lemma ins_again:
  assumes "inv s" "free s 1" "\<forall>c \<in> set_Type t. holds s c"
    and later: "later (snd (ins s t)) s'" and inv': "inv s'" and free': "free s' 1"
  shows "fst (ins s' t) = fst (ins s t)"
proof -
  let ?s1 = "snd (ins s t)" and ?s2 = "snd (ins s' t)"
  have inv1: "inv ?s1" using assms(1-3) by (rule ins_inv)
  have ls': "later s s'" using later ins_later later_trans by blast
  have kids': "\<forall>c \<in> set_Type t. holds s' c" using ls' assms(3) later_holds by blast
  have inv2: "inv ?s2" using inv' free' kids' by (rule ins_inv)
  have l2: "later ?s1 ?s2" using later ins_later later_trans by blast
  have h1: "holds ?s1 (fst (ins s t))" using assms(1,2) by (rule ins_holds)
  have "abs ?s2 (fst (ins s' t)) = Node (map_Type (abs s') t)"
    using inv' free' kids' by (rule ins_abs)
  also have "map_Type (abs s') t = map_Type (abs s) t"
    using assms(1,3) inv' ls' abs_later by (intro Type.map_cong) auto
  also have "Node \<dots> = abs ?s2 (fst (ins s t))"
    using ins_abs[OF assms(1-3)] abs_later[OF inv1 inv2 l2 h1] by simp
  finally show ?thesis
    using abs_inj[OF inv2 ins_holds[OF inv' free'] later_holds[OF l2 h1]] by blast
qed

end

interpretation store: carrier_store interner_wf room extends valid get intern tree_of
proof unfold_locales
  fix s :: Interner and t assume "interner_wf s" "room s 1" "\<forall>c \<in> set_Type t. valid s c"
  then show "interner_wf (snd (intern s t))" by (intro intern_wf) (simp_all add: valid_type_def)
qed (auto intro: get_intern intern_extends intern_room room_mono extends_trans extends_valid
  valid_iff_get[THEN iffD1] get_Some_valid child_valid tree_of_get tree_of_extends tree_of_inj)


lemma root_tree_of: "interner_wf i \<Longrightarrow> get i a = Some t \<Longrightarrow> root (tree_of i a) = map_Type (tree_of i) t"
  by (simp add: tree_of_get)

lemma map_Type_atoms [simp]:
  "map_Type f t = Top \<longleftrightarrow> t = Top" "map_Type f t = Bottom \<longleftrightarrow> t = Bottom"
  by (cases t; simp)+

lemma set_as_union: "as_union t = Some ms \<Longrightarrow> m \<in> set ms \<Longrightarrow> m \<in> set_Type t"
  by (cases t) auto

lemma set_as_intersection: "as_intersection t = Some ms \<Longrightarrow> m \<in> set ms \<Longrightarrow> m \<in> set_Type t"
  by (cases t) auto

lemma set_as_dynamic: "as_dynamic_type t = Some f \<Longrightarrow> f \<in> set_Type t"
  by (cases t) auto

end
