(* ===== verification/Type_Order.thy ===== *)
theory Type_Order
  imports Type_Tree
begin

text \<open>
  The interner's order as an order of trees. Every tree has a prefix-free code, a list of
  tokens that spells its tag and fields in the sequence in which \<open>Interner::cmp\<close> compares
  them; comparing two handles is comparing the codes of their trees lexicographically. So the
  order is total, separates distinct carriers, and does not mention handles.
\<close>

type_synonym token = "nat \<times> int \<times> string"

fun code_list :: "token list list \<Rightarrow> token list" where
  "code_list [] = [(0, 0, '''')]"
| "code_list (x # xs) = (1, 0, '''') # x @ code_list xs"

definition code_member :: "token list ShapeMember \<Rightarrow> token list" where
  "code_member m = shape_key_ord (key m) # (of_bool (optional m), 0, '''') # mvalue m"

definition code_field :: "string \<times> token list \<Rightarrow> token list" where
  "code_field f = (0, 0, fst f) # snd f"

fun code_body :: "token list Type \<Rightarrow> token list" where
  "code_body (Constant x) = [scalar_key x]"
| "code_body (IntegerRange a b) =
     [(fst (opt_i64_key a), snd (opt_i64_key a), ''''), (fst (opt_i64_key b), snd (opt_i64_key b), '''')]"
| "code_body (Nominal c xs) = (0, uint (class_no c), '''') # code_list xs"
| "code_body (Singleton c) = [(0, uint (class_no c), '''')]"
| "code_body (Tuple xs) = code_list xs"
| "code_body (HashShape ms) = (length ms, 0, '''') # concat (map code_member ms)"
| "code_body (DataInstance c fs) =
     (0, uint (class_no c), '''') # (length fs, 0, '''') # concat (map code_field fs)"
| "code_body (Refined x r) = x @ [(0, uint (refinement_no r), '''')]"
| "code_body (App u xs) = (0, 0, uri_text u) # code_list xs"
| "code_body (Intersection xs) = code_list xs"
| "code_body (Difference x y) = x @ y"
| "code_body (Complement x) = x"
| "code_body (Dynamic x) = x"
| "code_body (Union xs) = code_list xs"
| "code_body _ = []"

definition code_type :: "token list Type \<Rightarrow> token list" where
  "code_type t = (tag t, 0, '''') # code_body t"

primrec code :: "tree \<Rightarrow> token list" where
  "code (Node t) = code_type (map_Type code t)"

definition tree_cmp :: "tree \<Rightarrow> tree \<Rightarrow> Ordering" where
  "tree_cmp a b = cmp_of (code a) (code b)"

lemma tag_map [simp]: "tag (map_Type f t) = tag t"
  by (cases t) simp_all

section \<open>Unique decoding\<close>

text \<open>\<open>decodes e x y\<close>: reading the codes of \<open>x\<close> and \<open>y\<close> off two streams, the streams agree
  only if the values and the rests do.\<close>

definition decodes :: "('a \<Rightarrow> token list) \<Rightarrow> 'a \<Rightarrow> 'a \<Rightarrow> bool" where
  "decodes e x y \<longleftrightarrow> (\<forall>r s. e x @ r = e y @ s \<longleftrightarrow> x = y \<and> r = s)"

lemma decodesD: "decodes e x y \<Longrightarrow> e x @ r = e y @ s \<longleftrightarrow> x = y \<and> r = s"
  by (simp add: decodes_def)

lemma decodes_list:
  assumes "\<forall>x \<in> set xs. \<forall>y \<in> set ys. decodes e x y"
  shows "code_list (map e xs) @ r = code_list (map e ys) @ s \<longleftrightarrow> xs = ys \<and> r = s"
  using assms
proof (induction xs arbitrary: ys)
  case Nil
  then show ?case by (cases ys) auto
next
  case (Cons x xs)
  then show ?case by (cases ys) (auto simp: decodesD)
qed

lemma decodes_concat:
  assumes "\<forall>x \<in> set xs. \<forall>y \<in> set ys. decodes e x y" and "length xs = length ys"
  shows "concat (map e xs) @ r = concat (map e ys) @ s \<longleftrightarrow> xs = ys \<and> r = s"
  using assms(2,1) by (induction xs ys rule: list_induct2) (auto simp: decodesD)

lemma decodes_member:
  "decodes e (mvalue m) (mvalue n) \<Longrightarrow> decodes (\<lambda>m. code_member (map_ShapeMember e m)) m n"
  by (cases m; cases n)
     (auto simp: decodes_def code_member_def inj_eq[OF inj_shape_key_ord] split: if_splits)

lemma decodes_field:
  "decodes e (snd f) (snd g) \<Longrightarrow> decodes (\<lambda>f. code_field (map_prod id e f)) f g"
  by (cases f; cases g) (auto simp: decodes_def code_field_def)

lemma decodes_members:
  assumes "\<forall>m \<in> set ms. \<forall>x \<in> set_ShapeMember m. \<forall>n \<in> set ns. \<forall>y \<in> set_ShapeMember n. decodes e x y"
  shows "length ms = length ns \<and> concat (map (code_member \<circ> map_ShapeMember e) ms) @ r =
         concat (map (code_member \<circ> map_ShapeMember e) ns) @ s \<longleftrightarrow> ms = ns \<and> r = s"
proof -
  have "\<forall>m \<in> set ms. \<forall>n \<in> set ns. decodes (code_member \<circ> map_ShapeMember e) m n"
    using assms by (auto intro!: decodes_member simp: ShapeMember.set_sel comp_def)
  from decodes_concat[OF this] show ?thesis by auto
qed

lemma decodes_fields:
  assumes "\<forall>f \<in> set fs. \<forall>x \<in> Basic_BNFs.snds f. \<forall>g \<in> set gs. \<forall>y \<in> Basic_BNFs.snds g. decodes e x y"
  shows "length fs = length gs \<and> concat (map (code_field \<circ> map_prod id e) fs) @ r =
         concat (map (code_field \<circ> map_prod id e) gs) @ s \<longleftrightarrow> fs = gs \<and> r = s"
proof -
  have "\<forall>f \<in> set fs. \<forall>g \<in> set gs. decodes (code_field \<circ> map_prod id e) f g"
  proof (intro ballI)
    fix f g assume "f \<in> set fs" "g \<in> set gs"
    moreover have "snd f \<in> Basic_BNFs.snds f" "snd g \<in> Basic_BNFs.snds g"
      by (rule snds.intros)+
    ultimately show "decodes (code_field \<circ> map_prod id e) f g"
      using assms by (simp add: decodes_field comp_def)
  qed
  from decodes_concat[OF this] show ?thesis by auto
qed

lemma opt_i64_key_conj:
  "fst (opt_i64_key a) = fst (opt_i64_key b) \<and> snd (opt_i64_key a) = snd (opt_i64_key b) \<and> P \<longleftrightarrow>
   a = b \<and> P"
  using inj_eq[OF inj_opt_i64_key, of a b] by (auto simp: prod_eq_iff)

lemma decodes_body:
  assumes "\<forall>x \<in> set_Type t. \<forall>y \<in> set_Type u. decodes e x y" and "tag t = tag u"
  shows "code_body (map_Type e t) @ r = code_body (map_Type e u) @ s \<longleftrightarrow> t = u \<and> r = s"
  using assms
  by (cases t; cases u)
     (simp_all add: decodes_list decodes_members decodes_fields decodesD inj_eq[OF inj_scalar_key]
       opt_i64_key_conj)

lemma decodes_code: "decodes code a b"
proof (induction a arbitrary: b)
  case (Node t)
  obtain u where b: "b = Node u" by (cases b)
  have "code_body (map_Type code t) @ r = code_body (map_Type code u) @ s \<longleftrightarrow> t = u \<and> r = s"
    if "tag t = tag u" for r s
    using Node that by (intro decodes_body) auto
  then show ?case
    unfolding b decodes_def by (auto simp: code_type_def)
qed

lemma inj_code: "inj code"
  using decodes_code[unfolded decodes_def, THEN spec, THEN spec, of _ "[]" _ "[]"]
  by (auto intro!: injI)

interpretation tree_order: comparator tree_cmp
  by (rule comparator_key[OF tree_cmp_def inj_code])

section \<open>Comparing codes\<close>

text \<open>Codes that decode uniquely are compared before what follows them.\<close>

lemma cmp_of_append:
  "\<nexists>s. x = y @ s \<Longrightarrow> \<nexists>s. y = x @ s \<Longrightarrow> cmp_of (x @ r) (y @ s) = cmp_of x y"
proof (induction x arbitrary: y)
  case (Cons a x)
  then obtain b z where y: "y = b # z" by (cases y) auto
  show ?case
  proof (cases "a = b")
    case True
    with Cons.prems y have "cmp_of (x @ r) (z @ s) = cmp_of x z" by (intro Cons.IH) auto
    with y True show ?thesis by (simp add: cmp_of_Cons)
  next
    case False
    then have "cmp_of a b \<noteq> Equal" by simp
    with y show ?thesis by (cases "cmp_of a b") (simp_all add: cmp_of_Cons)
  qed
qed simp

lemma cmp_of_decodes:
  assumes "decodes e x y"
  shows "cmp_of (e x @ r) (e y @ s) = ord_then (cmp_of (e x) (e y)) (cmp_of r s)"
proof (cases "x = y")
  case True
  then show ?thesis by (simp add: cmp_of_prefix)
next
  case False
  then have "e x @ r \<noteq> e y @ s" for r s using decodesD[OF assms] by blast
  from this[of "[]"] this[of _ "[]"] this[of "[]" "[]"]
  have "\<nexists>s. e x = e y @ s" and "\<nexists>s. e y = e x @ s" and "cmp_of (e x) (e y) \<noteq> Equal"
    by (auto simp del: append_Nil2) (metis append_Nil2)+
  then show ?thesis by (cases "cmp_of (e x) (e y)") (simp_all add: cmp_of_append)
qed


lemma cmp_slice_code:
  assumes "\<forall>x \<in> set xs. \<forall>y \<in> set ys. cm x y = Some (cmp_of (e x) (e y)) \<and> decodes e x y"
  shows "cmp_slice_m cm xs ys = Some (cmp_of (code_list (map e xs)) (code_list (map e ys)))"
  using assms
proof (induction xs arbitrary: ys)
  case Nil
  then show ?case by (cases ys) (auto simp: cmp_slice_m_def cmp_of_def)
next
  case (Cons x xs)
  show ?case
  proof (cases ys)
    case Nil
    then show ?thesis by (auto simp: cmp_slice_m_def cmp_of_def)
  next
    case (Cons y zs)
    with Cons.prems have "cm x y = Some (cmp_of (e x) (e y))" "decodes e x y"
      "cmp_slice_m cm xs zs = Some (cmp_of (code_list (map e xs)) (code_list (map e zs)))"
      by (auto intro: Cons.IH)
    then show ?thesis
      unfolding Cons
      by (cases "cmp_of (e x) (e y)")
         (auto simp: cmp_slice_m_def cmp_of_Cons cmp_of_decodes cmp_of_prefix split: Option.bind_splits)
  qed
qed

lemma lex_zip_code:
  assumes "length xs = length ys"
    and "\<forall>x \<in> set xs. \<forall>y \<in> set ys. cm x y = Some (cmp_of (e x) (e y)) \<and> decodes e x y"
  shows "lex_zip_m cm xs ys = Some (cmp_of (concat (map e xs)) (concat (map e ys)))"
  using assms
proof (induction xs ys rule: list_induct2)
  case (Cons x xs y ys)
  then have "cm x y = Some (cmp_of (e x) (e y))" "decodes e x y"
    "lex_zip_m cm xs ys = Some (cmp_of (concat (map e xs)) (concat (map e ys)))"
    by auto
  then show ?case by (cases "cmp_of (e x) (e y)") (auto simp: cmp_of_decodes cmp_of_prefix)
qed simp

lemma cmp_member_code:
  assumes "cm (mvalue m) (mvalue n) = Some (cmp_of (e (mvalue m)) (e (mvalue n)))"
  shows "cmp_member_m cm m n =
    Some (cmp_of ((code_member \<circ> map_ShapeMember e) m) ((code_member \<circ> map_ShapeMember e) n))"
  using assms
  by (cases m; cases n)
     (auto simp: cmp_member_m_def code_member_def cmp_of_Cons shape_key_cmp_def Let_def
       cmp_of_Pair cmp_of_def)

lemma cmp_field_code:
  assumes "cm (snd f) (snd g) = Some (cmp_of (e (snd f)) (e (snd g)))"
  shows "cmp_field_m cm f g =
    Some (cmp_of ((code_field \<circ> map_prod id e) f) ((code_field \<circ> map_prod id e) g))"
  using assms
  by (cases f; cases g) (auto simp: cmp_field_m_def code_field_def cmp_of_Cons Let_def cmp_of_Pair cmp_of_def)


lemma lex_members_code:
  assumes "length ms = length ns"
    and "\<forall>m \<in> set ms. \<forall>x \<in> set_ShapeMember m. \<forall>n \<in> set ns. \<forall>y \<in> set_ShapeMember n.
           cm x y = Some (cmp_of (e x) (e y)) \<and> decodes e x y"
  shows "lex_zip_m (cmp_member_m cm) ms ns =
    Some (cmp_of (concat (map (code_member \<circ> map_ShapeMember e) ms))
                 (concat (map (code_member \<circ> map_ShapeMember e) ns)))"
proof (rule lex_zip_code[OF assms(1)], intro ballI conjI)
  fix m n assume "m \<in> set ms" "n \<in> set ns"
  with assms(2) have c: "cm (mvalue m) (mvalue n) = Some (cmp_of (e (mvalue m)) (e (mvalue n)))"
    and d: "decodes e (mvalue m) (mvalue n)"
    by (auto simp: ShapeMember.set_sel)
  show "cmp_member_m cm m n =
      Some (cmp_of ((code_member \<circ> map_ShapeMember e) m) ((code_member \<circ> map_ShapeMember e) n))"
    and "decodes (code_member \<circ> map_ShapeMember e) m n"
    using cmp_member_code[of cm m n e, OF c] decodes_member[OF d] by (simp_all add: comp_def)
qed

lemma lex_fields_code:
  assumes "length fs = length gs"
    and "\<forall>f \<in> set fs. \<forall>x \<in> Basic_BNFs.snds f. \<forall>g \<in> set gs. \<forall>y \<in> Basic_BNFs.snds g.
           cm x y = Some (cmp_of (e x) (e y)) \<and> decodes e x y"
  shows "lex_zip_m (cmp_field_m cm) fs gs =
    Some (cmp_of (concat (map (code_field \<circ> map_prod id e) fs))
                 (concat (map (code_field \<circ> map_prod id e) gs)))"
proof (rule lex_zip_code[OF assms(1)], intro ballI conjI)
  fix f g assume "f \<in> set fs" "g \<in> set gs"
  with assms(2) snds.intros[of f] snds.intros[of g]
  have c: "cm (snd f) (snd g) = Some (cmp_of (e (snd f)) (e (snd g)))"
    and d: "decodes e (snd f) (snd g)"
    by blast+
  show "cmp_field_m cm f g =
      Some (cmp_of ((code_field \<circ> map_prod id e) f) ((code_field \<circ> map_prod id e) g))"
    and "decodes (code_field \<circ> map_prod id e) f g"
    using cmp_field_code[of cm f g e, OF c] decodes_field[OF d] by (simp_all add: comp_def)
qed

lemma opt_i64_cmp_code:
  "opt_i64_cmp a b = ord_then (cmp_of (fst (opt_i64_key a)) (fst (opt_i64_key b)))
                              (cmp_of (snd (opt_i64_key a)) (snd (opt_i64_key b)))"
  by (metis cmp_of_Pair opt_i64_cmp_def prod.collapse)

lemma cmp_type_code:
  assumes "\<forall>x \<in> set_Type t. \<forall>y \<in> set_Type u. cm x y = Some (cmp_of (e x) (e y)) \<and> decodes e x y"
  shows "cmp_type_m cm t u = Some (cmp_of (code_type (map_Type e t)) (code_type (map_Type e u)))"
proof (cases "tag t = tag u")
  case False
  then show ?thesis
    by (simp add: cmp_type_m_def code_type_def cmp_of_Cons cmp_of_Pair Let_def)
next
  case True
  then show ?thesis
    using assms
    by (cases t; cases u)
       (simp_all add: cmp_type_m_def code_type_def cmp_of_Cons cmp_of_Pair cmp_slice_code Let_def
         lex_members_code lex_fields_code cmp_of_uint cmp_of_decodes scalar_cmp_key opt_i64_cmp_code
         ord_then_assoc)
qed


section \<open>The interner's comparison is the order of the trees\<close>

lemma cmp_fuel_tree:
  assumes wf: "interner_wf i"
  shows "valid i a \<Longrightarrow> valid i b \<Longrightarrow> unat (index a) < n \<Longrightarrow>
    cmp_fuel n i a b = Some (tree_cmp (tree_of i a) (tree_of i b))"
proof (induction n arbitrary: a b)
  case (Suc n)
  show ?case
  proof (cases "a = b")
    case True
    then show ?thesis by simp
  next
    case False
    obtain t u where t: "get i a = Some t" and u: "get i b = Some u"
      using Suc.prems by (auto simp: valid_iff_get)
    have "cmp_type_m (cmp_fuel n i) t u =
        Some (cmp_of (code_type (map_Type (code \<circ> tree_of i) t)) (code_type (map_Type (code \<circ> tree_of i) u)))"
    proof (rule cmp_type_code, intro ballI conjI)
      fix x y assume x: "x \<in> set_Type t" and y: "y \<in> set_Type u"
      have v: "valid i x" "valid i y" using child_valid[OF wf t x] child_valid[OF wf u y] by auto
      then show "cmp_fuel n i x y = Some (cmp_of ((code \<circ> tree_of i) x) ((code \<circ> tree_of i) y))"
        using Suc.IH[of x y] child_before[OF wf t x] Suc.prems(3) by (simp add: tree_cmp_def)
      show "decodes (code \<circ> tree_of i) x y"
        using decodes_code[of "tree_of i x" "tree_of i y"] tree_of_inj[OF wf v]
        by (auto simp: decodes_def)
    qed
    with False t u show ?thesis
      by (simp add: tree_cmp_def tree_of_get[OF wf] Type.map_comp)
  qed
qed simp

lemma cmp_tree:
  "interner_wf i \<Longrightarrow> valid i a \<Longrightarrow> valid i b \<Longrightarrow> cmp i a b = Some (tree_cmp (tree_of i a) (tree_of i b))"
  unfolding cmp_def by (rule cmp_fuel_tree) (simp_all add: valid_def)

end
