(* ===== verification/Certainty.thy ===== *)
theory Certainty
  imports Prelude
begin

text \<open>
  Trinary certainty and relational results, \<open>crates/rigor-types/src/certainty.rs\<close>. The three
  answers with the code's \<open>and\<close>, \<open>or\<close> and \<open>negate\<close> are Kleene's strong logic; the lemmas make
  the "\<open>Maybe\<close> is sticky" discipline exact for any number of combined answers.
\<close>

datatype Certainty = Yes | No | Maybe

fun certainty_and :: "Certainty \<Rightarrow> Certainty \<Rightarrow> Certainty" where
  "certainty_and No _ = No"
| "certainty_and _ No = No"
| "certainty_and Maybe _ = Maybe"
| "certainty_and _ Maybe = Maybe"
| "certainty_and Yes Yes = Yes"

fun certainty_or :: "Certainty \<Rightarrow> Certainty \<Rightarrow> Certainty" where
  "certainty_or Yes _ = Yes"
| "certainty_or _ Yes = Yes"
| "certainty_or Maybe _ = Maybe"
| "certainty_or _ Maybe = Maybe"
| "certainty_or No No = No"

fun certainty_negate :: "Certainty \<Rightarrow> Certainty" where
  "certainty_negate Yes = No"
| "certainty_negate No = Yes"
| "certainty_negate Maybe = Maybe"

definition is_proven :: "Certainty \<Rightarrow> bool" where
  "is_proven c \<longleftrightarrow> c = Yes"

datatype Evidence = Subtype | Consistency | BudgetCutoff | Unknown

record Relation =
  certainty :: Certainty
  evidence :: Evidence

definition relation_new :: "Certainty \<Rightarrow> Evidence \<Rightarrow> Relation" where
  "relation_new c e = \<lparr>certainty = c, evidence = e\<rparr>"

definition relation_yes :: "Evidence \<Rightarrow> Relation" where
  "relation_yes e = relation_new Yes e"

definition relation_no :: "Evidence \<Rightarrow> Relation" where
  "relation_no e = relation_new No e"

definition relation_maybe :: "Evidence \<Rightarrow> Relation" where
  "relation_maybe e = relation_new Maybe e"

definition relation_budget_cutoff :: Relation where
  "relation_budget_cutoff = relation_new Maybe BudgetCutoff"

lemmas relation_defs =
  relation_new_def relation_yes_def relation_no_def relation_maybe_def relation_budget_cutoff_def

lemma and_Yes [simp]: "certainty_and a b = Yes \<longleftrightarrow> a = Yes \<and> b = Yes"
  by (cases a; cases b) simp_all

lemma and_No [simp]: "certainty_and a b = No \<longleftrightarrow> a = No \<or> b = No"
  by (cases a; cases b) simp_all

lemma or_Yes [simp]: "certainty_or a b = Yes \<longleftrightarrow> a = Yes \<or> b = Yes"
  by (cases a; cases b) simp_all

lemma or_No [simp]: "certainty_or a b = No \<longleftrightarrow> a = No \<and> b = No"
  by (cases a; cases b) simp_all

lemma or_comm: "certainty_or a b = certainty_or b a"
  by (cases a; cases b) simp_all

lemma and_comm: "certainty_and a b = certainty_and b a"
  by (cases a; cases b) simp_all

lemma negate_and: "certainty_negate (certainty_and a b) = certainty_or (certainty_negate a) (certainty_negate b)"
  by (cases a; cases b) simp_all

lemma certainty_eqI: "(a = Yes \<longleftrightarrow> b = Yes) \<Longrightarrow> (a = No \<longleftrightarrow> b = No) \<Longrightarrow> a = b"
  by (cases a; cases b) simp_all

text \<open>The accumulating loops: \<open>acc = acc.and(x)\<close> and \<open>acc = acc.or(x)\<close> over any number of answers.\<close>

lemma fold_and_Yes [simp]: "foldl certainty_and a cs = Yes \<longleftrightarrow> a = Yes \<and> (\<forall>c \<in> set cs. c = Yes)"
  by (induction cs arbitrary: a) auto

lemma fold_and_No [simp]: "foldl certainty_and a cs = No \<longleftrightarrow> a = No \<or> No \<in> set cs"
  by (induction cs arbitrary: a) auto

lemma fold_or_Yes [simp]: "foldl certainty_or a cs = Yes \<longleftrightarrow> a = Yes \<or> Yes \<in> set cs"
  by (induction cs arbitrary: a) auto

lemma fold_or_No [simp]: "foldl certainty_or a cs = No \<longleftrightarrow> a = No \<and> (\<forall>c \<in> set cs. c = No)"
  by (induction cs arbitrary: a) auto

end
