(* ===== verification/Relations.thy ===== *)
theory Relations
  imports Type_Order Certainty
begin

text \<open>
  Subtyping and gradual consistency, \<open>crates/rigor-types/src/relations.rs\<close>. The code recurses
  through handles (fuel, as for \<open>cmp\<close>: \<open>None\<close> is a panic or an exhausted stack); the same two
  relations on trees are \<open>tree_subtype\<close> and \<open>tree_consistent\<close>, and on a well-formed interner
  the code computes them. \<open>values v\<close> reads a tree as a set of values, for any reading \<open>v\<close> of
  the carriers the relations do not look into: a proven answer is inclusion of those sets.
\<close>

section \<open>The code\<close>

definition facet :: "Interner \<Rightarrow> TypeId \<Rightarrow> TypeId option" where
  "facet i a = do { t \<leftarrow> get i a; Some (case as_dynamic_type t of Some f \<Rightarrow> f | None \<Rightarrow> a) }"

definition is_dynamic :: "Interner \<Rightarrow> TypeId \<Rightarrow> bool option" where
  "is_dynamic i a = do { t \<leftarrow> get i a; Some (as_dynamic_type t \<noteq> None) }"

fun subtype_fuel :: "nat \<Rightarrow> Interner \<Rightarrow> TypeId \<Rightarrow> TypeId \<Rightarrow> Relation option" where
  "subtype_fuel 0 i a b = None"
| "subtype_fuel (Suc n) i a b =
     (if a = b then Some (relation_yes Subtype)
      else do {
        ta \<leftarrow> get i a;
        if ta = Bottom then Some (relation_yes Subtype)
        else do {
          tb \<leftarrow> get i b;
          if tb = Top then Some (relation_yes Subtype)
          else do {
            a_facet \<leftarrow> facet i a;
            b_facet \<leftarrow> facet i b;
            if a_facet \<noteq> a \<or> b_facet \<noteq> b then subtype_fuel n i a_facet b_facet
            else (case as_union ta of
                Some members \<Rightarrow> do {
                  acc \<leftarrow> fold_m (\<lambda>m acc. do { r \<leftarrow> subtype_fuel n i m b;
                                         Some (certainty_and acc (certainty r)) }) members Yes;
                  Some (relation_new acc Subtype) }
              | None \<Rightarrow> (case as_union tb of
                    Some members \<Rightarrow> do {
                      acc \<leftarrow> fold_m (\<lambda>m acc. do { r \<leftarrow> subtype_fuel n i a m;
                                             Some (certainty_or acc (certainty r)) }) members No;
                      Some (relation_new acc Subtype) }
                  | None \<Rightarrow> Some (relation_maybe Subtype))) } } })"

definition subtype :: "Interner \<Rightarrow> TypeId \<Rightarrow> TypeId \<Rightarrow> Relation option" where
  "subtype i a b = subtype_fuel (Suc (2 * length (arena i))) i a b"

definition consistent :: "Interner \<Rightarrow> TypeId \<Rightarrow> TypeId \<Rightarrow> Relation option" where
  "consistent i a b = do {
     da \<leftarrow> is_dynamic i a;
     dyn \<leftarrow> (if da then Some True else is_dynamic i b);
     if dyn then Some (relation_yes Consistency)
     else if a = b then Some (relation_yes Consistency)
     else do {
       fwd \<leftarrow> subtype i a b;
       bwd \<leftarrow> subtype i b a;
       Some (relation_new (certainty_or (certainty fwd) (certainty bwd)) Consistency) } }"

section \<open>The relations on trees\<close>

definition tree_facet :: "tree \<Rightarrow> tree" where
  "tree_facet t = (case as_dynamic_type (root t) of Some f \<Rightarrow> f | None \<Rightarrow> t)"

lemma size_kid:
  assumes "x \<in> set_Type (root t)"
  shows "size x < size t"
proof -
  have member: "size x \<le> size_list (size_ShapeMember size) ms"
    if "m \<in> set ms" "x \<in> set_ShapeMember m" for m ms
  proof (rule size_list_estimation'[OF that(1)])
    show "size x \<le> size_ShapeMember size m" by (insert that(2), cases m, auto)
  qed
  have field: "size x \<le> size_list (size_prod (\<lambda>_. 0) size) fs" if "(n, x) \<in> set fs" for n :: string and fs
    using that by (auto intro!: size_list_estimation'[OF that])
  have arg: "size x \<le> size_list size xs" if "x \<in> set xs" for xs
    using that by (auto intro!: size_list_estimation'[OF that])
  have "x \<in> set_Type u \<Longrightarrow> size x \<le> size_Type size u" for u
    by (cases u) (auto intro: member arg le_SucI dest!: field elim!: snds.cases)
  with assms show ?thesis by (cases t) (auto simp: less_Suc_eq_le)
qed

lemma size_tree_facet: "tree_facet t \<noteq> t \<Longrightarrow> size (tree_facet t) < size t"
  by (auto simp: tree_facet_def size_kid split: option.splits)

lemma size_tree_facet_le: "size (tree_facet t) \<le> size t"
  using size_tree_facet[of t] by (cases "tree_facet t = t") auto

function tree_subtype :: "tree \<Rightarrow> tree \<Rightarrow> Certainty" where
  "tree_subtype a b =
     (if a = b then Yes
      else if root a = Bottom then Yes
      else if root b = Top then Yes
      else if tree_facet a \<noteq> a \<or> tree_facet b \<noteq> b then tree_subtype (tree_facet a) (tree_facet b)
      else case as_union (root a) of
          Some ms \<Rightarrow> foldl certainty_and Yes (map (\<lambda>m. tree_subtype m b) ms)
        | None \<Rightarrow> (case as_union (root b) of
              Some ms \<Rightarrow> foldl certainty_or No (map (\<lambda>m. tree_subtype a m) ms)
            | None \<Rightarrow> Maybe))"
  by pat_completeness auto
termination
proof (relation "measure (\<lambda>(a, b). size a + size b)", goal_cases)
  case (2 a b)
  then show ?case
    using size_tree_facet[of a] size_tree_facet[of b] size_tree_facet_le[of a] size_tree_facet_le[of b]
    by auto
qed (auto intro: size_kid)

declare tree_subtype.simps [simp del]

definition is_dynamic_tree :: "tree \<Rightarrow> bool" where
  "is_dynamic_tree t \<longleftrightarrow> as_dynamic_type (root t) \<noteq> None"

definition tree_consistent :: "tree \<Rightarrow> tree \<Rightarrow> Certainty" where
  "tree_consistent a b =
     (if is_dynamic_tree a \<or> is_dynamic_tree b \<or> a = b then Yes
      else certainty_or (tree_subtype a b) (tree_subtype b a))"


section \<open>The code computes the relations on trees\<close>

lemma facet_tree:
  assumes wf: "interner_wf i" and v: "valid i a"
  obtains f where "facet i a = Some f" "valid i f" "tree_of i f = tree_facet (tree_of i a)"
    "f \<noteq> a \<longleftrightarrow> tree_facet (tree_of i a) \<noteq> tree_of i a" "f = a \<or> unat (index f) < unat (index a)"
proof -
  obtain t where t: "get i a = Some t" using v by (auto simp: valid_iff_get)
  let ?f = "case as_dynamic_type t of Some f \<Rightarrow> f | None \<Rightarrow> a"
  have vf: "valid i ?f" and sf: "?f = a \<or> unat (index ?f) < unat (index a)"
    using v child_valid[OF wf t set_as_dynamic] child_before[OF wf t set_as_dynamic]
    by (auto split: option.splits)
  have tf: "tree_of i ?f = tree_facet (tree_of i a)"
    by (auto simp: tree_facet_def root_tree_of[OF wf t] split: option.splits)
  moreover have "?f \<noteq> a \<longleftrightarrow> tree_facet (tree_of i a) \<noteq> tree_of i a"
    using tree_of_inj[OF wf vf v] tf by metis
  ultimately show thesis using that[of ?f] t vf sf by (simp add: facet_def)
qed

lemma fold_m_answers:
  assumes "\<And>m. m \<in> set ms \<Longrightarrow> f m = Some (relation_new (g m) e)"
  shows "fold_m (\<lambda>m acc. do { r \<leftarrow> f m; Some (h acc (certainty r)) }) ms c = Some (foldl h c (map g ms))"
  using assms by (induction ms arbitrary: c) (auto simp: relation_new_def)

lemma subtype_fuel_tree:
  assumes wf: "interner_wf i"
  shows "valid i a \<Longrightarrow> valid i b \<Longrightarrow> unat (index a) + unat (index b) < n \<Longrightarrow>
    subtype_fuel n i a b = Some (relation_new (tree_subtype (tree_of i a) (tree_of i b)) Subtype)"
proof (induction n arbitrary: a b)
  case (Suc n)
  obtain ta tb where ta: "get i a = Some ta" and tb: "get i b = Some tb"
    using Suc.prems by (auto simp: valid_iff_get)
  note roots = root_tree_of[OF wf ta] root_tree_of[OF wf tb]
  obtain fa where fa: "facet i a = Some fa" "valid i fa" "tree_of i fa = tree_facet (tree_of i a)"
    "fa \<noteq> a \<longleftrightarrow> tree_facet (tree_of i a) \<noteq> tree_of i a" "fa = a \<or> unat (index fa) < unat (index a)"
    using facet_tree[OF wf Suc.prems(1)] .
  obtain fb where fb: "facet i b = Some fb" "valid i fb" "tree_of i fb = tree_facet (tree_of i b)"
    "fb \<noteq> b \<longleftrightarrow> tree_facet (tree_of i b) \<noteq> tree_of i b" "fb = b \<or> unat (index fb) < unat (index b)"
    using facet_tree[OF wf Suc.prems(2)] .
  show ?case
  proof (cases "a = b \<or> ta = Bottom \<or> tb = Top")
    case True
    then show ?thesis
      using ta tb by (auto simp: relation_yes_def roots tree_subtype.simps[of "tree_of i a"]
        tree_subtype.simps[of "tree_of i a" "tree_of i a"])
  next
    case False
    then have ne: "tree_of i a \<noteq> tree_of i b" using tree_of_inj[OF wf Suc.prems(1,2)] by auto
    note unfold = tree_subtype.simps[of "tree_of i a" "tree_of i b"]
    show ?thesis
    proof (cases "fa \<noteq> a \<or> fb \<noteq> b")
      case True
      then have "subtype_fuel n i fa fb =
          Some (relation_new (tree_subtype (tree_facet (tree_of i a)) (tree_facet (tree_of i b))) Subtype)"
        using Suc.prems fa fb by (subst Suc.IH) auto
      with False True ta tb fa fb ne show ?thesis by (simp add: unfold roots)
    next
      case nofacet: False
      have left: "subtype_fuel n i m b = Some (relation_new (tree_subtype (tree_of i m) (tree_of i b)) Subtype)"
        if "as_union ta = Some ms" "m \<in> set ms" for m ms
        using child_valid[OF wf ta] child_before[OF wf ta] set_as_union[OF that] Suc.prems
        by (intro Suc.IH) fastforce+
      have right: "subtype_fuel n i a m = Some (relation_new (tree_subtype (tree_of i a) (tree_of i m)) Subtype)"
        if "as_union tb = Some ms" "m \<in> set ms" for m ms
        using child_valid[OF wf tb] child_before[OF wf tb] set_as_union[OF that] Suc.prems
        by (intro Suc.IH) fastforce+
      have L: "fold_m (\<lambda>m acc. do { r \<leftarrow> subtype_fuel n i m b; Some (certainty_and acc (certainty r)) }) ms c
          = Some (foldl certainty_and c (map (\<lambda>m. tree_subtype (tree_of i m) (tree_of i b)) ms))"
        if "as_union ta = Some ms" for ms c
        by (rule fold_m_answers, rule left[OF that])
      have R: "fold_m (\<lambda>m acc. do { r \<leftarrow> subtype_fuel n i a m; Some (certainty_or acc (certainty r)) }) ms c
          = Some (foldl certainty_or c (map (\<lambda>m. tree_subtype (tree_of i a) (tree_of i m)) ms))"
        if "as_union tb = Some ms" for ms c
        by (rule fold_m_answers, rule right[OF that])
      show ?thesis
        using False nofacet ta tb fa fb ne
        by (auto simp: unfold roots relation_maybe_def comp_def L R simp del: as_union_Some split: option.splits)
    qed
  qed
qed simp

lemma subtype_tree:
  "interner_wf i \<Longrightarrow> valid i a \<Longrightarrow> valid i b \<Longrightarrow>
   subtype i a b = Some (relation_new (tree_subtype (tree_of i a) (tree_of i b)) Subtype)"
  unfolding subtype_def by (rule subtype_fuel_tree) (auto simp: valid_def)

lemma is_dynamic_get:
  assumes "interner_wf i" "valid i a"
  shows "is_dynamic i a = Some (is_dynamic_tree (tree_of i a))"
  using assms by (auto simp: valid_iff_get is_dynamic_def is_dynamic_tree_def root_tree_of
    simp del: as_dynamic_type_Some)

lemma consistent_tree:
  assumes "interner_wf i" "valid i a" "valid i b"
  shows "consistent i a b = Some (relation_new (tree_consistent (tree_of i a) (tree_of i b)) Consistency)"
  using assms tree_of_inj[OF assms]
  by (auto simp: consistent_def is_dynamic_get subtype_tree tree_consistent_def relation_defs)

end
