(* ===== verification/Algebra.thy ===== *)
theory Algebra
  imports Relations
begin

text \<open>
  The lattice operations of \<open>crates/rigor-types/src/algebra.rs\<close>: \<open>join\<close>, \<open>meet\<close>, \<open>difference\<close>
  and \<open>normalize\<close>. Each takes the interner and returns the resulting handle with the interner
  it leaves; \<open>None\<close> is a panic or an exhausted stack. Every operation has a counterpart on trees
  (\<open>tree_join\<close> and so on), and the refinement lemmas say that on a well-formed interner the
  code returns a handle of exactly that tree.
\<close>

section \<open>The code\<close>

definition is_bottom :: "Interner \<Rightarrow> TypeId \<Rightarrow> bool option" where
  "is_bottom i a = do { t \<leftarrow> get i a; Some (t = Bottom) }"

definition is_plain_top :: "Interner \<Rightarrow> TypeId \<Rightarrow> bool option" where
  "is_plain_top i a = do { t \<leftarrow> get i a; Some (t = Top) }"

definition as_dynamic :: "Interner \<Rightarrow> TypeId \<Rightarrow> TypeId option option" where
  "as_dynamic i a = do { t \<leftarrow> get i a; Some (as_dynamic_type t) }"

fun collect_union_fuel :: "nat \<Rightarrow> Interner \<Rightarrow> TypeId \<Rightarrow> TypeId list \<Rightarrow> TypeId list option" where
  "collect_union_fuel 0 i a out = None"
| "collect_union_fuel (Suc n) i a out = do {
     t \<leftarrow> get i a;
     if t = Bottom then Some out
     else case as_union t of
         Some ms \<Rightarrow> fold_m (collect_union_fuel n i) ms out
       | None \<Rightarrow> Some (out @ [a]) }"

definition collect_union_members :: "Interner \<Rightarrow> TypeId \<Rightarrow> TypeId list \<Rightarrow> TypeId list option" where
  "collect_union_members i a out = collect_union_fuel (Suc (length (arena i))) i a out"

fun collect_intersection_fuel :: "nat \<Rightarrow> Interner \<Rightarrow> TypeId \<Rightarrow> TypeId list \<Rightarrow> TypeId list option" where
  "collect_intersection_fuel 0 i a out = None"
| "collect_intersection_fuel (Suc n) i a out = do {
     t \<leftarrow> get i a;
     if t = Top then Some out
     else case as_intersection t of
         Some ms \<Rightarrow> fold_m (collect_intersection_fuel n i) ms out
       | None \<Rightarrow> Some (out @ [a]) }"

definition collect_intersection_members :: "Interner \<Rightarrow> TypeId \<Rightarrow> TypeId list \<Rightarrow> TypeId list option" where
  "collect_intersection_members i a out = collect_intersection_fuel (Suc (length (arena i))) i a out"

definition make_union :: "Interner \<Rightarrow> TypeId list \<Rightarrow> (TypeId \<times> Interner) option" where
  "make_union i members = do {
     tops \<leftarrow> any_m (is_plain_top i) members;
     if tops then Some (top_id i, i)
     else do {
       sorted \<leftarrow> sort_by_m (cmp i) members;
       Some (case remdups_adj sorted of
           [] \<Rightarrow> (bottom_id i, i)
         | [m] \<Rightarrow> (m, i)
         | ms \<Rightarrow> intern i (Union ms)) } }"

definition make_intersection :: "Interner \<Rightarrow> TypeId list \<Rightarrow> (TypeId \<times> Interner) option" where
  "make_intersection i members = do {
     bots \<leftarrow> any_m (is_bottom i) members;
     if bots then Some (bottom_id i, i)
     else do {
       sorted \<leftarrow> sort_by_m (cmp i) members;
       Some (case remdups_adj sorted of
           [] \<Rightarrow> (top_id i, i)
         | [m] \<Rightarrow> (m, i)
         | ms \<Rightarrow> intern i (Intersection ms)) } }"

fun join_fuel :: "nat \<Rightarrow> Interner \<Rightarrow> TypeId \<Rightarrow> TypeId \<Rightarrow> (TypeId \<times> Interner) option" where
  "join_fuel 0 i a b = None"
| "join_fuel (Suc n) i a b =
     (if a = b then Some (a, i)
      else do {
        abot \<leftarrow> is_bottom i a;
        if abot then Some (b, i)
        else do {
        bbot \<leftarrow> is_bottom i b;
        if bbot then Some (a, i)
        else do {
        atop \<leftarrow> is_plain_top i a;
        tops \<leftarrow> (if atop then Some True else is_plain_top i b);
        if tops then Some (top_id i, i)
        else do {
          da \<leftarrow> as_dynamic i a;
          db \<leftarrow> as_dynamic i b;
          (case (da, db) of
             (Some fa, Some fb) \<Rightarrow> do { (f, j) \<leftarrow> join_fuel n i fa fb; Some (intern j (Dynamic f)) }
           | (Some fa, None) \<Rightarrow> do { (f, j) \<leftarrow> join_fuel n i fa b; Some (intern j (Dynamic f)) }
           | (None, Some fb) \<Rightarrow> do { (f, j) \<leftarrow> join_fuel n i a fb; Some (intern j (Dynamic f)) }
           | (None, None) \<Rightarrow> do {
               members \<leftarrow> collect_union_members i a [];
               members \<leftarrow> collect_union_members i b members;
               make_union i members }) } } } })"

definition join :: "Interner \<Rightarrow> TypeId \<Rightarrow> TypeId \<Rightarrow> (TypeId \<times> Interner) option" where
  "join i a b = join_fuel (Suc (2 * length (arena i))) i a b"

fun meet_fuel :: "nat \<Rightarrow> Interner \<Rightarrow> TypeId \<Rightarrow> TypeId \<Rightarrow> (TypeId \<times> Interner) option" where
  "meet_fuel 0 i a b = None"
| "meet_fuel (Suc n) i a b =
     (if a = b then Some (a, i)
      else do {
        abot \<leftarrow> is_bottom i a;
        bots \<leftarrow> (if abot then Some True else is_bottom i b);
        if bots then Some (bottom_id i, i)
        else do {
        atop \<leftarrow> is_plain_top i a;
        if atop then Some (b, i)
        else do {
        btop \<leftarrow> is_plain_top i b;
        if btop then Some (a, i)
        else do {
          da \<leftarrow> as_dynamic i a;
          db \<leftarrow> as_dynamic i b;
          (case (da, db) of
             (Some fa, Some fb) \<Rightarrow> do { (f, j) \<leftarrow> meet_fuel n i fa fb; Some (intern j (Dynamic f)) }
           | (Some fa, None) \<Rightarrow> do { (f, j) \<leftarrow> meet_fuel n i fa b; Some (intern j (Dynamic f)) }
           | (None, Some fb) \<Rightarrow> do { (f, j) \<leftarrow> meet_fuel n i a fb; Some (intern j (Dynamic f)) }
           | (None, None) \<Rightarrow> do {
               members \<leftarrow> collect_intersection_members i a [];
               members \<leftarrow> collect_intersection_members i b members;
               make_intersection i members }) } } } })"

definition meet :: "Interner \<Rightarrow> TypeId \<Rightarrow> TypeId \<Rightarrow> (TypeId \<times> Interner) option" where
  "meet i a b = meet_fuel (Suc (2 * length (arena i))) i a b"

fun difference_fuel :: "nat \<Rightarrow> Interner \<Rightarrow> TypeId \<Rightarrow> TypeId \<Rightarrow> (TypeId \<times> Interner) option" where
  "difference_fuel 0 i a b = None"
| "difference_fuel (Suc n) i a b = do {
     abot \<leftarrow> is_bottom i a;
     if abot then Some (bottom_id i, i)
     else do {
     bbot \<leftarrow> is_bottom i b;
     if bbot then Some (a, i)
     else if a = b then Some (bottom_id i, i)
     else do {
       da \<leftarrow> as_dynamic i a;
       (case da of
          Some fa \<Rightarrow> do {
            db \<leftarrow> as_dynamic i b;
            (f, j) \<leftarrow> difference_fuel n i fa (case db of Some fb \<Rightarrow> fb | None \<Rightarrow> b);
            Some (intern j (Dynamic f)) }
        | None \<Rightarrow> Some (intern i (Difference a b))) } } }"

definition difference :: "Interner \<Rightarrow> TypeId \<Rightarrow> TypeId \<Rightarrow> (TypeId \<times> Interner) option" where
  "difference i a b = difference_fuel (Suc (length (arena i))) i a b"

fun normalize_fuel :: "nat \<Rightarrow> Interner \<Rightarrow> TypeId \<Rightarrow> (TypeId \<times> Interner) option" where
  "normalize_fuel 0 i a = None"
| "normalize_fuel (Suc n) i a = do {
     t \<leftarrow> get i a;
     (case as_union t of
        Some members \<Rightarrow> do {
          (flat, j) \<leftarrow> fold_m (\<lambda>m (flat, i). do {
              (x, i') \<leftarrow> normalize_fuel n i m;
              flat' \<leftarrow> collect_union_members i' x flat;
              Some (flat', i') }) members ([], i);
          make_union j flat }
      | None \<Rightarrow> (case as_intersection t of
        Some members \<Rightarrow> do {
          (flat, j) \<leftarrow> fold_m (\<lambda>m (flat, i). do {
              (x, i') \<leftarrow> normalize_fuel n i m;
              flat' \<leftarrow> collect_intersection_members i' x flat;
              Some (flat', i') }) members ([], i);
          make_intersection j flat }
      | None \<Rightarrow> (case as_dynamic_type t of
        Some f \<Rightarrow> do { (x, j) \<leftarrow> normalize_fuel n i f; Some (intern j (Dynamic x)) }
      | None \<Rightarrow> Some (a, i)))) }"

definition normalize :: "Interner \<Rightarrow> TypeId \<Rightarrow> (TypeId \<times> Interner) option" where
  "normalize i a = normalize_fuel (Suc (length (arena i))) i a"

text \<open>\<open>is_bool_pair\<close>: exactly the union of the two boolean constants.\<close>

definition is_bool_pair :: "Interner \<Rightarrow> TypeId \<Rightarrow> bool option" where
  "is_bool_pair i a = do {
     t \<leftarrow> get i a;
     (case as_union t of
        Some [m1, m2] \<Rightarrow> do {
          t1 \<leftarrow> get i m1;
          if t1 = Constant (SBool True) \<or> t1 = Constant (SBool False)
          then do {
            t2 \<leftarrow> get i m2;
            Some ((t1 = Constant (SBool True) \<and> t2 = Constant (SBool False))
                \<or> (t1 = Constant (SBool False) \<and> t2 = Constant (SBool True))) }
          else Some False }
      | _ \<Rightarrow> Some False) }"

end
