(* ===== verification/Display.thy ===== *)
theory Display
  imports Ruby_Text Algebra
begin

text \<open>
  Rendering a type, \<open>crates/rigor-types/src/display.rs\<close>: the analyzer's internal spelling
  \<open>describe\<close>, the user-facing \<open>describe_named\<close> and the RBS erasure \<open>erase_to_rbs_named\<close>. Each
  is one non-recursive layer (\<open>..._type\<close>, with \<open>look\<close> reading a handle and \<open>d\<close> rendering a
  child) closed under recursion through handles; \<open>resolve\<close> is the caller's table of class
  names. \<open>None\<close> is a panic or an exhausted stack. On a well-formed interner the recursion
  always ends, and a handle's rendering never changes when more types are interned.
\<close>

section \<open>The user-facing display\<close>

definition render_all :: "('a \<Rightarrow> string option) \<Rightarrow> 'a list \<Rightarrow> string list option" where
  "render_all d xs = those (map d xs)"

definition named_class :: "ClassId \<Rightarrow> (ClassId \<Rightarrow> string option) \<Rightarrow> string" where
  "named_class class resolve =
     (case resolve class of Some n \<Rightarrow> n | None \<Rightarrow> ''Class<'' @ show_u32 (class_no class) @ ''>'')"

text \<open>The members whose carrier satisfies a test, in order; \<open>ts\<close> are the carriers of \<open>members\<close>.\<close>

definition members_of_kind :: "('a Type \<Rightarrow> bool) \<Rightarrow> 'a Type list \<Rightarrow> 'a list \<Rightarrow> 'a list" where
  "members_of_kind p ts members = map snd (filter (\<lambda>(t, m). p t) (zip ts members))"

definition named_union ::
  "('a \<Rightarrow> 'a Type option) \<Rightarrow> ('a \<Rightarrow> string option) \<Rightarrow> 'a list \<Rightarrow> string option" where
  "named_union look d members = do {
     ts \<leftarrow> those (map look members);
     let is_nil = (\<lambda>t. t = Constant SNil);
         is_bool_lit = (\<lambda>t. t = Constant (SBool True) \<or> t = Constant (SBool False));
         has_true = Constant (SBool True) \<in> set ts;
         has_false = Constant (SBool False) \<in> set ts;
         bool_pair = (has_true \<and> has_false);
         has_nil = (\<exists>t \<in> set ts. is_nil t);
         significant = length (filter (\<lambda>t. \<not> is_nil t) ts);
         logical = int significant - of_bool bool_pair
     in if has_nil \<and> logical = 1 then
          (if bool_pair then Some (''bool'' @ ''?'')
           else case members_of_kind (\<lambda>t. \<not> is_nil t) ts members of
               m # _ \<Rightarrow> do { inner \<leftarrow> d m; Some (inner @ ''?'') }
             | [] \<Rightarrow> None)
        else if bool_pair then do {
          rest \<leftarrow> render_all d (members_of_kind (\<lambda>t. \<not> is_bool_lit t) ts members);
          Some (join_str '' | '' (''bool'' # sort rest)) }
        else do {
          rendered \<leftarrow> render_all d members;
          Some (join_str '' | '' (sort rendered)) } }"

definition describe_named_type ::
  "(ClassId \<Rightarrow> string option) \<Rightarrow> ('a \<Rightarrow> 'a Type option) \<Rightarrow> ('a \<Rightarrow> string option) \<Rightarrow> 'a Type \<Rightarrow> string option" where
  "describe_named_type resolve look d t = (case t of
     Top \<Rightarrow> Some ''top''
   | Bottom \<Rightarrow> Some ''bot''
   | Dynamic f \<Rightarrow> do { s \<leftarrow> d f; Some (''Dynamic['' @ s @ '']'') }
   | Nominal class args \<Rightarrow>
       (if args = [] then Some (named_class class resolve)
        else do { inner \<leftarrow> render_all d args;
                  Some (named_class class resolve @ ''['' @ join_str '', '' inner @ '']'') })
   | Singleton class \<Rightarrow> Some (''singleton('' @ named_class class resolve @ '')'')
   | Constant s \<Rightarrow> Some (scalar_inspect s)
   | Tuple elems \<Rightarrow>
       (if elems = [] then Some ''[]''
        else do { inner \<leftarrow> render_all d elems; Some (''['' @ join_str '', '' inner @ '']'') })
   | HashShape members \<Rightarrow>
       (if members = [] then Some ''{}''
        else do {
          inner \<leftarrow> render_all (\<lambda>m. do { v \<leftarrow> d (mvalue m);
            Some ((if optional m then ''?'' else '''') @ named_key_prefix (key m) @ '' '' @ v) }) members;
          Some (''{ '' @ join_str '', '' inner @ '' }'') })
   | IntegerRange lo hi \<Rightarrow> Some (named_integer_range lo hi)
   | Union members \<Rightarrow> named_union look d members
   | Difference base removed \<Rightarrow> do { b \<leftarrow> d base; r \<leftarrow> d removed; Some (b @ '' - '' @ r) }
   | Intersection members \<Rightarrow> do { ms \<leftarrow> render_all d members; Some (join_str '' & '' ms) }
   | Complement inner \<Rightarrow> do { s \<leftarrow> d inner; Some (''~'' @ s) }
   | Refined base _ \<Rightarrow> d base
   | App _ _ \<Rightarrow> Some ''App''
   | DataInstance class members \<Rightarrow> do {
       inner \<leftarrow> render_all (\<lambda>(name, ty). do { s \<leftarrow> d ty; Some (name @ '': '' @ s) }) members;
       Some (named_class class resolve @ ''('' @ join_str '', '' inner @ '')'') }
   | Void \<Rightarrow> Some ''void''
   | SelfType \<Rightarrow> Some ''self''
   | Instance \<Rightarrow> Some ''instance''
   | ClassType \<Rightarrow> Some ''class'')"

fun describe_named_fuel ::
  "nat \<Rightarrow> Interner \<Rightarrow> TypeId \<Rightarrow> (ClassId \<Rightarrow> string option) \<Rightarrow> string option" where
  "describe_named_fuel 0 i a resolve = None"
| "describe_named_fuel (Suc n) i a resolve = do {
     t \<leftarrow> get i a;
     describe_named_type resolve (get i) (\<lambda>b. describe_named_fuel n i b resolve) t }"

definition describe_named ::
  "Interner \<Rightarrow> TypeId \<Rightarrow> (ClassId \<Rightarrow> string option) \<Rightarrow> string option" where
  "describe_named i a resolve = describe_named_fuel (Suc (length (arena i))) i a resolve"

section \<open>The RBS erasure\<close>

text \<open>A union of erased members: \<open>untyped\<close> absorbs, the rest are joined without duplicates.\<close>

definition erased_union :: "string list \<Rightarrow> string" where
  "erased_union erased = (if ''untyped'' \<in> set erased then ''untyped'' else uniq_join erased)"

definition erase_union :: "('a \<Rightarrow> string option) \<Rightarrow> 'a list \<Rightarrow> string option" where
  "erase_union e members = do { erased \<leftarrow> render_all e members; Some (erased_union erased) }"

definition hash_erasure ::
  "('a \<Rightarrow> string option) \<Rightarrow> ('a \<Rightarrow> string option) \<Rightarrow> 'a ShapeMember list \<Rightarrow> string option" where
  "hash_erasure named e members = do {
     let key_type = uniq_join (sort (map (\<lambda>m. shape_key_class_name (key m)) members));
     let vals = map (\<lambda>m. mvalue m) members;
     names \<leftarrow> render_all named vals;
     val_erased \<leftarrow> render_all e (map snd (sort_key fst (zip names vals)));
     Some (''Hash['' @ key_type @ '', '' @ erased_union val_erased @ '']'') }"

definition is_sym_key :: "ShapeKey \<Rightarrow> bool" where
  "is_sym_key k = (case k of KSym _ \<Rightarrow> True | _ \<Rightarrow> False)"

definition erase_hash_shape ::
  "('a \<Rightarrow> string option) \<Rightarrow> ('a \<Rightarrow> string option) \<Rightarrow> 'a ShapeMember list \<Rightarrow> string option" where
  "erase_hash_shape named e members =
     (if members = [] then Some ''{}''
      else if \<not> list_all (\<lambda>m. is_sym_key (key m)) members then hash_erasure named e members
      else do {
        rendered \<leftarrow> render_all (\<lambda>m.
          (case key m of
             KSym name \<Rightarrow> do { v \<leftarrow> e (mvalue m);
               Some ((if optional m then ''?'' @ name else name) @ '': '' @ v) }
           | _ \<Rightarrow> None)) members;
        Some (''{ '' @ join_str '', '' rendered @ '' }'') })"

definition erase_type ::
  "(ClassId \<Rightarrow> string option) \<Rightarrow> ('a \<Rightarrow> string option) \<Rightarrow> ('a \<Rightarrow> string option) \<Rightarrow> 'a Type \<Rightarrow> string option" where
  "erase_type resolve named e t = (case t of
     Top \<Rightarrow> Some ''top''
   | Bottom \<Rightarrow> Some ''bot''
   | Dynamic _ \<Rightarrow> Some ''untyped''
   | Nominal class args \<Rightarrow>
       (if args = [] then Some (named_class class resolve)
        else do { inner \<leftarrow> render_all e args;
                  Some (named_class class resolve @ ''['' @ join_str '', '' inner @ '']'') })
   | Singleton class \<Rightarrow> Some (''singleton('' @ named_class class resolve @ '')'')
   | Constant s \<Rightarrow> Some (scalar_erase s)
   | Tuple elems \<Rightarrow>
       (if elems = [] then Some ''[]''
        else do { inner \<leftarrow> render_all e elems; Some (''['' @ join_str '', '' inner @ '']'') })
   | HashShape members \<Rightarrow> erase_hash_shape named e members
   | IntegerRange _ _ \<Rightarrow> Some ''Integer''
   | Union members \<Rightarrow> erase_union e members
   | Difference base _ \<Rightarrow> e base
   | Intersection members \<Rightarrow> (case members of m # _ \<Rightarrow> e m | [] \<Rightarrow> Some ''untyped'')
   | Refined base _ \<Rightarrow> e base
   | Complement _ \<Rightarrow> Some ''untyped''
   | App _ _ \<Rightarrow> Some ''untyped''
   | DataInstance class _ \<Rightarrow> Some (case resolve class of Some n \<Rightarrow> n | None \<Rightarrow> ''Data'')
   | Void \<Rightarrow> Some ''void''
   | SelfType \<Rightarrow> Some ''self''
   | Instance \<Rightarrow> Some ''instance''
   | ClassType \<Rightarrow> Some ''class'')"

fun erase_fuel ::
  "nat \<Rightarrow> Interner \<Rightarrow> TypeId \<Rightarrow> (ClassId \<Rightarrow> string option) \<Rightarrow> string option" where
  "erase_fuel 0 i a resolve = None"
| "erase_fuel (Suc n) i a resolve = do {
     t \<leftarrow> get i a;
     erase_type resolve (\<lambda>b. describe_named i b resolve) (\<lambda>b. erase_fuel n i b resolve) t }"

definition erase_to_rbs_named ::
  "Interner \<Rightarrow> TypeId \<Rightarrow> (ClassId \<Rightarrow> string option) \<Rightarrow> string option" where
  "erase_to_rbs_named i a resolve = erase_fuel (Suc (length (arena i))) i a resolve"

section \<open>The internal display\<close>

definition describe_type ::
  "('a Type \<Rightarrow> bool option) \<Rightarrow> ('a \<Rightarrow> string option) \<Rightarrow> 'a Type \<Rightarrow> string option" where
  "describe_type bool_pair d t = (case t of
     Top \<Rightarrow> Some ''top''
   | Bottom \<Rightarrow> Some ''bot''
   | Dynamic f \<Rightarrow> do { s \<leftarrow> d f; Some (''Dynamic['' @ s @ '']'') }
   | Nominal class args \<Rightarrow>
       (if args = [] then Some (''Class<'' @ show_u32 (class_no class) @ ''>'')
        else do { inner \<leftarrow> render_all d args;
                  Some (''Class<'' @ show_u32 (class_no class) @ ''>['' @ join_str '', '' inner @ '']'') })
   | Singleton class \<Rightarrow> Some (''singleton(Class<'' @ show_u32 (class_no class) @ ''>)'')
   | Constant s \<Rightarrow> Some (if s = SNil then ''nil'' else ''Constant['' @ scalar_text s @ '']'')
   | Tuple elems \<Rightarrow> do { inner \<leftarrow> render_all d elems; Some (''Tuple['' @ join_str '', '' inner @ '']'') }
   | HashShape members \<Rightarrow> do {
       inner \<leftarrow> render_all (\<lambda>m. do { v \<leftarrow> d (mvalue m);
         Some (shape_key_text (key m) @ (if optional m then ''?'' else '''') @ '' => '' @ v) }) members;
       Some (''{'' @ join_str '', '' inner @ ''}'') }
   | IntegerRange lo hi \<Rightarrow>
       Some (''('' @ (case lo of Some v \<Rightarrow> show_i64 v | None \<Rightarrow> '''') @ ''..'' @
             (case hi of Some v \<Rightarrow> show_i64 v | None \<Rightarrow> '''') @ '')'')
   | Refined base r \<Rightarrow> do { b \<leftarrow> d base; Some (b @ ''[refine #'' @ show_u32 (refinement_no r) @ '']'') }
   | Difference base removed \<Rightarrow> do { b \<leftarrow> d base; r \<leftarrow> d removed; Some (b @ '' - '' @ r) }
   | Intersection members \<Rightarrow> do { ms \<leftarrow> render_all d members; Some (join_str '' & '' ms) }
   | Complement inner \<Rightarrow> do { s \<leftarrow> d inner; Some (''~'' @ s) }
   | App uri args \<Rightarrow> do {
       inner \<leftarrow> render_all d args;
       Some (if inner = [] then ''App['' @ uri_text uri @ '']''
             else ''App['' @ uri_text uri @ '', '' @ join_str '', '' inner @ '']'') }
   | DataInstance class members \<Rightarrow> do {
       inner \<leftarrow> render_all (\<lambda>(name, ty). do { s \<leftarrow> d ty; Some (name @ '': '' @ s) }) members;
       Some (''Data<'' @ show_u32 (class_no class) @ ''>('' @ join_str '', '' inner @ '')'') }
   | Void \<Rightarrow> Some ''void''
   | SelfType \<Rightarrow> Some ''self''
   | Instance \<Rightarrow> Some ''instance''
   | ClassType \<Rightarrow> Some ''class''
   | Union members \<Rightarrow> do {
       pair \<leftarrow> bool_pair t;
       if pair then Some ''bool''
       else do { parts \<leftarrow> render_all d members; Some (join_str '' | '' (sort parts)) } })"

fun describe_fuel :: "nat \<Rightarrow> Interner \<Rightarrow> TypeId \<Rightarrow> string option" where
  "describe_fuel 0 i a = None"
| "describe_fuel (Suc n) i a = do {
     t \<leftarrow> get i a;
     describe_type (\<lambda>_. is_bool_pair i a) (describe_fuel n i) t }"

definition describe :: "Interner \<Rightarrow> TypeId \<Rightarrow> string option" where
  "describe i a = describe_fuel (Suc (length (arena i))) i a"

end
