(* ===== verification/Display_Laws.thy ===== *)
theory Display_Laws
  imports Display Tree_Algebra
begin

text \<open>
  Rendering is total and stable. The three renderings share one shape: a layer over the carrier
  a handle reads as, closed under recursion through handles with fuel. The locale
  \<open>handle_recursion\<close> states what a layer must satisfy and proves once that the fuel is enough,
  that the recursion returns, and that later interning never changes what it returns.
\<close>

section \<open>Recursion through handles\<close>

definition agrees :: "Interner \<Rightarrow> Interner \<Rightarrow> bool" where
  "agrees i j \<longleftrightarrow> interner_wf i \<and> interner_wf j \<and> extends i j"

lemma agrees_refl: "interner_wf i \<Longrightarrow> agrees i i"
  by (simp add: agrees_def)

lemma agrees_get: "agrees i j \<Longrightarrow> valid i a \<Longrightarrow> get j a = get i a"
  by (auto simp: agrees_def valid_iff_get extends_get)

locale handle_recursion =
  fixes fuel :: "nat \<Rightarrow> Interner \<Rightarrow> TypeId \<Rightarrow> 'r option"
    and layer :: "Interner \<Rightarrow> TypeId \<Rightarrow> (TypeId \<Rightarrow> 'r option) \<Rightarrow> Ty \<Rightarrow> 'r option"
  assumes fuel_zero: "fuel 0 i a = None"
    and fuel_Suc: "fuel (Suc n) i a = do { t \<leftarrow> get i a; layer i a (fuel n i) t }"
    and layer_agrees: "agrees i j \<Longrightarrow> get i a = Some t \<Longrightarrow> \<forall>c \<in> set_Type t. d c = e c \<Longrightarrow>
      layer i a d t = layer j a e t"
    and layer_total: "interner_wf i \<Longrightarrow> get i a = Some t \<Longrightarrow> \<forall>c \<in> set_Type t. \<exists>r. d c = Some r \<Longrightarrow>
      \<exists>r. layer i a d t = Some r"
begin

definition run :: "Interner \<Rightarrow> TypeId \<Rightarrow> 'r option" where
  "run i a = fuel (Suc (length (arena i))) i a"

lemma enough:
  assumes "agrees i j"
  shows "valid i a \<Longrightarrow> unat (index a) < n \<Longrightarrow> unat (index a) < m \<Longrightarrow> fuel n i a = fuel m j a"
proof (induction n arbitrary: m a)
  case (Suc n)
  then obtain m' t where m: "m = Suc m'" and t: "get i a = Some t"
    by (cases m) (auto simp: valid_iff_get)
  have wf: "interner_wf i" using assms by (simp add: agrees_def)
  have "fuel n i c = fuel m' j c" if "c \<in> set_Type t" for c
    using child_before[OF wf t that] child_valid[OF wf t that] Suc.prems m by (intro Suc.IH) simp_all
  then have "layer i a (fuel n i) t = layer j a (fuel m' j) t"
    using layer_agrees[OF assms t] by blast
  with t agrees_get[OF assms Suc.prems(1)] show ?case by (simp add: m fuel_Suc)
qed simp

lemma stable: "agrees i j \<Longrightarrow> valid i a \<Longrightarrow> run j a = run i a"
  unfolding run_def by (rule enough[symmetric]) (auto simp: valid_def agrees_def extends_def)

lemma unfold_layer:
  assumes wf: "interner_wf i" and t: "get i a = Some t"
  shows "run i a = layer i a (run i) t"
proof -
  have "fuel (length (arena i)) i c = run i c" if "c \<in> set_Type t" for c
    unfolding run_def using child_valid[OF wf t that]
    by (intro enough[OF agrees_refl[OF wf]]) (simp_all add: valid_def)
  then have "layer i a (fuel (length (arena i)) i) t = layer i a (run i) t"
    using layer_agrees[OF agrees_refl[OF wf] t] by blast
  with t show ?thesis unfolding run_def[of i a] by (simp add: fuel_Suc)
qed

lemma total: "interner_wf i \<Longrightarrow> valid i a \<Longrightarrow> \<exists>r. run i a = Some r"
proof -
  assume wf: "interner_wf i"
  show "valid i a \<Longrightarrow> \<exists>r. run i a = Some r"
  proof (induction a rule: index_induct)
    case (valid a)
    then obtain t where t: "get i a = Some t" by (auto simp: valid_iff_get)
    have "\<exists>r. run i c = Some r" if "c \<in> set_Type t" for c
      using child_valid[OF wf t that] child_before[OF wf t that] by (intro valid.IH)
    then show ?case using layer_total[OF wf t] unfold_layer[OF wf t] by simp
  qed
qed

end

section \<open>The layers\<close>

lemma render_all_cong: "(\<And>x. x \<in> set xs \<Longrightarrow> f x = g x) \<Longrightarrow> render_all f xs = render_all g xs"
  unfolding render_all_def by (metis list.map_cong0)

lemma render_all_Some:
  "render_all f xs = Some ys \<longleftrightarrow> length ys = length xs \<and> (\<forall>k < length xs. f (xs ! k) = Some (ys ! k))"
  by (induction xs arbitrary: ys)
     (auto simp: render_all_def nth_Cons less_Suc_eq_0_disj length_Suc_conv split: nat.splits option.splits)

lemma render_all_total: "(\<And>x. x \<in> set xs \<Longrightarrow> \<exists>y. f x = Some y) \<Longrightarrow> \<exists>ys. render_all f xs = Some ys"
  unfolding render_all_def by (induction xs) fastforce+

lemma those_map_Some: "(\<And>x. x \<in> set xs \<Longrightarrow> f x = Some (g x)) \<Longrightarrow> those (map f xs) = Some (map g xs)"
  by (induction xs) auto

lemma set_members_of_kind: "set (members_of_kind p ts ms) \<subseteq> set ms"
  by (auto simp: members_of_kind_def dest: set_zip_rightD)

lemma members_of_kind_exists:
  "length ts = length ms \<Longrightarrow> t \<in> set ts \<Longrightarrow> p t \<Longrightarrow> members_of_kind p ts ms \<noteq> []"
  by (fastforce simp: members_of_kind_def filter_empty_conv in_set_conv_nth set_zip)

lemma those_length: "those xs = Some ys \<Longrightarrow> length ys = length xs"
  by (induction xs arbitrary: ys) (auto split: option.splits)

lemma named_union_cong:
  assumes "\<forall>m \<in> set ms. look m = look' m \<and> d m = e m"
  shows "named_union look d ms = named_union look' e ms"
proof -
  have l: "map look ms = map look' ms" using assms by simp
  have r: "render_all d (members_of_kind p ts ms) = render_all e (members_of_kind p ts ms)" for p ts
    by (rule render_all_cong) (use assms set_members_of_kind[of p ts ms] in auto)
  have rs: "render_all d ms = render_all e ms" by (rule render_all_cong) (use assms in simp)
  have h: "(case members_of_kind p ts ms of [] \<Rightarrow> None | m # _ \<Rightarrow> do { inner \<leftarrow> d m; Some (inner @ ''?'') })
      = (case members_of_kind p ts ms of [] \<Rightarrow> None | m # _ \<Rightarrow> do { inner \<leftarrow> e m; Some (inner @ ''?'') })" for p ts
  proof (cases "members_of_kind p ts ms")
    case (Cons m xs)
    then have "m \<in> set ms" using set_members_of_kind[of p ts ms] by simp
    with assms Cons show ?thesis by simp
  qed simp
  show ?thesis unfolding named_union_def l r rs h Let_def ..
qed

lemma named_union_total:
  assumes "\<forall>m \<in> set ms. \<exists>t. look m = Some t" "\<forall>m \<in> set ms. \<exists>s. d m = Some s"
  shows "\<exists>s. named_union look d ms = Some s"
proof -
  obtain ts where ts: "those (map look ms) = Some ts"
    using those_map_Some[of ms look "\<lambda>m. the (look m)"] assms(1) by fastforce
  have len: "length ts = length ms" using those_length[OF ts] by simp
  have r: "\<exists>ys. render_all d (members_of_kind p ts ms) = Some ys" "\<exists>ys. render_all d ms = Some ys" for p
    using assms(2) set_members_of_kind[of p ts ms] by (auto intro!: render_all_total)
  have h: "\<exists>s. (case members_of_kind p ts ms of [] \<Rightarrow> None | m # _ \<Rightarrow> do { inner \<leftarrow> d m; Some (inner @ ''?'') }) = Some s"
    if "\<exists>t \<in> set ts. p t" for p
    using that members_of_kind_exists[OF len, of _ p] set_members_of_kind[of p ts ms] assms(2)
    by (cases "members_of_kind p ts ms") fastforce+
  have sig: "\<exists>t \<in> set ts. t \<noteq> Constant SNil" if "length (filter (\<lambda>t. t \<noteq> Constant SNil) ts) = Suc 0"
    using that by (auto simp: length_Suc_conv filter_eq_Cons_iff)
  obtain f where f: "\<And>p. render_all d (members_of_kind p ts ms) = Some (f p)" using r(1) by metis
  show ?thesis
    using r(2) h[OF sig] unfolding named_union_def Let_def ts by (auto simp: f)
qed


lemma value_kid [simp]: "mvalue m \<in> set_ShapeMember m"
  by (cases m) simp

lemma field_kid [simp]: "snd f \<in> Basic_BNFs.snds f"
  by (simp add: prod_set_defs)

lemma describe_named_type_cong:
  "\<forall>c \<in> set_Type t. look c = look' c \<and> d c = e c \<Longrightarrow>
   describe_named_type resolve look d t = describe_named_type resolve look' e t"
  by (cases t)
     (auto simp: describe_named_type_def case_prod_unfold intro!: named_union_cong cong: render_all_cong)

lemma hash_erasure_cong:
  assumes "\<forall>m \<in> set ms. n (mvalue m) = n' (mvalue m) \<and> d (mvalue m) = e (mvalue m)"
  shows "hash_erasure n d ms = hash_erasure n' e ms"
proof -
  let ?vals = "map (\<lambda>m. mvalue m) ms"
  have n: "render_all n ?vals = render_all n' ?vals" by (rule render_all_cong) (use assms in auto)
  have "render_all d (map snd (sort_key fst (zip names ?vals)))
      = render_all e (map snd (sort_key fst (zip names ?vals)))" for names :: "string list"
    by (rule render_all_cong) (use assms in \<open>auto dest!: set_zip_rightD\<close>)
  then show ?thesis by (simp add: hash_erasure_def n Let_def)
qed

lemma erase_hash_shape_cong:
  assumes "\<forall>m \<in> set ms. n (mvalue m) = n' (mvalue m) \<and> d (mvalue m) = e (mvalue m)"
  shows "erase_hash_shape n d ms = erase_hash_shape n' e ms"
  unfolding erase_hash_shape_def hash_erasure_cong[OF assms]
  using assms by (simp cong: render_all_cong ShapeKey.case_cong)

lemma erase_type_cong:
  "\<forall>c \<in> set_Type t. n c = n' c \<and> d c = e c \<Longrightarrow> erase_type resolve n d t = erase_type resolve n' e t"
  by (cases t)
     (auto simp: erase_type_def erase_union_def intro!: erase_hash_shape_cong
       cong: render_all_cong split: list.splits)

lemma describe_type_cong:
  "\<forall>c \<in> set_Type t. d c = e c \<Longrightarrow> p t = q t \<Longrightarrow> describe_type p d t = describe_type q e t"
  by (cases t)
     (auto simp: describe_type_def case_prod_unfold cong: render_all_cong intro!: Option.bind_cong)


lemma bind_total: "\<exists>x. m = Some x \<Longrightarrow> (\<And>x. \<exists>y. f x = Some y) \<Longrightarrow> \<exists>y. Option.bind m f = Some y"
  by auto

lemma hash_erasure_total:
  assumes "\<forall>m \<in> set ms. (\<exists>s. n (mvalue m) = Some s) \<and> (\<exists>s. d (mvalue m) = Some s)"
  shows "\<exists>s. hash_erasure n d ms = Some s"
proof -
  let ?vals = "map (\<lambda>m. mvalue m) ms"
  have n: "\<exists>ys. render_all n ?vals = Some ys" by (rule render_all_total) (use assms in auto)
  have "\<exists>ys. render_all d (map snd (sort_key fst (zip names ?vals))) = Some ys" for names :: "string list"
    by (rule render_all_total) (use assms in \<open>auto dest!: set_zip_rightD\<close>)
  then show ?thesis unfolding hash_erasure_def Let_def by (intro bind_total n) auto
qed

lemma erase_hash_shape_total:
  assumes "\<forall>m \<in> set ms. (\<exists>s. n (mvalue m) = Some s) \<and> (\<exists>s. d (mvalue m) = Some s)"
  shows "\<exists>s. erase_hash_shape n d ms = Some s"
proof (cases "list_all (\<lambda>m. is_sym_key (key m)) ms")
  case True
  have "\<exists>s. (case key m of KSym name \<Rightarrow>
      do { v \<leftarrow> d (mvalue m); Some ((if optional m then ''?'' @ name else name) @ '': '' @ v) } | _ \<Rightarrow> None) = Some s"
    if m: "m \<in> set ms" for m
    using assms m True by (cases "key m") (auto simp: list_all_iff is_sym_key_def)
  then have "\<exists>ys. render_all (\<lambda>m. case key m of KSym name \<Rightarrow>
      do { v \<leftarrow> d (mvalue m); Some ((if optional m then ''?'' @ name else name) @ '': '' @ v) } | _ \<Rightarrow> None) ms = Some ys"
    by (rule render_all_total)
  with True show ?thesis by (auto simp: erase_hash_shape_def)
next
  case False
  with hash_erasure_total[OF assms] show ?thesis by (simp add: erase_hash_shape_def)
qed

lemma describe_named_type_total:
  assumes "\<forall>c \<in> set_Type t. (\<exists>u. look c = Some u) \<and> (\<exists>s. d c = Some s)"
  shows "\<exists>s. describe_named_type resolve look d t = Some s"
  using assms named_union_total[of _ look d]
  by (cases t)
     (auto simp: describe_named_type_def case_prod_unfold intro!: bind_total render_all_total)

lemma erase_type_total:
  assumes "\<forall>c \<in> set_Type t. (\<exists>s. n c = Some s) \<and> (\<exists>s. d c = Some s)"
  shows "\<exists>s. erase_type resolve n d t = Some s"
  using assms
  by (cases t)
     (auto simp: erase_type_def erase_union_def intro!: bind_total render_all_total erase_hash_shape_total
       split: list.splits)

lemma describe_type_total:
  assumes "\<forall>c \<in> set_Type t. \<exists>s. d c = Some s" "\<exists>b. p t = Some b"
  shows "\<exists>s. describe_type p d t = Some s"
  using assms
  by (cases t)
     (auto simp: describe_type_def case_prod_unfold intro!: bind_total render_all_total)

section \<open>The renderings\<close>

interpretation named: handle_recursion
  "\<lambda>n i a. describe_named_fuel n i a resolve" "\<lambda>i a d t. describe_named_type resolve (get i) d t"
  rewrites "handle_recursion.run (\<lambda>n i a. describe_named_fuel n i a resolve) = (\<lambda>i a. describe_named i a resolve)"
  for resolve
proof -
  show h: "handle_recursion (\<lambda>n i a. describe_named_fuel n i a resolve)
      (\<lambda>i a d t. describe_named_type resolve (get i) d t)"
  proof unfold_locales
    fix i j a t and d e :: "TypeId \<Rightarrow> string option"
    assume ag: "agrees i j" and t: "get i a = Some t" and de: "\<forall>c \<in> set_Type t. d c = e c"
    have "valid i c" if "c \<in> set_Type t" for c using ag t that child_valid unfolding agrees_def by blast
    then show "describe_named_type resolve (get i) d t = describe_named_type resolve (get j) e t"
      using de agrees_get[OF ag] by (intro describe_named_type_cong) simp
  next
    fix i a t and d :: "TypeId \<Rightarrow> string option"
    assume "interner_wf i" "get i a = Some t" "\<forall>c \<in> set_Type t. \<exists>r. d c = Some r"
    then show "\<exists>r. describe_named_type resolve (get i) d t = Some r"
      using child_valid valid_iff_get by (intro describe_named_type_total) blast
  qed auto
  show "handle_recursion.run (\<lambda>n i a. describe_named_fuel n i a resolve) = (\<lambda>i a. describe_named i a resolve)"
    by (intro ext) (simp add: handle_recursion.run_def[OF h] describe_named_def)
qed

interpretation erasure: handle_recursion
  "\<lambda>n i a. erase_fuel n i a resolve" "\<lambda>i a d t. erase_type resolve (\<lambda>b. describe_named i b resolve) d t"
  rewrites "handle_recursion.run (\<lambda>n i a. erase_fuel n i a resolve) = (\<lambda>i a. erase_to_rbs_named i a resolve)"
  for resolve
proof -
  show h: "handle_recursion (\<lambda>n i a. erase_fuel n i a resolve)
      (\<lambda>i a d t. erase_type resolve (\<lambda>b. describe_named i b resolve) d t)"
  proof unfold_locales
    fix i j a t and d e :: "TypeId \<Rightarrow> string option"
    assume ag: "agrees i j" and t: "get i a = Some t" and de: "\<forall>c \<in> set_Type t. d c = e c"
    have "valid i c" if "c \<in> set_Type t" for c using ag t that child_valid unfolding agrees_def by blast
    then show "erase_type resolve (\<lambda>b. describe_named i b resolve) d t
        = erase_type resolve (\<lambda>b. describe_named j b resolve) e t"
      using de named.stable[OF ag] by (intro erase_type_cong) simp
  next
    fix i a t and d :: "TypeId \<Rightarrow> string option"
    assume "interner_wf i" "get i a = Some t" "\<forall>c \<in> set_Type t. \<exists>r. d c = Some r"
    then show "\<exists>r. erase_type resolve (\<lambda>b. describe_named i b resolve) d t = Some r"
      using child_valid named.total by (intro erase_type_total) blast
  qed auto
  show "handle_recursion.run (\<lambda>n i a. erase_fuel n i a resolve) = (\<lambda>i a. erase_to_rbs_named i a resolve)"
    by (intro ext) (simp add: handle_recursion.run_def[OF h] erase_to_rbs_named_def)
qed

lemma is_bool_pair_agrees:
  assumes ag: "agrees i j" and v: "valid i a"
  shows "is_bool_pair j a = is_bool_pair i a" "\<exists>b. is_bool_pair i a = Some b"
proof -
  obtain t where t: "get i a = Some t" using v by (auto simp: valid_iff_get)
  have wf: "interner_wf i" using ag by (simp add: agrees_def)
  have k: "get j c = get i c" "\<exists>u. get i c = Some u" if "c \<in> set_Type t" for c
    using agrees_get[OF ag] child_valid[OF wf t that] by (auto simp: valid_iff_get)
  have "is_bool_pair j a = is_bool_pair i a \<and> (\<exists>b. is_bool_pair i a = Some b)"
  proof (cases "\<exists>m1 m2. t = Union [m1, m2]")
    case True
    then obtain m1 m2 where "t = Union [m1, m2]" by blast
    then show ?thesis
      using t k[of m1] k[of m2] agrees_get[OF ag v] by (auto simp: is_bool_pair_def)
  next
    case False
    then show ?thesis
      using t agrees_get[OF ag v] by (cases t) (auto simp: is_bool_pair_def split: list.splits)
  qed
  then show "is_bool_pair j a = is_bool_pair i a" "\<exists>b. is_bool_pair i a = Some b" by blast+
qed

interpretation internal: handle_recursion
  describe_fuel "\<lambda>i a d t. describe_type (\<lambda>_. is_bool_pair i a) d t"
  rewrites "handle_recursion.run describe_fuel = describe"
proof -
  show h: "handle_recursion describe_fuel (\<lambda>i a d t. describe_type (\<lambda>_. is_bool_pair i a) d t)"
  proof unfold_locales
    fix i j a t and d e :: "TypeId \<Rightarrow> string option"
    assume "agrees i j" "get i a = Some t" "\<forall>c \<in> set_Type t. d c = e c"
    then show "describe_type (\<lambda>_. is_bool_pair i a) d t = describe_type (\<lambda>_. is_bool_pair j a) e t"
      by (intro describe_type_cong) (simp_all add: is_bool_pair_agrees get_Some_valid)
  next
    fix i a t and d :: "TypeId \<Rightarrow> string option"
    assume "interner_wf i" "get i a = Some t" "\<forall>c \<in> set_Type t. \<exists>r. d c = Some r"
    then show "\<exists>r. describe_type (\<lambda>_. is_bool_pair i a) d t = Some r"
      using is_bool_pair_agrees(2)[OF agrees_refl] get_Some_valid by (intro describe_type_total) blast+
  qed auto
  show "handle_recursion.run describe_fuel = describe"
    by (intro ext) (simp add: handle_recursion.run_def[OF h] describe_def)
qed

end
