(* ===== verification/Algebra_Refinement.thy ===== *)
theory Algebra_Refinement
  imports Tree_Algebra
begin

text \<open>
  The interner-based lattice operations refine the operations on trees. \<open>yields i k t r\<close> says
  that a run \<open>r\<close> started in interner \<open>i\<close> returns a handle of tree \<open>t\<close> and a well-formed interner
  that extends \<open>i\<close> by at most \<open>k\<close> carriers.
\<close>

definition yields :: "Interner \<Rightarrow> nat \<Rightarrow> tree \<Rightarrow> (TypeId \<times> Interner) option \<Rightarrow> bool" where
  "yields i k t r \<longleftrightarrow> (\<exists>a j. r = Some (a, j) \<and> interner_wf j \<and> extends i j \<and> valid j a \<and>
     tree_of j a = t \<and> length (arena j) \<le> length (arena i) + k)"

text \<open>\<open>gathers i f ts\<close>: the collector \<open>f\<close> appends handles of the trees \<open>ts\<close> to its buffer.\<close>

definition gathers :: "Interner \<Rightarrow> (TypeId list \<Rightarrow> TypeId list option) \<Rightarrow> tree list \<Rightarrow> bool" where
  "gathers i f ts \<longleftrightarrow> (\<exists>xs. (\<forall>out. f out = Some (out @ xs)) \<and> (\<forall>x \<in> set xs. valid i x) \<and>
     map (tree_of i) xs = ts)"

lemma yieldsE:
  assumes "yields i k t r"
  obtains a j where "r = Some (a, j)" "interner_wf j" "extends i j" "valid j a" "tree_of j a = t"
    "length (arena j) \<le> length (arena i) + k"
  using assms by (auto simp: yields_def)

lemma yields_more: "yields i k t r \<Longrightarrow> k \<le> k' \<Longrightarrow> yields i k' t r"
  by (fastforce simp: yields_def)

section \<open>Queries and atomics\<close>

lemma query_tree:
  assumes "interner_wf i" "valid i a"
  shows "is_bottom i a = Some (tree_of i a = Node Bottom)"
    and "is_plain_top i a = Some (tree_of i a = Node Top)"
  using assms by (auto simp: valid_iff_get is_bottom_def is_plain_top_def tree_of_get)

lemma as_dynamic_tree:
  assumes wf: "interner_wf i" and "valid i a"
  obtains "as_dynamic i a = Some None" "dyn (tree_of i a) = None"
  | f where "as_dynamic i a = Some (Some f)" "dyn (tree_of i a) = Some (tree_of i f)" "valid i f"
      "unat (index f) < unat (index a)"
proof -
  obtain t where t: "get i a = Some t" using assms by (auto simp: valid_iff_get)
  then show thesis
    using that child_valid[OF wf t set_as_dynamic] child_before[OF wf t set_as_dynamic]
    by (cases "as_dynamic_type t") (auto simp: as_dynamic_def root_tree_of[OF wf t])
qed

lemma atomics_tree:
  assumes "interner_wf i"
  shows "valid i (top_id i)" "tree_of i (top_id i) = Node Top"
    and "valid i (bottom_id i)" "tree_of i (bottom_id i) = Node Bottom"
  using interner_wfD(4)[OF assms]
  by (auto simp: atomics_ok_def tree_of_get[OF assms] intro: get_Some_valid)

lemma yields_here: "interner_wf i \<Longrightarrow> valid i a \<Longrightarrow> yields i k (tree_of i a) (Some (a, i))"
  by (simp add: yields_def)

lemma yields_top: "interner_wf i \<Longrightarrow> yields i k (Node Top) (Some (top_id i, i))"
  using yields_here[of i "top_id i"] by (simp add: atomics_tree)

lemma yields_bottom: "interner_wf i \<Longrightarrow> yields i k (Node Bottom) (Some (bottom_id i, i))"
  using yields_here[of i "bottom_id i"] by (simp add: atomics_tree)

lemma yields_intern:
  assumes "interner_wf i" "room i 1" "valid_type i t"
  shows "yields i 1 (Node (map_Type (tree_of i) t)) (Some (intern i t))"
  using assms store.ins_inv[of i t] store.ins_holds[of i t] store.ins_abs[of i t]
    intern_extends[of i t] intern_length[of i t]
  by (auto simp: yields_def valid_type_def intro!: exI[of _ "fst (intern i t)"] exI[of _ "snd (intern i t)"])

lemma yields_dynamic:
  assumes y: "yields i k t r" and room: "room i (Suc k)"
  shows "yields i (Suc k) (Node (Dynamic t)) (do { (f, j) \<leftarrow> r; Some (intern j (Dynamic f)) })"
proof -
  obtain f j where j: "r = Some (f, j)" "interner_wf j" "extends i j" "valid j f" "tree_of j f = t"
    "length (arena j) \<le> length (arena i) + k"
    using y by (rule yieldsE)
  with room have "yields j 1 (Node (Dynamic t)) (Some (intern j (Dynamic f)))"
    using yields_intern[of j "Dynamic f"] by (simp add: valid_type_def room_def)
  with j show ?thesis by (fastforce simp: yields_def intro: extends_trans)
qed

section \<open>Collecting members\<close>

lemma gathers_one: "valid i a \<Longrightarrow> tree_of i a = t \<Longrightarrow> gathers i (\<lambda>out. Some (out @ [a])) [t]"
  by (auto simp: gathers_def)

lemma gathers_none: "gathers i Some []"
  by (auto simp: gathers_def)

lemma gathers_then:
  assumes "gathers i f ts" "gathers i g us"
  shows "gathers i (\<lambda>out. do { out' \<leftarrow> f out; g out' }) (ts @ us)"
proof -
  obtain xs ys where "\<forall>out. f out = Some (out @ xs)" "\<forall>x \<in> set xs. valid i x" "map (tree_of i) xs = ts"
    "\<forall>out. g out = Some (out @ ys)" "\<forall>y \<in> set ys. valid i y" "map (tree_of i) ys = us"
    using assms by (auto simp: gathers_def)
  then show ?thesis unfolding gathers_def by (intro exI[of _ "xs @ ys"]) auto
qed

lemma gathers_fold:
  "(\<And>m. m \<in> set ms \<Longrightarrow> gathers i (f m) (g m)) \<Longrightarrow> gathers i (fold_m f ms) (concat (map g ms))"
proof (induction ms)
  case Nil
  have "fold_m f [] = Some" by (rule ext) simp
  then show ?case by (simp add: gathers_none)
next
  case (Cons m ms)
  have "fold_m f (m # ms) = (\<lambda>out. do { out' \<leftarrow> f m out; fold_m f ms out' })" by (rule ext) simp
  with Cons show ?case by (simp add: gathers_then)
qed

lemma collect_union_tree:
  assumes wf: "interner_wf i"
  shows "valid i a \<Longrightarrow> unat (index a) < n \<Longrightarrow> gathers i (collect_union_fuel n i a) (flat_union (tree_of i a))"
proof (induction n arbitrary: a)
  case (Suc n)
  obtain t where t: "get i a = Some t" using Suc.prems by (auto simp: valid_iff_get)
  have kids: "gathers i (fold_m (collect_union_fuel n i) ms) (concat (map (\<lambda>m. flat_union (tree_of i m)) ms))"
    if "as_union t = Some ms" for ms
    using child_valid[OF wf t set_as_union[OF that]] child_before[OF wf t set_as_union[OF that]] Suc.prems
    by (intro gathers_fold Suc.IH) fastforce+
  have "collect_union_fuel (Suc n) i a = (\<lambda>out. if t = Bottom then Some out else case as_union t of
      Some ms \<Rightarrow> fold_m (collect_union_fuel n i) ms out | None \<Rightarrow> Some (out @ [a]))"
    using t by (intro ext) simp
  then show ?case
    using kids Suc.prems(1) gathers_none[of i] gathers_one[of i a]
    by (auto simp: tree_of_get[OF wf t] flat_union.simps comp_def simp del: as_union_Some split: option.splits)
qed simp

lemma collect_intersection_tree:
  assumes wf: "interner_wf i"
  shows "valid i a \<Longrightarrow> unat (index a) < n \<Longrightarrow>
    gathers i (collect_intersection_fuel n i a) (flat_intersection (tree_of i a))"
proof (induction n arbitrary: a)
  case (Suc n)
  obtain t where t: "get i a = Some t" using Suc.prems by (auto simp: valid_iff_get)
  have kids: "gathers i (fold_m (collect_intersection_fuel n i) ms)
      (concat (map (\<lambda>m. flat_intersection (tree_of i m)) ms))"
    if "as_intersection t = Some ms" for ms
    using child_valid[OF wf t set_as_intersection[OF that]] child_before[OF wf t set_as_intersection[OF that]]
      Suc.prems
    by (intro gathers_fold Suc.IH) fastforce+
  have "collect_intersection_fuel (Suc n) i a = (\<lambda>out. if t = Top then Some out else case as_intersection t of
      Some ms \<Rightarrow> fold_m (collect_intersection_fuel n i) ms out | None \<Rightarrow> Some (out @ [a]))"
    using t by (intro ext) simp
  then show ?case
    using kids Suc.prems(1) gathers_none[of i] gathers_one[of i a]
    by (auto simp: tree_of_get[OF wf t] flat_intersection.simps comp_def simp del: as_intersection_Some
      split: option.splits)
qed simp

lemma gathers_union:
  "interner_wf i \<Longrightarrow> valid i a \<Longrightarrow> gathers i (collect_union_members i a) (flat_union (tree_of i a))"
  using collect_union_tree[of i a "Suc (length (arena i))"]
  by (simp add: collect_union_members_def[abs_def] valid_def del: collect_union_fuel.simps)

lemma gathers_intersection:
  "interner_wf i \<Longrightarrow> valid i a \<Longrightarrow>
   gathers i (collect_intersection_members i a) (flat_intersection (tree_of i a))"
  using collect_intersection_tree[of i a "Suc (length (arena i))"]
  by (simp add: collect_intersection_members_def[abs_def] valid_def del: collect_intersection_fuel.simps)

section \<open>Building canonical member lists\<close>

lemma members_tree:
  assumes wf: "interner_wf i" and v: "\<forall>m \<in> set ms. valid i m"
  obtains s where "sort_by_m (cmp i) ms = Some s" "\<forall>m \<in> set (remdups_adj s). valid i m"
    "map (tree_of i) (remdups_adj s) = canonical_members (map (tree_of i) ms)"
proof -
  let ?c = "\<lambda>x y. tree_cmp (tree_of i x) (tree_of i y)"
  have "sort_by_m (cmp i) ms = Some (sort_by ?c ms)"
    using cmp_tree[OF wf] v by (intro sort_by_m_Some) auto
  moreover have "map (tree_of i) (remdups_adj (sort_by ?c ms)) = canonical_members (map (tree_of i) ms)"
    using tree_of_inj[OF wf] v
    by (subst map_remdups_adj_inj) (auto simp: map_sort_by canonical_members_def inj_on_def)
  ultimately show thesis using that v by auto
qed

lemma make_union_tree:
  assumes wf: "interner_wf i" and v: "\<forall>m \<in> set ms. valid i m" and room: "room i 1"
  shows "yields i 1 (tree_union (map (tree_of i) ms)) (make_union i ms)"
proof -
  have tops: "any_m (is_plain_top i) ms = Some (Node Top \<in> set (map (tree_of i) ms))"
    using v by (subst any_m_Some[where q = "\<lambda>m. tree_of i m = Node Top"]) (auto simp: query_tree[OF wf] image_iff eq_commute[of "Node _"])
  obtain s where s: "sort_by_m (cmp i) ms = Some s" "\<forall>m \<in> set (remdups_adj s). valid i m"
    "map (tree_of i) (remdups_adj s) = canonical_members (map (tree_of i) ms)"
    using members_tree[OF wf v] .
  define d where "d = remdups_adj s"
  note s = s[folded d_def]
  have "valid_type i (Union d)" using s(2) by (simp add: valid_type_def)
  note big = yields_intern[OF wf room this]
  show ?thesis
    using tops s(1,2) big yields_top[OF wf] yields_bottom[OF wf] yields_here[OF wf, of _ 1]
    by (cases d rule: remdups_adj.cases)
       (auto simp: make_union_def tree_union_def s(3)[symmetric] d_def[symmetric])
qed

lemma make_intersection_tree:
  assumes wf: "interner_wf i" and v: "\<forall>m \<in> set ms. valid i m" and room: "room i 1"
  shows "yields i 1 (tree_intersection (map (tree_of i) ms)) (make_intersection i ms)"
proof -
  have bots: "any_m (is_bottom i) ms = Some (Node Bottom \<in> set (map (tree_of i) ms))"
    using v by (subst any_m_Some[where q = "\<lambda>m. tree_of i m = Node Bottom"]) (auto simp: query_tree[OF wf] image_iff eq_commute[of "Node _"])
  obtain s where s: "sort_by_m (cmp i) ms = Some s" "\<forall>m \<in> set (remdups_adj s). valid i m"
    "map (tree_of i) (remdups_adj s) = canonical_members (map (tree_of i) ms)"
    using members_tree[OF wf v] .
  define d where "d = remdups_adj s"
  note s = s[folded d_def]
  have "valid_type i (Intersection d)" using s(2) by (simp add: valid_type_def)
  note big = yields_intern[OF wf room this]
  show ?thesis
    using bots s(1,2) big yields_top[OF wf] yields_bottom[OF wf] yields_here[OF wf, of _ 1]
    by (cases d rule: remdups_adj.cases)
       (auto simp: make_intersection_def tree_intersection_def s(3)[symmetric] d_def[symmetric])
qed


lemma two_collected:
  assumes "gathers i f ts" "gathers i g us"
    and "\<And>ms. \<forall>m \<in> set ms. valid i m \<Longrightarrow> yields i 1 (op (map (tree_of i) ms)) (mk i ms)"
  shows "yields i 1 (op (ts @ us)) (do { ms \<leftarrow> f []; ms \<leftarrow> g ms; mk i ms })"
proof -
  obtain xs ys where "f [] = Some xs" "g xs = Some (xs @ ys)" "\<forall>x \<in> set (xs @ ys). valid i x"
    "map (tree_of i) (xs @ ys) = ts @ us"
    using assms(1,2) by (fastforce simp: gathers_def)
  with assms(3)[of "xs @ ys"] show ?thesis by simp
qed

section \<open>The operations\<close>

lemma join_fuel_tree:
  assumes wf: "interner_wf i"
  shows "valid i a \<Longrightarrow> valid i b \<Longrightarrow> unat (index a) + unat (index b) < n \<Longrightarrow>
    room i (Suc (dyn_depth (tree_of i a) + dyn_depth (tree_of i b))) \<Longrightarrow>
    yields i (Suc (dyn_depth (tree_of i a) + dyn_depth (tree_of i b)))
      (tree_join (tree_of i a) (tree_of i b)) (join_fuel n i a b)"
proof (induction n arbitrary: a b)
  case (Suc n)
  note va = Suc.prems(1) and vb = Suc.prems(2) and fuel = Suc.prems(3) and room = Suc.prems(4)
  note q = query_tree[OF wf va] query_tree[OF wf vb]
  note unfold = tree_join.simps[of "tree_of i a" "tree_of i b"]
  show ?case
  proof (cases "a = b \<or> tree_of i a = Node Bottom \<or> tree_of i b = Node Bottom
      \<or> tree_of i a = Node Top \<or> tree_of i b = Node Top")
    case True
    then show ?thesis
      using yields_here[OF wf va] yields_here[OF wf vb] yields_top[OF wf] tree_of_inj[OF wf va vb]
      by (auto simp: q unfold tree_join.simps[of "tree_of i a" "tree_of i a"])
  next
    case False
    then have ne: "tree_of i a \<noteq> tree_of i b" using tree_of_inj[OF wf va vb] by auto
    show ?thesis
    proof (cases rule: as_dynamic_tree[OF wf va]; cases rule: as_dynamic_tree[OF wf vb])
      assume a: "as_dynamic i a = Some None" "dyn (tree_of i a) = None"
        and b: "as_dynamic i b = Some None" "dyn (tree_of i b) = None"
      have r1: "room i 1" using room by (rule room_mono) simp
      have "yields i 1 (tree_union (flat_union (tree_of i a) @ flat_union (tree_of i b)))
          (do { ms \<leftarrow> collect_union_members i a []; ms \<leftarrow> collect_union_members i b ms; make_union i ms })"
        using gathers_union[OF wf va] gathers_union[OF wf vb] make_union_tree[OF wf _ r1]
        by (rule two_collected)
      with False ne a b show ?thesis by (auto simp: q unfold elim: yields_more)
    next
      fix fb assume a: "as_dynamic i a = Some None" "dyn (tree_of i a) = None"
        and b: "as_dynamic i b = Some (Some fb)" "dyn (tree_of i b) = Some (tree_of i fb)" "valid i fb"
          "unat (index fb) < unat (index b)"
      have "yields i (Suc (dyn_depth (tree_of i a) + dyn_depth (tree_of i fb)))
          (tree_join (tree_of i a) (tree_of i fb)) (join_fuel n i a fb)"
        using va b fuel room by (intro Suc.IH) (auto elim: room_mono)
      from yields_dynamic[OF this] False ne a b room show ?thesis by (auto simp: q unfold)
    next
      fix fa assume b: "as_dynamic i b = Some None" "dyn (tree_of i b) = None"
        and a: "as_dynamic i a = Some (Some fa)" "dyn (tree_of i a) = Some (tree_of i fa)" "valid i fa"
          "unat (index fa) < unat (index a)"
      have "yields i (Suc (dyn_depth (tree_of i fa) + dyn_depth (tree_of i b)))
          (tree_join (tree_of i fa) (tree_of i b)) (join_fuel n i fa b)"
        using vb a fuel room by (intro Suc.IH) (auto elim: room_mono)
      from yields_dynamic[OF this] False ne a b room show ?thesis by (auto simp: q unfold)
    next
      fix fa fb
      assume a: "as_dynamic i a = Some (Some fa)" "dyn (tree_of i a) = Some (tree_of i fa)" "valid i fa"
          "unat (index fa) < unat (index a)"
        and b: "as_dynamic i b = Some (Some fb)" "dyn (tree_of i b) = Some (tree_of i fb)" "valid i fb"
          "unat (index fb) < unat (index b)"
      have "yields i (Suc (dyn_depth (tree_of i fa) + dyn_depth (tree_of i fb)))
          (tree_join (tree_of i fa) (tree_of i fb)) (join_fuel n i fa fb)"
        using a b fuel room by (intro Suc.IH) (auto elim: room_mono)
      moreover have "room i (Suc (Suc (dyn_depth (tree_of i fa) + dyn_depth (tree_of i fb))))"
        using room a b by (auto elim: room_mono)
      ultimately show ?thesis
        using False ne a b by (auto simp: q unfold intro: yields_more[OF yields_dynamic])
    qed
  qed
qed simp


lemma join_tree:
  assumes "interner_wf i" "valid i a" "valid i b"
    and "room i (Suc (dyn_depth (tree_of i a) + dyn_depth (tree_of i b)))"
  shows "yields i (Suc (dyn_depth (tree_of i a) + dyn_depth (tree_of i b)))
    (tree_join (tree_of i a) (tree_of i b)) (join i a b)"
  unfolding join_def using assms by (intro join_fuel_tree) (auto simp: valid_def)

lemma meet_fuel_tree:
  assumes wf: "interner_wf i"
  shows "valid i a \<Longrightarrow> valid i b \<Longrightarrow> unat (index a) + unat (index b) < n \<Longrightarrow>
    room i (Suc (dyn_depth (tree_of i a) + dyn_depth (tree_of i b))) \<Longrightarrow>
    yields i (Suc (dyn_depth (tree_of i a) + dyn_depth (tree_of i b)))
      (tree_meet (tree_of i a) (tree_of i b)) (meet_fuel n i a b)"
proof (induction n arbitrary: a b)
  case (Suc n)
  note va = Suc.prems(1) and vb = Suc.prems(2) and fuel = Suc.prems(3) and room = Suc.prems(4)
  note q = query_tree[OF wf va] query_tree[OF wf vb]
  note unfold = tree_meet.simps[of "tree_of i a" "tree_of i b"]
  show ?case
  proof (cases "a = b \<or> tree_of i a = Node Bottom \<or> tree_of i b = Node Bottom
      \<or> tree_of i a = Node Top \<or> tree_of i b = Node Top")
    case True
    then show ?thesis
      using yields_here[OF wf va] yields_here[OF wf vb] yields_bottom[OF wf] tree_of_inj[OF wf va vb]
      by (auto simp: q unfold tree_meet.simps[of "tree_of i a" "tree_of i a"])
  next
    case False
    then have ne: "tree_of i a \<noteq> tree_of i b" using tree_of_inj[OF wf va vb] by auto
    show ?thesis
    proof (cases rule: as_dynamic_tree[OF wf va]; cases rule: as_dynamic_tree[OF wf vb])
      assume a: "as_dynamic i a = Some None" "dyn (tree_of i a) = None"
        and b: "as_dynamic i b = Some None" "dyn (tree_of i b) = None"
      have r1: "room i 1" using room by (rule room_mono) simp
      have "yields i 1 (tree_intersection (flat_intersection (tree_of i a) @ flat_intersection (tree_of i b)))
          (do { ms \<leftarrow> collect_intersection_members i a []; ms \<leftarrow> collect_intersection_members i b ms; make_intersection i ms })"
        using gathers_intersection[OF wf va] gathers_intersection[OF wf vb] make_intersection_tree[OF wf _ r1]
        by (rule two_collected)
      with False ne a b show ?thesis by (auto simp: q unfold elim: yields_more)
    next
      fix fb assume a: "as_dynamic i a = Some None" "dyn (tree_of i a) = None"
        and b: "as_dynamic i b = Some (Some fb)" "dyn (tree_of i b) = Some (tree_of i fb)" "valid i fb"
          "unat (index fb) < unat (index b)"
      have "yields i (Suc (dyn_depth (tree_of i a) + dyn_depth (tree_of i fb)))
          (tree_meet (tree_of i a) (tree_of i fb)) (meet_fuel n i a fb)"
        using va b fuel room by (intro Suc.IH) (auto elim: room_mono)
      from yields_dynamic[OF this] False ne a b room show ?thesis by (auto simp: q unfold)
    next
      fix fa assume b: "as_dynamic i b = Some None" "dyn (tree_of i b) = None"
        and a: "as_dynamic i a = Some (Some fa)" "dyn (tree_of i a) = Some (tree_of i fa)" "valid i fa"
          "unat (index fa) < unat (index a)"
      have "yields i (Suc (dyn_depth (tree_of i fa) + dyn_depth (tree_of i b)))
          (tree_meet (tree_of i fa) (tree_of i b)) (meet_fuel n i fa b)"
        using vb a fuel room by (intro Suc.IH) (auto elim: room_mono)
      from yields_dynamic[OF this] False ne a b room show ?thesis by (auto simp: q unfold)
    next
      fix fa fb
      assume a: "as_dynamic i a = Some (Some fa)" "dyn (tree_of i a) = Some (tree_of i fa)" "valid i fa"
          "unat (index fa) < unat (index a)"
        and b: "as_dynamic i b = Some (Some fb)" "dyn (tree_of i b) = Some (tree_of i fb)" "valid i fb"
          "unat (index fb) < unat (index b)"
      have "yields i (Suc (dyn_depth (tree_of i fa) + dyn_depth (tree_of i fb)))
          (tree_meet (tree_of i fa) (tree_of i fb)) (meet_fuel n i fa fb)"
        using a b fuel room by (intro Suc.IH) (auto elim: room_mono)
      moreover have "room i (Suc (Suc (dyn_depth (tree_of i fa) + dyn_depth (tree_of i fb))))"
        using room a b by (auto elim: room_mono)
      ultimately show ?thesis
        using False ne a b by (auto simp: q unfold intro: yields_more[OF yields_dynamic])
    qed
  qed
qed simp


lemma meet_tree:
  assumes "interner_wf i" "valid i a" "valid i b"
    and "room i (Suc (dyn_depth (tree_of i a) + dyn_depth (tree_of i b)))"
  shows "yields i (Suc (dyn_depth (tree_of i a) + dyn_depth (tree_of i b)))
    (tree_meet (tree_of i a) (tree_of i b)) (meet i a b)"
  unfolding meet_def using assms by (intro meet_fuel_tree) (auto simp: valid_def)

lemma difference_fuel_tree:
  assumes wf: "interner_wf i"
  shows "valid i a \<Longrightarrow> valid i b \<Longrightarrow> unat (index a) < n \<Longrightarrow>
    room i (Suc (dyn_depth (tree_of i a))) \<Longrightarrow>
    yields i (Suc (dyn_depth (tree_of i a)))
      (tree_difference (tree_of i a) (tree_of i b)) (difference_fuel n i a b)"
proof (induction n arbitrary: a b)
  case (Suc n)
  note va = Suc.prems(1) and vb = Suc.prems(2) and fuel = Suc.prems(3) and room = Suc.prems(4)
  note q = query_tree[OF wf va] query_tree[OF wf vb]
  note unfold = tree_difference.simps[of "tree_of i a" "tree_of i b"]
  show ?case
  proof (cases "a = b \<or> tree_of i a = Node Bottom \<or> tree_of i b = Node Bottom")
    case True
    then show ?thesis
      using yields_here[OF wf va] yields_bottom[OF wf] tree_of_inj[OF wf va vb]
      by (auto simp: q unfold tree_difference.simps[of "tree_of i a" "tree_of i a"])
  next
    case False
    then have ne: "tree_of i a \<noteq> tree_of i b" using tree_of_inj[OF wf va vb] by auto
    show ?thesis
    proof (cases rule: as_dynamic_tree[OF wf va])
      case 1
      have "yields i 1 (Node (Difference (tree_of i a) (tree_of i b))) (Some (intern i (Difference a b)))"
        using yields_intern[OF wf room_mono[OF room], of "Difference a b"] va vb
        by (simp add: valid_type_def)
      with 1 False ne show ?thesis by (auto simp: q unfold elim: yields_more)
    next
      case (2 fa)
      have "\<exists>f. (do { db \<leftarrow> as_dynamic i b; Some (case db of Some fb \<Rightarrow> fb | None \<Rightarrow> b) }) = Some f \<and>
          valid i f \<and> tree_of i f = tree_facet (tree_of i b)"
        using vb by (cases rule: as_dynamic_tree[OF wf vb]) (auto simp: tree_facet_def)
      then obtain f db where f: "as_dynamic i b = Some db" "f = (case db of Some fb \<Rightarrow> fb | None \<Rightarrow> b)"
        "valid i f" "tree_of i f = tree_facet (tree_of i b)"
        by (auto split: Option.bind_splits)
      have "yields i (Suc (dyn_depth (tree_of i fa)))
          (tree_difference (tree_of i fa) (tree_of i f)) (difference_fuel n i fa f)"
        using 2 f fuel room by (intro Suc.IH) (auto elim: room_mono)
      from yields_dynamic[OF this] 2 f False ne room show ?thesis by (auto simp: q unfold)
    qed
  qed
qed simp

lemma difference_tree:
  assumes "interner_wf i" "valid i a" "valid i b" and "room i (Suc (dyn_depth (tree_of i a)))"
  shows "yields i (Suc (dyn_depth (tree_of i a)))
    (tree_difference (tree_of i a) (tree_of i b)) (difference i a b)"
  unfolding difference_def using assms by (intro difference_fuel_tree) (auto simp: valid_def)


section \<open>Normalization\<close>

text \<open>The loop of \<open>normalize\<close> over the members: each is normalized in the interner the previous
  one left, and its members are collected. \<open>coll\<close> and \<open>fl\<close> are the two collectors.\<close>

lemma normalize_loop:
  assumes step: "\<And>i m. interner_wf i \<Longrightarrow> valid i m \<Longrightarrow> unat (index m) < n \<Longrightarrow>
      room i (normalize_room (tree_of i m)) \<Longrightarrow>
      yields i (normalize_room (tree_of i m)) (tree_normalize (tree_of i m)) (normalize_fuel n i m)"
    and coll: "\<And>i a. interner_wf i \<Longrightarrow> valid i a \<Longrightarrow> gathers i (coll i a) (fl (tree_of i a))"
  shows "interner_wf i \<Longrightarrow> \<forall>x \<in> set flat. valid i x \<Longrightarrow> \<forall>m \<in> set ms. valid i m \<and> unat (index m) < n \<Longrightarrow>
    room i (sum_list (map (\<lambda>m. normalize_room (tree_of i m)) ms)) \<Longrightarrow>
    \<exists>flat' j. fold_m (\<lambda>m (flat, i). do { (x, i') \<leftarrow> normalize_fuel n i m; flat' \<leftarrow> coll i' x flat; Some (flat', i') })
        ms (flat, i) = Some (flat', j) \<and> interner_wf j \<and> extends i j \<and> (\<forall>x \<in> set flat'. valid j x) \<and>
      map (tree_of j) flat' =
        map (tree_of i) flat @ concat (map (\<lambda>m. fl (tree_normalize (tree_of i m))) ms) \<and>
      length (arena j) \<le> length (arena i) + sum_list (map (\<lambda>m. normalize_room (tree_of i m)) ms)"
proof (induction ms arbitrary: flat i)
  case (Cons m ms)
  note wf = Cons.prems(1)
  have vm: "valid i m" "unat (index m) < n" "room i (normalize_room (tree_of i m))"
    using Cons.prems by (auto elim: room_mono)
  obtain x j where j: "normalize_fuel n i m = Some (x, j)" "interner_wf j" "extends i j" "valid j x"
    "tree_of j x = tree_normalize (tree_of i m)"
    "length (arena j) \<le> length (arena i) + normalize_room (tree_of i m)"
    using step[OF wf vm] by (rule yieldsE)
  obtain xs where xs: "coll j x flat = Some (flat @ xs)" "\<forall>y \<in> set xs. valid j y"
    "map (tree_of j) xs = fl (tree_normalize (tree_of i m))"
    using coll[OF j(2,4)] j(5) by (auto simp: gathers_def)
  have same: "tree_of j y = tree_of i y" if "valid i y" for y
    using that j wf by (intro tree_of_extends)
  have sum: "map (\<lambda>m. normalize_room (tree_of j m)) ms = map (\<lambda>m. normalize_room (tree_of i m)) ms"
    using Cons.prems(3) same by simp
  have "\<exists>flat' k. fold_m (\<lambda>m (flat, i). do { (x, i') \<leftarrow> normalize_fuel n i m; flat' \<leftarrow> coll i' x flat; Some (flat', i') })
        ms (flat @ xs, j) = Some (flat', k) \<and> interner_wf k \<and> extends j k \<and> (\<forall>x \<in> set flat'. valid k x) \<and>
      map (tree_of k) flat' =
        map (tree_of j) (flat @ xs) @ concat (map (\<lambda>m. fl (tree_normalize (tree_of j m))) ms) \<and>
      length (arena k) \<le> length (arena j) + sum_list (map (\<lambda>m. normalize_room (tree_of j m)) ms)"
    using Cons.prems j(2,3,6) xs(2) extends_valid[OF j(3)]
    by (intro Cons.IH) (auto simp: sum room_def)
  then obtain flat' k where k: "fold_m (\<lambda>m (flat, i). do { (x, i') \<leftarrow> normalize_fuel n i m; flat' \<leftarrow> coll i' x flat; Some (flat', i') })
        ms (flat @ xs, j) = Some (flat', k)" "interner_wf k" "extends j k" "\<forall>x \<in> set flat'. valid k x"
      "map (tree_of k) flat' =
        map (tree_of j) (flat @ xs) @ concat (map (\<lambda>m. fl (tree_normalize (tree_of j m))) ms)"
      "length (arena k) \<le> length (arena j) + sum_list (map (\<lambda>m. normalize_room (tree_of j m)) ms)"
    by blast
  have trees: "map (tree_of j) flat = map (tree_of i) flat"
    "map (\<lambda>m. fl (tree_normalize (tree_of j m))) ms = map (\<lambda>m. fl (tree_normalize (tree_of i m))) ms"
    using Cons.prems same by auto
  show ?case
    using j(1,6) xs k extends_trans[OF j(3)]
    by (intro exI[of _ flat'] exI[of _ k]) (simp add: sum trees)
qed simp

lemma normalize_fuel_tree:
  "interner_wf i \<Longrightarrow> valid i a \<Longrightarrow> unat (index a) < n \<Longrightarrow> room i (normalize_room (tree_of i a)) \<Longrightarrow>
   yields i (normalize_room (tree_of i a)) (tree_normalize (tree_of i a)) (normalize_fuel n i a)"
proof (induction n arbitrary: i a)
  case (Suc n)
  note wf = Suc.prems(1) and va = Suc.prems(2) and fuel = Suc.prems(3) and room = Suc.prems(4)
  obtain t where t: "get i a = Some t" using va by (auto simp: valid_iff_get)
  note tr = tree_of_get[OF wf t]
  have kids: "valid i m" "unat (index m) < n" if "m \<in> set_Type t" for m
    using child_valid[OF wf t that] child_before[OF wf t that] fuel by auto
  show ?case
  proof (cases "as_union t")
    case (Some ms)
    have k: "\<forall>m \<in> set ms. valid i m \<and> unat (index m) < n" using kids set_as_union[OF Some] by blast
    have nr: "normalize_room (tree_of i a) = Suc (sum_list (map (\<lambda>m. normalize_room (tree_of i m)) ms))"
      using Some by (simp add: tr normalize_room.simps comp_def del: as_union_Some)
    have r: "room i (sum_list (map (\<lambda>m. normalize_room (tree_of i m)) ms))"
      using room unfolding nr by (rule room_mono) simp
    obtain flat j where fj: "fold_m (\<lambda>m (flat, i). do { (x, i') \<leftarrow> normalize_fuel n i m;
          flat' \<leftarrow> collect_union_members i' x flat; Some (flat', i') }) ms ([], i) = Some (flat, j)"
      "interner_wf j" "extends i j" "\<forall>x \<in> set flat. valid j x"
      "map (tree_of j) flat = concat (map (\<lambda>m. flat_union (tree_normalize (tree_of i m))) ms)"
      "length (arena j) \<le> length (arena i) + sum_list (map (\<lambda>m. normalize_room (tree_of i m)) ms)"
      using normalize_loop[OF Suc.IH gathers_union wf _ k r, of "[]"] by auto
    have "yields j 1 (tree_union (map (tree_of j) flat)) (make_union j flat)"
      using fj room nr by (intro make_union_tree) (auto simp: room_def)
    with fj Some t show ?thesis
      unfolding nr by (auto simp: yields_def tr tree_normalize.simps comp_def simp del: as_union_Some
        intro: extends_trans) 
  next
    case nu: None
    show ?thesis
    proof (cases "as_intersection t")
      case (Some ms)
      have k: "\<forall>m \<in> set ms. valid i m \<and> unat (index m) < n" using kids set_as_intersection[OF Some] by blast
      have nr: "normalize_room (tree_of i a) = Suc (sum_list (map (\<lambda>m. normalize_room (tree_of i m)) ms))"
        using nu Some by (simp add: tr normalize_room.simps comp_def del: as_union_Some as_intersection_Some)
      have r: "room i (sum_list (map (\<lambda>m. normalize_room (tree_of i m)) ms))"
        using room unfolding nr by (rule room_mono) simp
      obtain flat j where fj: "fold_m (\<lambda>m (flat, i). do { (x, i') \<leftarrow> normalize_fuel n i m;
            flat' \<leftarrow> collect_intersection_members i' x flat; Some (flat', i') }) ms ([], i) = Some (flat, j)"
        "interner_wf j" "extends i j" "\<forall>x \<in> set flat. valid j x"
        "map (tree_of j) flat = concat (map (\<lambda>m. flat_intersection (tree_normalize (tree_of i m))) ms)"
        "length (arena j) \<le> length (arena i) + sum_list (map (\<lambda>m. normalize_room (tree_of i m)) ms)"
        using normalize_loop[OF Suc.IH gathers_intersection wf _ k r, of "[]"] by auto
      have "yields j 1 (tree_intersection (map (tree_of j) flat)) (make_intersection j flat)"
        using fj room nr by (intro make_intersection_tree) (auto simp: room_def)
      with fj nu Some t show ?thesis
        unfolding nr by (auto simp: yields_def tr tree_normalize.simps comp_def
          simp del: as_union_Some as_intersection_Some intro: extends_trans)
    next
      case ni: None
      show ?thesis
      proof (cases "as_dynamic_type t")
        case (Some f)
        then have nr: "normalize_room (tree_of i a) = Suc (normalize_room (tree_of i f))"
          using nu ni by (simp add: tr normalize_room.simps del: as_dynamic_type_Some)
        have "yields i (normalize_room (tree_of i f)) (tree_normalize (tree_of i f)) (normalize_fuel n i f)"
          using kids[OF set_as_dynamic[OF Some]] room nr wf by (intro Suc.IH) (auto elim: room_mono)
        from yields_dynamic[OF this] room nr nu ni Some t show ?thesis
          by (simp add: tr tree_normalize.simps del: as_dynamic_type_Some)
      next
        case None
        with nu ni t yields_here[OF wf va] show ?thesis by (simp add: tr tree_normalize.simps)
      qed
    qed
  qed
qed simp

lemma normalize_tree:
  assumes "interner_wf i" "valid i a" "room i (normalize_room (tree_of i a))"
  shows "yields i (normalize_room (tree_of i a)) (tree_normalize (tree_of i a)) (normalize i a)"
  unfolding normalize_def using assms by (intro normalize_fuel_tree) (auto simp: valid_def)

end
