(* ===== verification/Lattice_Laws.thy ===== *)
theory Lattice_Laws
  imports Algebra_Refinement
begin

text \<open>
  What the lattice operations mean. \<open>values v\<close> reads a tree as a set of values, for an
  arbitrary reading \<open>v\<close> of the carriers the lattice does not look into (nominals, constants,
  tuples and the rest); a \<open>Dynamic\<close> wrapper is read through its static facet. Against every such
  reading, join is union, meet is intersection, difference is set difference, normalization
  changes nothing and a proven subtype answer is inclusion. The second part is about canonical
  form: what \<open>normalize\<close> produces, that it is a fixed point, and that join and meet commute.
\<close>

section \<open>Types as sets of values\<close>

fun "values" :: "(tree \<Rightarrow> 'v set) \<Rightarrow> tree \<Rightarrow> 'v set" where
  "values v (Node Top) = UNIV"
| "values v (Node Bottom) = {}"
| "values v (Node (Dynamic t)) = values v t"
| "values v (Node (Union ms)) = (\<Union>m \<in> set ms. values v m)"
| "values v (Node (Intersection ms)) = (\<Inter>m \<in> set ms. values v m)"
| "values v (Node (Difference a b)) = values v a - values v b"
| "values v (Node (Complement a)) = - values v a"
| "values v t = v t"

lemma values_root:
  "root t = Bottom \<Longrightarrow> values v t = {}" "root t = Top \<Longrightarrow> values v t = UNIV"
  "root t = Dynamic f \<Longrightarrow> values v t = values v f"
  "root t = Union ms \<Longrightarrow> values v t = (\<Union>m \<in> set ms. values v m)"
  "root t = Intersection ms \<Longrightarrow> values v t = (\<Inter>m \<in> set ms. values v m)"
  by (cases t; simp)+

lemma values_facet [simp]: "values v (tree_facet t) = values v t"
  by (auto simp: tree_facet_def values_root split: option.splits)

lemma subtype_sound: "tree_subtype a b = Yes \<Longrightarrow> values v a \<subseteq> values v b"
proof (induction a b rule: tree_subtype.induct)
  case (1 a b)
  consider "a = b \<or> root a = Bottom \<or> root b = Top"
    | "\<not> (a = b \<or> root a = Bottom \<or> root b = Top)" "tree_facet a \<noteq> a \<or> tree_facet b \<noteq> b"
    | "\<not> (a = b \<or> root a = Bottom \<or> root b = Top)" "\<not> (tree_facet a \<noteq> a \<or> tree_facet b \<noteq> b)"
    by blast
  then show ?case
  proof cases
    case 1
    then show ?thesis by (auto simp: values_root)
  next
    case 2
    with "1.prems" have "tree_subtype (tree_facet a) (tree_facet b) = Yes"
      by (simp add: tree_subtype.simps[of a b])
    with 2 "1.IH"(1) show ?thesis by auto
  next
    case 3
    show ?thesis
    proof (cases "as_union (root a)")
      case (Some ms)
      with 3 "1.prems" have "\<forall>m \<in> set ms. tree_subtype m b = Yes"
        by (auto simp: tree_subtype.simps[of a b] simp del: as_union_Some)
      with 3 Some "1.IH"(3) show ?thesis by (fastforce simp: values_root)
    next
      case None
      with 3 "1.prems" obtain ms m where "as_union (root b) = Some ms" "m \<in> set ms" "tree_subtype a m = Yes"
        by (auto simp: tree_subtype.simps[of a b] simp del: as_union_Some split: option.splits)
      with 3 None "1.IH"(2)[OF _ _ _ _ None] show ?thesis by (fastforce simp: values_root)
    qed
  qed
qed

section \<open>The operations as set operations\<close>

lemma set_canonical_members [simp]: "set (canonical_members ms) = set ms"
  by (simp add: canonical_members_def)

lemma values_flat_union: "(\<Union>m \<in> set (flat_union t). values v m) = values v t"
proof (induction t)
  case (Node t)
  show ?case
  proof (cases "as_union t")
    case (Some ms)
    with Node[of m for m] show ?thesis
      by (auto simp: flat_union.simps values_root set_as_union)
  qed (auto simp: flat_union.simps)
qed

lemma values_flat_intersection: "(\<Inter>m \<in> set (flat_intersection t). values v m) = values v t"
proof (induction t)
  case (Node t)
  show ?case
  proof (cases "as_intersection t")
    case (Some ms)
    then have "(\<Inter>m \<in> set (flat_intersection (Node t)). values v m) =
        (\<Inter>m \<in> set ms. \<Inter>x \<in> set (flat_intersection m). values v x)"
      by (auto simp: flat_intersection.simps)
    also have "\<dots> = values v (Node t)"
      using Some Node by (auto simp: values_root)
    finally show ?thesis .
  qed (auto simp: flat_intersection.simps)
qed

lemma values_tree_union: "values v (tree_union ms) = (\<Union>m \<in> set ms. values v m)"
proof -
  have "(\<Union>m \<in> set (canonical_members ms). values v m) = (\<Union>m \<in> set ms. values v m)" by simp
  then show ?thesis
    by (cases "canonical_members ms" rule: remdups_adj.cases)
       (auto simp: tree_union_def simp del: set_canonical_members)
qed

lemma values_tree_intersection: "values v (tree_intersection ms) = (\<Inter>m \<in> set ms. values v m)"
proof -
  have "(\<Inter>m \<in> set (canonical_members ms). values v m) = (\<Inter>m \<in> set ms. values v m)" by simp
  then show ?thesis
    by (cases "canonical_members ms" rule: remdups_adj.cases)
       (auto simp: tree_intersection_def simp del: set_canonical_members)
qed

lemma join_values: "values v (tree_join a b) = values v a \<union> values v b"
proof (induction a b rule: tree_join.induct)
  case (1 a b)
  then show ?case
    by (subst tree_join.simps)
       (auto simp: values_tree_union values_flat_union values_root simp del: as_dynamic_type_Some
         split: option.splits simp flip: as_dynamic_type_Some)
qed


lemma meet_values: "values v (tree_meet a b) = values v a \<inter> values v b"
proof (induction a b rule: tree_meet.induct)
  case (1 a b)
  then show ?case
    by (subst tree_meet.simps)
       (auto simp: values_tree_intersection values_flat_intersection INF_union values_root
         simp del: as_dynamic_type_Some split: option.splits simp flip: as_dynamic_type_Some)
qed

lemma difference_values: "values v (tree_difference a b) = values v a - values v b"
proof (induction a b rule: tree_difference.induct)
  case (1 a b)
  show ?case
  proof (cases "a = Node Bottom \<or> b = Node Bottom \<or> a = b")
    case True
    then show ?thesis by (subst tree_difference.simps) auto
  next
    case False
    then show ?thesis
      using "1.IH"
      by (subst tree_difference.simps) (auto simp: values_root split: option.splits)
  qed
qed

lemma normalize_values: "values v (tree_normalize t) = values v t"
proof (induction t)
  case (Node t)
  show ?case
  proof (cases "as_union t")
    case (Some ms)
    have "values v (tree_normalize (Node t)) =
        (\<Union>m \<in> set ms. \<Union>x \<in> set (flat_union (tree_normalize m)). values v x)"
      using Some by (simp add: tree_normalize.simps values_tree_union)
    also have "\<dots> = (\<Union>m \<in> set ms. values v m)"
      using Node Some by (simp add: values_flat_union)
    finally show ?thesis using Some by simp
  next
    case nu: None
    show ?thesis
    proof (cases "as_intersection t")
      case (Some ms)
      have "values v (tree_normalize (Node t)) =
          (\<Inter>m \<in> set ms. \<Inter>x \<in> set (flat_intersection (tree_normalize m)). values v x)"
        using nu Some by (auto simp: tree_normalize.simps values_tree_intersection)
      also have "\<dots> = (\<Inter>m \<in> set ms. values v m)"
        using Node Some by (simp add: values_flat_intersection)
      finally show ?thesis using Some by simp
    next
      case ni: None
      show ?thesis
      proof (cases "as_dynamic_type t")
        case (Some f)
        with Node nu ni show ?thesis by (simp add: tree_normalize.simps)
      next
        case None
        with nu ni show ?thesis by (simp add: tree_normalize.simps)
      qed
    qed
  qed
qed

section \<open>Canonical form\<close>

text \<open>\<open>normal t\<close>: under the \<open>Dynamic\<close> wrappers and through unions and intersections, every member
  list is strictly sorted (so duplicate free), has at least two members, is flat and holds
  neither the unit nor the absorbing element of its connective.\<close>

fun normal :: "tree \<Rightarrow> bool" where
  "normal (Node t) =
     (case as_union t of
        Some ms \<Rightarrow> 2 \<le> length ms \<and> sorted_wrt (\<lambda>x y. tree_cmp x y = Less) ms \<and>
          (\<forall>m \<in> set ms. normal m \<and> as_union (root m) = None \<and> root m \<noteq> Bottom \<and> root m \<noteq> Top)
      | None \<Rightarrow> (case as_intersection t of
        Some ms \<Rightarrow> 2 \<le> length ms \<and> sorted_wrt (\<lambda>x y. tree_cmp x y = Less) ms \<and>
          (\<forall>m \<in> set ms. normal m \<and> as_intersection (root m) = None \<and> root m \<noteq> Bottom \<and> root m \<noteq> Top)
      | None \<Rightarrow> (case as_dynamic_type t of Some f \<Rightarrow> normal f | None \<Rightarrow> True)))"

declare normal.simps [simp del]

lemma canonical_members_strict: "sorted_wrt (\<lambda>x y. tree_cmp x y = Less) (canonical_members ms)"
  unfolding canonical_members_def
  by (intro tree_order.remdups_adj_strict tree_order.sorted_sort_by)

lemma canonical_members_cong: "set ms = set ns \<Longrightarrow> canonical_members ms = canonical_members ns"
  unfolding canonical_members_def by (rule tree_order.canonical)

lemma canonical_members_sorted:
  "sorted_wrt (\<lambda>x y. tree_cmp x y = Less) ms \<Longrightarrow> canonical_members ms = ms"
  unfolding canonical_members_def by (rule tree_order.canonical_strict)

lemma tree_union_cong: "set ms = set ns \<Longrightarrow> tree_union ms = tree_union ns"
  using canonical_members_cong[of ms ns] by (simp add: tree_union_def)

lemma tree_intersection_cong: "set ms = set ns \<Longrightarrow> tree_intersection ms = tree_intersection ns"
  using canonical_members_cong[of ms ns] by (simp add: tree_intersection_def)

text \<open>The members collected from a normal tree are normal and flat.\<close>

lemma normal_atoms [simp]: "normal (Node Top)" "normal (Node Bottom)"
  by (simp_all add: normal.simps)

lemma normal_members:
  assumes "normal (Node t)" "as_union t = Some ms" "m \<in> set ms"
  shows "normal m" "as_union (root m) = None" "root m \<noteq> Bottom" "root m \<noteq> Top"
  using assms by (auto simp: normal.simps)

lemma normal_imembers:
  assumes "normal (Node t)" "as_intersection t = Some ms" "m \<in> set ms"
  shows "normal m" "as_intersection (root m) = None" "root m \<noteq> Bottom" "root m \<noteq> Top"
  using assms by (auto simp: normal.simps)

lemma flat_union_flat:
  assumes "as_union (root m) = None" "root m \<noteq> Bottom"
  shows "flat_union m = [m]"
  using assms by (cases m) (simp add: flat_union.simps)

lemma flat_intersection_flat:
  assumes "as_intersection (root m) = None" "root m \<noteq> Top"
  shows "flat_intersection m = [m]"
  using assms by (cases m) (simp add: flat_intersection.simps)

lemma concat_singletons: "(\<And>m. m \<in> set ms \<Longrightarrow> f m = [m]) \<Longrightarrow> concat (map f ms) = ms"
  by (induction ms) auto

lemma flat_union_normal:
  assumes "normal t"
  shows "flat_union t = (if t = Node Bottom then [] else case as_union (root t) of Some ms \<Rightarrow> ms | None \<Rightarrow> [t])"
proof (cases "as_union (root t)")
  case (Some ms)
  have "concat (map flat_union ms) = ms"
    using normal_members[of "root t" ms] assms Some
    by (intro concat_singletons flat_union_flat) auto
  with Some show ?thesis by (cases t) (simp add: flat_union.simps)
next
  case None
  then show ?thesis by (cases t) (simp add: flat_union.simps)
qed

lemma flat_intersection_normal:
  assumes "normal t"
  shows "flat_intersection t =
    (if t = Node Top then [] else case as_intersection (root t) of Some ms \<Rightarrow> ms | None \<Rightarrow> [t])"
proof (cases "as_intersection (root t)")
  case (Some ms)
  have "as_union (root t) = None" using Some by (cases "root t") auto
  have "concat (map flat_intersection ms) = ms"
    using normal_imembers[of "root t" ms] assms Some
    by (intro concat_singletons flat_intersection_flat) auto
  with Some show ?thesis by (cases t) (simp add: flat_intersection.simps)
next
  case None
  then show ?thesis by (cases t) (simp add: flat_intersection.simps)
qed

text \<open>What one collected member may look like.\<close>

definition union_member :: "tree \<Rightarrow> bool" where
  "union_member m \<longleftrightarrow> normal m \<and> as_union (root m) = None \<and> root m \<noteq> Bottom"

definition intersection_member :: "tree \<Rightarrow> bool" where
  "intersection_member m \<longleftrightarrow> normal m \<and> as_intersection (root m) = None \<and> root m \<noteq> Top"

lemma flat_union_members: "normal t \<Longrightarrow> \<forall>m \<in> set (flat_union t). union_member m"
  by (cases t) (auto simp: flat_union_normal union_member_def normal_members
    simp del: as_union_Some split: option.splits)

lemma flat_intersection_members: "normal t \<Longrightarrow> \<forall>m \<in> set (flat_intersection t). intersection_member m"
  by (cases t) (auto simp: flat_intersection_normal intersection_member_def normal_imembers
    simp del: as_intersection_Some split: option.splits)

lemma length_ge_2_cases: "ms \<noteq> [] \<Longrightarrow> (\<forall>m. ms \<noteq> [m]) \<Longrightarrow> 2 \<le> length ms"
  by (cases ms rule: remdups_adj.cases) auto

lemma tree_union_normal:
  assumes "\<forall>m \<in> set ms. union_member m"
  shows "normal (tree_union ms)"
proof (cases "Node Top \<in> set ms")
  case False
  let ?c = "canonical_members ms"
  have mem: "normal m" "as_union (root m) = None" "root m \<noteq> Bottom" "root m \<noteq> Top" if "m \<in> set ?c" for m
    using assms that False by (auto simp: union_member_def) (metis tree.collapse)
  show ?thesis
    using mem False canonical_members_strict[of ms]
    by (cases ?c rule: remdups_adj.cases)
       (auto simp: tree_union_def normal.simps simp del: set_canonical_members)
qed (simp add: tree_union_def)

lemma tree_intersection_normal:
  assumes "\<forall>m \<in> set ms. intersection_member m"
  shows "normal (tree_intersection ms)"
proof (cases "Node Bottom \<in> set ms")
  case False
  let ?c = "canonical_members ms"
  have mem: "normal m" "as_intersection (root m) = None" "root m \<noteq> Bottom" "root m \<noteq> Top"
    if "m \<in> set ?c" for m
    using assms that False by (auto simp: intersection_member_def) (metis tree.collapse)
  show ?thesis
    using mem False canonical_members_strict[of ms]
    by (cases ?c rule: remdups_adj.cases)
       (auto simp: tree_intersection_def normal.simps simp del: set_canonical_members)
qed (simp add: tree_intersection_def)

lemma normalize_normal: "normal (tree_normalize t)"
proof (induction t)
  case (Node t)
  show ?case
  proof (cases "as_union t")
    case (Some ms)
    have "\<forall>x \<in> set (concat (map (\<lambda>m. flat_union (tree_normalize m)) ms)). union_member x"
      using Node[OF set_as_union[OF Some]] flat_union_members by auto
    with Some show ?thesis by (simp add: tree_normalize.simps tree_union_normal)
  next
    case nu: None
    show ?thesis
    proof (cases "as_intersection t")
      case (Some ms)
      have "\<forall>x \<in> set (concat (map (\<lambda>m. flat_intersection (tree_normalize m)) ms)). intersection_member x"
        using Node[OF set_as_intersection[OF Some]] flat_intersection_members by auto
      with nu Some show ?thesis by (auto simp: tree_normalize.simps tree_intersection_normal)
    next
      case ni: None
      then show ?thesis
        using nu Node[OF set_as_dynamic]
        by (cases "as_dynamic_type t") (auto simp: tree_normalize.simps normal.simps)
    qed
  qed
qed

lemma normalize_fixed: "normal t \<Longrightarrow> tree_normalize t = t"
proof (induction t)
  case (Node t)
  show ?case
  proof (cases "as_union t")
    case (Some ms)
    have fixed: "flat_union (tree_normalize m) = [m]" if "m \<in> set ms" for m
      using Node.IH[OF set_as_union[OF Some that]] normal_members[OF Node.prems Some that]
      by (simp add: flat_union_flat)
    then have "concat (map (\<lambda>m. flat_union (tree_normalize m)) ms) = ms" by (rule concat_singletons)
    moreover have "tree_union ms = Node (Union ms)"
      using Node.prems Some canonical_members_sorted[of ms]
      by (cases ms rule: remdups_adj.cases) (auto simp: tree_union_def normal.simps)
    ultimately show ?thesis using Some by (simp add: tree_normalize.simps)
  next
    case nu: None
    show ?thesis
    proof (cases "as_intersection t")
      case (Some ms)
      have fixed: "flat_intersection (tree_normalize m) = [m]" if "m \<in> set ms" for m
        using Node.IH[OF set_as_intersection[OF Some that]] normal_imembers[OF Node.prems Some that]
        by (simp add: flat_intersection_flat)
      then have "concat (map (\<lambda>m. flat_intersection (tree_normalize m)) ms) = ms" by (rule concat_singletons)
      moreover have "tree_intersection ms = Node (Intersection ms)"
        using Node.prems nu Some canonical_members_sorted[of ms]
        by (cases ms rule: remdups_adj.cases) (auto simp: tree_intersection_def normal.simps)
      ultimately show ?thesis using nu Some by (simp add: tree_normalize.simps)
    next
      case ni: None
      then show ?thesis
        using nu Node by (cases "as_dynamic_type t") (auto simp: tree_normalize.simps normal.simps)
    qed
  qed
qed

section \<open>Lattice laws\<close>

lemma join_same [simp]: "tree_join a a = a"
  by (subst tree_join.simps) simp

lemma meet_same [simp]: "tree_meet a a = a"
  by (subst tree_meet.simps) simp

lemma join_comm: "tree_join a b = tree_join b a"
proof (induction a b rule: tree_join.induct)
  case (1 a b)
  have "tree_union (flat_union a @ flat_union b) = tree_union (flat_union b @ flat_union a)"
    by (rule tree_union_cong) auto
  then show ?case
    using "1.IH" by (subst (1 2) tree_join.simps) (auto split: option.splits)
qed

lemma meet_comm: "tree_meet a b = tree_meet b a"
proof (induction a b rule: tree_meet.induct)
  case (1 a b)
  have "tree_intersection (flat_intersection a @ flat_intersection b) =
      tree_intersection (flat_intersection b @ flat_intersection a)"
    by (rule tree_intersection_cong) auto
  then show ?case
    using "1.IH" by (subst (1 2) tree_meet.simps) (auto split: option.splits)
qed

lemma join_normal: "normal a \<Longrightarrow> normal b \<Longrightarrow> normal (tree_join a b)"
proof (induction a b rule: tree_join.induct)
  case (1 a b)
  have "\<forall>m \<in> set (flat_union a @ flat_union b). union_member m"
    using "1.prems" flat_union_members by auto
  note u = tree_union_normal[OF this]
  have d: "normal f" if "as_dynamic_type (root t) = Some f" "normal t" for t f
    using that by (cases t) (auto simp: normal.simps)
  have w: "normal f \<Longrightarrow> normal (Node (Dynamic f))" for f by (simp add: normal.simps)
  show ?case
    using "1.IH" "1.prems" u d w
    by (subst tree_join.simps) (auto simp del: as_dynamic_type_Some split: option.splits)
qed

end
