(* ===== verification/Subtype_Laws.thy ===== *)
theory Subtype_Laws
  imports Lattice_Laws
begin

text \<open>
  Laws that tie the relations to the lattice: proven subtyping is transitive, it never answers
  \<open>No\<close> on a normal right-hand side, join is associative on normal types and is an upper bound
  the subtype relation can prove.
\<close>

section \<open>Subtyping modulo \<open>Dynamic\<close> wrappers\<close>

fun strip :: "tree \<Rightarrow> tree" where
  "strip (Node t) = (case as_dynamic_type t of Some f \<Rightarrow> strip f | None \<Rightarrow> Node t)"

declare strip.simps [simp del]

lemma strip_None: "dyn t = None \<Longrightarrow> strip t = t"
  by (cases t) (simp add: strip.simps)

lemma strip_Some: "dyn t = Some f \<Longrightarrow> strip t = strip f"
  by (cases t) (simp add: strip.simps del: as_dynamic_type_Some)

lemma dyn_strip: "dyn (strip t) = None"
proof (induction t)
  case (Node t)
  then show ?case
    using set_as_dynamic by (cases "as_dynamic_type t") (auto simp: strip.simps)
qed

lemma strip_facet: "strip (tree_facet t) = strip t"
  by (cases "dyn t") (simp_all add: tree_facet_def strip_Some del: as_dynamic_type_Some)

lemma strip_cases:
  obtains "strip t = t" "tree_facet t = t" | "tree_facet t \<noteq> t"
proof (cases "dyn t")
  case None
  then show thesis using that by (simp add: tree_facet_def strip_None)
next
  case (Some f)
  then have "tree_facet t \<noteq> t" using size_dyn[OF Some] by (auto simp: tree_facet_def)
  then show thesis using that by blast
qed

lemma strip_strip [simp]: "strip (strip t) = strip t"
  by (simp add: dyn_strip strip_None)

lemma facet_strip [simp]: "tree_facet (strip t) = strip t"
  by (simp add: tree_facet_def dyn_strip)

lemma size_strip: "size (strip t) \<le> size t"
proof (induction t)
  case (Node t)
  show ?case
  proof (cases "as_dynamic_type t")
    case (Some f)
    with Node[OF set_as_dynamic[OF Some]] size_dyn[of "Node t" f] show ?thesis
      by (simp add: strip.simps)
  qed (simp add: strip.simps)
qed

lemma root_atom_strip: "root t = Bottom \<or> root t = Top \<Longrightarrow> strip t = t"
  by (rule strip_None) auto

lemma subtype_refl [simp]: "tree_subtype a a = Yes"
  by (subst tree_subtype.simps) simp

lemma subtype_Bottom: "root a = Bottom \<Longrightarrow> tree_subtype a b = Yes"
  by (subst tree_subtype.simps) simp

lemma subtype_Top: "root b = Top \<Longrightarrow> tree_subtype a b = Yes"
  by (subst tree_subtype.simps) simp

lemma subtype_strip: "tree_subtype a b = tree_subtype (strip a) (strip b)"
proof (induction a b rule: tree_subtype.induct)
  case (1 a b)
  consider "a = b" | "root a = Bottom" | "root b = Top"
    | "\<not> (a = b \<or> root a = Bottom \<or> root b = Top)" "tree_facet a \<noteq> a \<or> tree_facet b \<noteq> b"
    | "strip a = a" "strip b = b"
    using strip_cases[of a] strip_cases[of b] by metis
  then show ?case
  proof cases
    case 2
    then show ?thesis
      using root_atom_strip[of a] by (simp add: subtype_Bottom)
  next
    case 3
    then show ?thesis
      using root_atom_strip[of b] by (simp add: subtype_Top)
  next
    case 4
    with "1.IH"(1) show ?thesis
      by (subst tree_subtype.simps) (auto simp: strip_facet)
  qed simp_all
qed

text \<open>One step of a proven answer, between types without an outer wrapper.\<close>

lemma subtype_Yes_iff:
  assumes "strip a = a" "strip b = b"
  shows "tree_subtype a b = Yes \<longleftrightarrow>
    a = b \<or> root a = Bottom \<or> root b = Top \<or>
    (case as_union (root a) of
       Some ms \<Rightarrow> \<forall>m \<in> set ms. tree_subtype m b = Yes
     | None \<Rightarrow> (case as_union (root b) of
         Some ms \<Rightarrow> \<exists>m \<in> set ms. tree_subtype a m = Yes
       | None \<Rightarrow> False))"
proof -
  have "tree_facet a = a" "tree_facet b = b"
    using assms facet_strip[of a] facet_strip[of b] by simp_all
  then show ?thesis
    by (subst tree_subtype.simps)
       (auto simp: image_iff eq_commute[of Yes] simp del: as_union_Some split: option.splits)
qed

lemma size_union_member: "as_union (root t) = Some ms \<Longrightarrow> m \<in> set ms \<Longrightarrow> size m < size t"
  by (rule size_kid) (rule set_as_union)

lemma subtype_trans_stripped:
  "strip a = a \<Longrightarrow> strip b = b \<Longrightarrow> strip c = c \<Longrightarrow>
   tree_subtype a b = Yes \<Longrightarrow> tree_subtype b c = Yes \<Longrightarrow> tree_subtype a c = Yes"
proof (induction "size a + size b + size c" arbitrary: a b c rule: less_induct)
  case less
  have IH: "tree_subtype x z = Yes"
    if "size x + size y + size z < size a + size b + size c" "tree_subtype x y = Yes" "tree_subtype y z = Yes"
    for x y z
  proof -
    have "size (strip x) + size (strip y) + size (strip z) < size a + size b + size c"
      using that(1) size_strip[of x] size_strip[of y] size_strip[of z] by linarith
    then show ?thesis
      using less.hyps[of "strip x" "strip y" "strip z"] that(2,3) by (simp add: subtype_strip[symmetric])
  qed
  note ab = subtype_Yes_iff[OF less.prems(1,2)] and bc = subtype_Yes_iff[OF less.prems(2,3)]
    and ac = subtype_Yes_iff[OF less.prems(1,3)]
  show ?case
  proof (cases "a = b \<or> b = c \<or> root a = Bottom \<or> root c = Top")
    case True
    then show ?thesis using less.prems(4,5) ac by auto
  next
    case F: False
    show ?thesis
    proof (cases "as_union (root a)")
      case (Some as)
      have "tree_subtype x b = Yes" if "x \<in> set as" for x
        using less.prems(4) ab F Some that by (auto simp: subtype_Top)
      then have "\<forall>x \<in> set as. tree_subtype x c = Yes"
        using IH[OF _ _ less.prems(5)] size_union_member[OF Some] by fastforce
      with Some ac show ?thesis by auto
    next
      case None
      show ?thesis
      proof (cases "root b = Top")
        case True
        with less.prems(5) bc F obtain cs z where z: "as_union (root c) = Some cs" "z \<in> set cs"
          "tree_subtype b z = Yes"
          by (auto split: option.splits)
        have "tree_subtype a z = Yes"
          using IH[OF _ less.prems(4) z(3)] size_union_member[OF z(1,2)] by simp
        with None z ac show ?thesis by auto
      next
        case False
        with less.prems(4) ab F None obtain bs y where y: "as_union (root b) = Some bs" "y \<in> set bs"
          "tree_subtype a y = Yes"
          by (auto split: option.splits)
        with less.prems(5) bc F have "tree_subtype y c = Yes" by (auto split: option.splits)
        then show ?thesis using IH[OF _ y(3)] size_union_member[OF y(1,2)] by simp
      qed
    qed
  qed
qed

lemma subtype_trans: "tree_subtype a b = Yes \<Longrightarrow> tree_subtype b c = Yes \<Longrightarrow> tree_subtype a c = Yes"
  using subtype_trans_stripped[of "strip a" "strip b" "strip c"] by (simp add: subtype_strip[symmetric])

section \<open>Union members\<close>

lemma subtype_union_left:
  assumes "as_union (root a) = Some ms" "\<forall>m \<in> set ms. tree_subtype m b = Yes"
  shows "tree_subtype a b = Yes"
proof -
  have "strip a = a" using assms(1) by (intro strip_None) (cases "root a"; simp)
  moreover have "\<forall>m \<in> set ms. tree_subtype m (strip b) = Yes"
    using assms(2) subtype_strip by (metis strip_strip)
  ultimately show ?thesis
    using assms(1) subtype_Yes_iff[of a "strip b"] subtype_strip[of a b] by auto
qed

lemma subtype_member:
  "tree_subtype x m = Yes \<Longrightarrow> m \<in> set ms \<Longrightarrow> tree_subtype x (Node (Union ms)) = Yes"
proof (induction "size x" arbitrary: x m ms rule: less_induct)
  case less
  let ?u = "Node (Union ms)"
  have su: "strip ?u = ?u" by (simp add: strip.simps)
  have xm: "tree_subtype (strip x) m = Yes"
    using less.prems(1) subtype_strip by (metis strip_strip)
  have "tree_subtype (strip x) ?u = Yes"
  proof (cases "as_union (root (strip x))")
    case None
    then show ?thesis using xm less.prems(2) subtype_Yes_iff[of "strip x" ?u] su by auto
  next
    case (Some xs)
    have "tree_subtype y ?u = Yes" if y: "y \<in> set xs" for y
    proof -
      have sy: "size y < size x" using size_union_member[OF Some y] size_strip[of x] by simp
      have "strip x = Node (Union xs)" using Some by (cases "strip x") simp
      then have "tree_subtype y (strip x) = Yes" using less.hyps[OF sy, of y xs] y by simp
      with xm have "tree_subtype y m = Yes" by (rule subtype_trans[rotated])
      then show ?thesis using less.hyps[OF sy] less.prems(2) by blast
    qed
    with Some show ?thesis by (intro subtype_union_left) auto
  qed
  then show ?case using subtype_strip[of x ?u] unfolding su by simp
qed

section \<open>No proven disproofs\<close>

text \<open>The relation answers \<open>No\<close> only against a union without members, which no canonical
  builder makes.\<close>

function no_empty_union :: "tree \<Rightarrow> bool" where
  "no_empty_union (Node t) \<longleftrightarrow> t \<noteq> Union [] \<and> (\<forall>x \<in> set_Type t. no_empty_union x)"
  by pat_completeness auto
termination
  by (relation "measure size") (auto dest: size_kid[of _ "Node t" for t, simplified])

lemma no_empty_union_kid: "no_empty_union a \<Longrightarrow> x \<in> set_Type (root a) \<Longrightarrow> no_empty_union x"
  by (cases a) simp

lemma no_empty_union_facet: "no_empty_union a \<Longrightarrow> no_empty_union (tree_facet a)"
  by (auto simp: tree_facet_def split: option.splits intro: no_empty_union_kid set_as_dynamic)

lemma subtype_not_No: "no_empty_union b \<Longrightarrow> tree_subtype a b \<noteq> No"
proof (induction a b rule: tree_subtype.induct)
  case (1 a b)
  let ?c = "a = b \<or> root a = Bottom \<or> root b = Top"
  consider ?c | "\<not> ?c" "tree_facet a \<noteq> a \<or> tree_facet b \<noteq> b" | "\<not> ?c" "tree_facet a = a" "tree_facet b = b"
    by blast
  then show ?case
  proof cases
    case 1
    then show ?thesis by (auto simp: subtype_Bottom subtype_Top)
  next
    case 2
    then have "tree_subtype a b = tree_subtype (tree_facet a) (tree_facet b)"
      by (subst tree_subtype.simps) auto
    with 2 "1.IH"(1) no_empty_union_facet[OF "1.prems"] show ?thesis by auto
  next
    case 3
    show ?thesis
    proof (cases "as_union (root a)")
      case (Some as)
      with 3 have "tree_subtype a b = foldl certainty_and Yes (map (\<lambda>m. tree_subtype m b) as)"
        by (subst tree_subtype.simps) auto
      moreover have "tree_subtype m b \<noteq> No" if "m \<in> set as" for m
        using "1.IH"(3)[OF _ _ _ _ Some that] 3 "1.prems" by auto
      ultimately show ?thesis by (auto simp: eq_commute[of No])
    next
      case None
      show ?thesis
      proof (cases "as_union (root b)")
        case bs: (Some bs)
        have "bs \<noteq> []" using "1.prems" bs by (cases b) auto
        then obtain m where m: "m \<in> set bs" by (cases bs) auto
        have "tree_subtype a b = foldl certainty_or No (map (\<lambda>m. tree_subtype a m) bs)"
          using 3 None bs by (subst tree_subtype.simps) auto
        moreover have "tree_subtype a m \<noteq> No"
          using "1.IH"(2)[OF _ _ _ _ None bs m] 3 no_empty_union_kid[OF "1.prems" set_as_union[OF bs m]]
          by auto
        ultimately show ?thesis using m by auto
      next
        case None': None
        with 3 None have "tree_subtype a b = Maybe" by (subst tree_subtype.simps) auto
        then show ?thesis by simp
      qed
    qed
  qed
qed


section \<open>Join on normal types\<close>

lemma dyn_normal: "normal t \<Longrightarrow> dyn t = Some f \<Longrightarrow> normal f"
  by (cases t) (auto simp: normal.simps)

text \<open>Without the equality shortcut: on normal types join is given by the wrappers alone.\<close>

definition plain :: "tree \<Rightarrow> bool" where
  "plain t \<longleftrightarrow> root t \<noteq> Bottom \<and> root t \<noteq> Top"

lemma plain_iff: "plain t \<longleftrightarrow> t \<noteq> Node Bottom \<and> t \<noteq> Node Top"
  by (cases t) (simp add: plain_def)

lemma dyn_plain: "dyn t = Some f \<Longrightarrow> plain t"
  by (cases t) (auto simp: plain_def)

lemma join_Bottom [simp]: "tree_join (Node Bottom) b = b" "tree_join a (Node Bottom) = a"
  by (subst tree_join.simps; simp)+

lemma join_Top [simp]: "tree_join (Node Top) b = Node Top" "tree_join a (Node Top) = Node Top"
  by (subst tree_join.simps; simp)+

lemma tree_union_flat:
  assumes "normal t" "t \<noteq> Node Top"
  shows "tree_union (flat_union t) = t"
proof (cases "as_union (root t)")
  case (Some ms)
  then have "t = Node (Union ms)" by (cases t) simp
  with assms Some show ?thesis
    using canonical_members_sorted[of ms]
    by (cases ms rule: remdups_adj.cases)
       (auto simp: flat_union_normal tree_union_def normal.simps)
next
  case None
  with assms show ?thesis
    by (auto simp: flat_union_normal tree_union_def canonical_members_def)
qed

lemma join_static:
  assumes "normal a" "normal b" "plain a" "plain b" "dyn a = None" "dyn b = None"
  shows "tree_join a b = tree_union (flat_union a @ flat_union b)"
proof (cases "a = b")
  case True
  have "tree_union (flat_union b @ flat_union b) = tree_union (flat_union b)"
    by (rule tree_union_cong) simp
  with True assms tree_union_flat[of b] show ?thesis by (simp add: plain_iff)
next
  case False
  with assms show ?thesis by (subst tree_join.simps) (auto simp: plain_iff)
qed

lemma join_dynamic:
  assumes "plain a" "plain b" "dyn a \<noteq> None \<or> dyn b \<noteq> None"
  shows "tree_join a b = Node (Dynamic (tree_join (tree_facet a) (tree_facet b)))"
proof (cases "a = b")
  case True
  with assms obtain f where "dyn a = Some f" by auto
  with True show ?thesis by (cases a) (auto simp: tree_facet_def)
next
  case False
  with assms show ?thesis
    by (subst tree_join.simps)
       (auto simp: plain_iff tree_facet_def simp del: as_dynamic_type_Some split: option.splits)
qed

lemma flat_plain:
  assumes "normal a" "plain a" "dyn a = None"
  shows "flat_union a \<noteq> []" "Node Top \<notin> set (flat_union a)" "length (flat_union a) = 1 \<Longrightarrow> flat_union a = [a]"
proof -
  have ms: "2 \<le> length ms" "Node Top \<notin> set ms" if "as_union (root a) = Some ms" for ms
    using assms(1) that normal_members[of "root a" ms "Node Top"] by (cases a; auto simp: normal.simps)+
  show "flat_union a \<noteq> []" "Node Top \<notin> set (flat_union a)" "length (flat_union a) = 1 \<Longrightarrow> flat_union a = [a]"
    using assms ms by (auto simp: flat_union_normal plain_iff simp del: as_union_Some split: option.splits)
qed

lemma join_static_shape:
  assumes a: "normal a" "plain a" "dyn a = None" and b: "normal b" "plain b" "dyn b = None"
  shows "plain (tree_join a b)" "dyn (tree_join a b) = None"
    "set (flat_union (tree_join a b)) = set (flat_union a) \<union> set (flat_union b)"
proof -
  let ?ms = "flat_union a @ flat_union b"
  let ?c = "canonical_members ?ms"
  have j: "tree_join a b = tree_union ?ms" using assms by (intro join_static)
  have n: "normal (tree_join a b)" using a b by (intro join_normal)
  have sc: "set ?c = set ?ms" by simp
  have top: "Node Top \<notin> set ?ms" using flat_plain[OF a] flat_plain[OF b] by auto
  have "plain (tree_join a b) \<and> dyn (tree_join a b) = None \<and>
    set (flat_union (tree_join a b)) = set (flat_union a) \<union> set (flat_union b)"
  proof (cases ?c rule: remdups_adj.cases)
    case 1
    with sc flat_plain[OF a] show ?thesis by (metis append_is_Nil_conv set_empty)
  next
    case (2 m)
    have un: "set (flat_union a) \<union> set (flat_union b) = {m}" using sc 2 by simp
    then have sub: "set (flat_union a) \<subseteq> {m}" and fb: "set (flat_union b) \<subseteq> {m}" by (metis Un_upper1, metis Un_upper2)
    have "set (flat_union a) \<noteq> {}" using flat_plain(1)[OF a] by simp
    with sub have fa: "set (flat_union a) = {m}" by (simp add: subset_singleton_iff)
    have "a = tree_union (flat_union a)" using tree_union_flat[OF a(1)] a(2) by (simp add: plain_iff)
    also have "\<dots> = tree_union ?ms" using fa fb by (intro tree_union_cong) auto
    finally have "tree_join a b = a" using j by simp
    with a fa fb show ?thesis by auto
  next
    case (3 x y zs)
    then have "tree_join a b = Node (Union ?c)" using j top by (simp add: tree_union_def)
    with n sc show ?thesis by (auto simp: plain_def flat_union_normal)
  qed
  then show "plain (tree_join a b)" "dyn (tree_join a b) = None"
    "set (flat_union (tree_join a b)) = set (flat_union a) \<union> set (flat_union b)" by auto
qed

text \<open>Join is associative on normal types.\<close>

lemma tree_facet_normal: "normal t \<Longrightarrow> normal (tree_facet t)"
  by (auto simp: tree_facet_def split: option.splits dest: dyn_normal)

lemma size_facet: "dyn t \<noteq> None \<Longrightarrow> size (tree_facet t) < size t" "size (tree_facet t) \<le> size t"
  by (auto simp: tree_facet_def simp del: as_dynamic_type_Some split: option.splits dest: size_dyn less_imp_le)

lemma facet_static: "dyn t = None \<Longrightarrow> tree_facet t = t"
  by (simp add: tree_facet_def)

lemma join_plain:
  assumes "normal a" "normal b" "plain a" "plain b"
  shows "plain (tree_join a b)"
proof (cases "dyn a = None \<and> dyn b = None")
  case True
  with assms show ?thesis by (simp add: join_static_shape)
next
  case False
  with assms show ?thesis by (auto simp: join_dynamic plain_def)
qed

lemma join_facet_dynamic:
  assumes "plain a" "plain b" "dyn a \<noteq> None \<or> dyn b \<noteq> None"
  shows "dyn (tree_join a b) \<noteq> None" "tree_facet (tree_join a b) = tree_join (tree_facet a) (tree_facet b)"
  using join_dynamic[OF assms] by (simp_all add: tree_facet_def)

lemma join_facet:
  assumes "normal a" "normal b" "plain a" "plain b"
  shows "tree_facet (tree_join a b) = tree_join (tree_facet a) (tree_facet b)"
  using assms join_facet_dynamic[of a b] join_static_shape[of a b]
  by (cases "dyn a = None \<and> dyn b = None") (auto simp: facet_static)

lemma join_static_assoc:
  assumes a: "normal a" "plain a" "dyn a = None" and b: "normal b" "plain b" "dyn b = None"
    and c: "normal c" "plain c" "dyn c = None"
  shows "tree_join (tree_join a b) c = tree_join a (tree_join b c)"
proof -
  note ab = join_static_shape[OF a b] and bc = join_static_shape[OF b c]
  have "tree_join (tree_join a b) c = tree_union (flat_union (tree_join a b) @ flat_union c)"
    using a b c ab by (intro join_static join_normal)
  also have "\<dots> = tree_union (flat_union a @ flat_union (tree_join b c))"
    using ab bc by (intro tree_union_cong) auto
  also have "\<dots> = tree_join a (tree_join b c)"
    using a b c bc by (intro join_static[symmetric] join_normal)
  finally show ?thesis .
qed

lemma tree_join_assoc:
  "normal a \<Longrightarrow> normal b \<Longrightarrow> normal c \<Longrightarrow> tree_join (tree_join a b) c = tree_join a (tree_join b c)"
proof (induction "size a + size b + size c" arbitrary: a b c rule: less_induct)
  case less
  consider "\<not> plain a \<or> \<not> plain b \<or> \<not> plain c"
    | (static) "plain a" "plain b" "plain c" "dyn a = None" "dyn b = None" "dyn c = None"
    | (dynamic) "plain a" "plain b" "plain c" "dyn a \<noteq> None \<or> dyn b \<noteq> None \<or> dyn c \<noteq> None"
    by blast
  then show ?case
  proof cases
    case 1
    then show ?thesis by (auto simp: plain_iff)
  next
    case static
    with less.prems show ?thesis by (intro join_static_assoc)
  next
    case dynamic
    note pl = join_plain[OF less.prems(1,2) dynamic(1,2)] join_plain[OF less.prems(2,3) dynamic(2,3)]
    have d: "dyn (tree_join a b) \<noteq> None \<or> dyn c \<noteq> None" "dyn a \<noteq> None \<or> dyn (tree_join b c) \<noteq> None"
      using dynamic join_facet_dynamic(1)[of a b] join_facet_dynamic(1)[of b c] by blast+
    have sz: "size (tree_facet a) + size (tree_facet b) + size (tree_facet c) < size a + size b + size c"
      using dynamic(4) size_facet[of a] size_facet[of b] size_facet[of c] by (elim disjE) linarith+
    have "tree_join (tree_join a b) c
        = Node (Dynamic (tree_join (tree_join (tree_facet a) (tree_facet b)) (tree_facet c)))"
      using join_dynamic[OF pl(1) dynamic(3) d(1)] join_facet[OF less.prems(1,2) dynamic(1,2)] by simp
    also have "\<dots> = Node (Dynamic (tree_join (tree_facet a) (tree_join (tree_facet b) (tree_facet c))))"
      using less.hyps[OF sz] less.prems by (simp add: tree_facet_normal)
    also have "\<dots> = tree_join a (tree_join b c)"
      using join_dynamic[OF dynamic(1) pl(2) d(2)] join_facet[OF less.prems(2,3) dynamic(2,3)] by simp
    finally show ?thesis .
  qed
qed

text \<open>Join is an upper bound that the subtype relation can prove.\<close>

lemma member_of_join:
  assumes a: "normal a" "plain a" "dyn a = None" and b: "normal b" "plain b" "dyn b = None"
    and m: "m \<in> set (flat_union a)"
  shows "tree_subtype m (tree_join a b) = Yes"
proof -
  note sh = join_static_shape[OF a b]
  have mj: "m \<in> set (flat_union (tree_join a b))" using sh(3) m by simp
  have n: "normal (tree_join a b)" using a b by (intro join_normal)
  show ?thesis
  proof (cases "as_union (root (tree_join a b))")
    case (Some ms)
    then have u: "tree_join a b = Node (Union ms)" by (cases "tree_join a b") simp
    then have "m \<in> set ms" using mj n by (simp add: flat_union_normal)
    with u show ?thesis using subtype_member[of m m ms] by simp
  next
    case None
    then have "m = tree_join a b" using mj n sh(1) by (simp add: flat_union_normal plain_iff)
    then show ?thesis by simp
  qed
qed

lemma join_upper: "normal a \<Longrightarrow> normal b \<Longrightarrow> tree_subtype a (tree_join a b) = Yes"
proof (induction "size a + size b" arbitrary: a b rule: less_induct)
  case less
  consider "\<not> plain a \<or> \<not> plain b"
    | (static) "plain a" "plain b" "dyn a = None" "dyn b = None"
    | (dynamic) "plain a" "plain b" "dyn a \<noteq> None \<or> dyn b \<noteq> None"
    by blast
  then show ?case
  proof cases
    case 1
    then show ?thesis by (auto simp: plain_iff subtype_Bottom subtype_Top)
  next
    case static
    show ?thesis
    proof (cases "as_union (root a)")
      case (Some ms)
      have "tree_subtype m (tree_join a b) = Yes" if "m \<in> set ms" for m
        using that Some static less.prems by (intro member_of_join) (auto simp: flat_union_normal)
      with Some show ?thesis using static(3) by (intro subtype_union_left) (auto simp: strip_None)
    next
      case None
      then show ?thesis
        using static less.prems by (intro member_of_join) (auto simp: flat_union_normal plain_iff)
    qed
  next
    case dynamic
    have sz: "size (tree_facet a) + size (tree_facet b) < size a + size b"
      using dynamic(3) size_facet[of a] size_facet[of b] by (elim disjE) linarith+
    have "tree_subtype (tree_facet a) (tree_join (tree_facet a) (tree_facet b)) = Yes"
      using less.hyps[OF sz] less.prems by (simp add: tree_facet_normal)
    then show ?thesis
      using subtype_strip[of a "tree_join a b"] subtype_strip[of "tree_facet a" "tree_facet (tree_join a b)"]
        join_facet[OF less.prems dynamic(1,2)] strip_facet[of "tree_join a b"] by (simp add: strip_facet)
  qed
qed

end
