(* ===== verification/Types_Properties.thy ===== *)
theory Types_Properties
  imports Subtype_Laws
begin

text \<open>
  The properties of the type lattice, stated on the code's handles: hash-consing, the canonical
  order, the certainty discipline, subtyping and the four lattice operations.
\<close>

section \<open>Steps on handles\<close>

text \<open>The arena has room for what one lattice operation on \<open>a\<close> and \<open>b\<close> may intern.\<close>

definition fits :: "Interner \<Rightarrow> TypeId \<Rightarrow> TypeId \<Rightarrow> bool" where
  "fits i a b \<longleftrightarrow> interner_wf i \<and> valid i a \<and> valid i b
     \<and> room i (Suc (dyn_depth (tree_of i a) + dyn_depth (tree_of i b)))"

lemma join_step:
  assumes "fits i a b" "join i a b = Some (c, j)"
  shows "interner_wf j" "extends i j" "valid j c" "tree_of j c = tree_join (tree_of i a) (tree_of i b)"
  using join_tree[of i a b] assms by (auto simp: fits_def yields_def)

lemma meet_step:
  assumes "fits i a b" "meet i a b = Some (c, j)"
  shows "interner_wf j" "extends i j" "valid j c" "tree_of j c = tree_meet (tree_of i a) (tree_of i b)"
  using meet_tree[of i a b] assms by (auto simp: fits_def yields_def)

lemma tree_kept: "interner_wf i \<Longrightarrow> interner_wf j \<Longrightarrow> extends i j \<Longrightarrow> valid i a \<Longrightarrow> tree_of j a = tree_of i a"
  by (rule store.abs_later)

text \<open>The interner the witnesses start from: the five atomics.\<close>

lemma new_trees:
  "tree_of interner_new (TypeId 0) = Node Top" "tree_of interner_new (TypeId 1) = Node Bottom"
  "tree_of interner_new (TypeId 2) = Node (Constant SNil)"
  "tree_of interner_new (TypeId 3) = Node (Constant (SBool True))"
  "tree_of interner_new (TypeId 4) = Node (Constant (SBool False))"
  by (simp_all add: tree_of_get[OF interner_new_wf] get_interner_new)

lemma new_valid: "unat (index a) < 5 \<Longrightarrow> valid interner_new a"
  by (simp add: valid_def interner_new_eq)

lemma new_room: "n \<le> 1000 \<Longrightarrow> room interner_new n"
  by (simp add: room_def interner_new_eq)

lemma dyn_depth_Constant [simp]: "dyn_depth (Node (Constant s)) = 0"
  by (simp add: dyn_depth.simps)

lemmas new_facts = interner_new_wf new_trees new_valid new_room

lemma new_fits:
  "a \<in> {TypeId 2, TypeId 3, TypeId 4} \<Longrightarrow> b \<in> {TypeId 2, TypeId 3, TypeId 4} \<Longrightarrow> fits interner_new a b"
  by (auto simp: fits_def new_facts)

lemma normal_Constant [simp]: "normal (Node (Constant s))"
  by (simp add: normal.simps)

text \<open>Static canonical operands: neither \<open>Dynamic\<close> nor one of the two bounds.\<close>

definition static_at :: "Interner \<Rightarrow> TypeId \<Rightarrow> bool" where
  "static_at i a \<longleftrightarrow> normal (tree_of i a) \<and> plain (tree_of i a) \<and> dyn (tree_of i a) = None"

lemma dyn_depth_static: "dyn t = None \<Longrightarrow> dyn_depth t = 0"
  by (cases t) (simp add: dyn_depth.simps)

lemma static_fits:
  assumes "interner_wf i" "valid i a" "valid i b" "static_at i a" "static_at i b" "length (arena i) \<le> 1000"
  shows "fits i a b"
  using assms by (simp add: fits_def static_at_def dyn_depth_static room_def)

lemma static_join:
  assumes "interner_wf i" "valid i a" "valid i b" "static_at i a" "static_at i b" "length (arena i) \<le> n" "n \<le> 1000"
  obtains c j where "fits i a b" "join i a b = Some (c, j)" "interner_wf j" "extends i j" "valid j c"
    "static_at j c" "length (arena j) \<le> Suc n"
    "\<forall>d. valid i d \<and> static_at i d \<longrightarrow> valid j d \<and> static_at j d"
proof -
  have f: "fits i a b" using assms by (intro static_fits) simp_all
  have "yields i (Suc (dyn_depth (tree_of i a) + dyn_depth (tree_of i b)))
      (tree_join (tree_of i a) (tree_of i b)) (join i a b)"
    using f by (intro join_tree) (simp_all add: fits_def)
  then obtain c j where c: "join i a b = Some (c, j)" "interner_wf j" "extends i j" "valid j c"
    "tree_of j c = tree_join (tree_of i a) (tree_of i b)"
    "length (arena j) \<le> length (arena i) + Suc (dyn_depth (tree_of i a) + dyn_depth (tree_of i b))"
    by (rule yieldsE)
  have "static_at j c"
    using assms(4,5) c(5) unfolding static_at_def by (simp add: join_normal join_static_shape)
  moreover have "length (arena j) \<le> Suc n"
    using c(6) assms(4-6) by (simp add: static_at_def dyn_depth_static)
  moreover have "\<forall>d. valid i d \<and> static_at i d \<longrightarrow> valid j d \<and> static_at j d"
    using extends_valid[OF c(3)] tree_kept[OF assms(1) c(2,3)] by (simp add: static_at_def)
  ultimately show thesis using that f c by blast
qed

lemma new_static: "a \<in> {TypeId 2, TypeId 3, TypeId 4} \<Longrightarrow> static_at interner_new a"
  by (auto simp: static_at_def new_facts plain_def)

lemma new_length: "length (arena interner_new) = 5"
  by (simp add: interner_new_eq)

section \<open>Hash-consing and the canonical order\<close>

text \<open>C2: interning a carrier whose children are in the arena keeps the interner well formed, leaves
  every earlier handle with its carrier, and returns a handle that reads back as that carrier and is
  the only one that does.\<close>

theorem intern_spec:
  assumes "interner_wf i" "room i 1" "valid_type i t" "intern i t = (a, j)"
  shows "interner_wf j \<and> extends i j \<and> get j a = Some t
    \<and> tree_of j a = Node (map_Type (tree_of i) t)
    \<and> (\<forall>b. get j b = Some t \<longleftrightarrow> b = a) \<and> intern j t = (a, j)"
proof -
  have j: "a = fst (intern i t)" "j = snd (intern i t)" using assms(4) by simp_all
  have wf: "interner_wf j" and g: "get j a = Some t"
    using intern_wf[OF assms(1-3)] get_intern[OF assms(1,2)] unfolding j by auto
  have "tree_of j a = Node (map_Type (tree_of i) t)"
    using store.ins_abs[OF assms(1,2)] assms(3) unfolding j valid_type_def by blast
  moreover have "\<forall>b. get j b = Some t \<longleftrightarrow> b = a" using get_inj[OF wf _ g] g by blast
  moreover have "intern j t = (a, j)" using g dedup_get[OF wf] by (intro intern_known) blast
  ultimately show ?thesis using wf g intern_extends[of i t] j(2) by simp
qed

theorem intern_spec_witness:
  "interner_wf (snd (intern interner_new (Tuple [TypeId 2, TypeId 3])))
   \<and> get (snd (intern interner_new (Tuple [TypeId 2, TypeId 3]))) (TypeId 5) = Some (Tuple [TypeId 2, TypeId 3])"
proof -
  have "intern interner_new (Tuple [TypeId 2, TypeId 3])
      = (TypeId 5, snd (intern interner_new (Tuple [TypeId 2, TypeId 3])))"
    by (simp add: intern_def interner_new_eq Let_def)
  from intern_spec[OF interner_new_wf _ _ this] show ?thesis
    by (simp add: new_facts valid_type_def)
qed

text \<open>C3: the canonical comparison always answers on handles of the arena; the answer is a total
  order (equal only on the same handle, antisymmetric, transitive) and depends only on the types
  compared: another interner holding the same types, in any order of interning, answers the same.\<close>

theorem cmp_canonical:
  assumes "interner_wf i" "valid i a" "valid i b" "valid i c"
    and "interner_wf j" "valid j a'" "valid j b'" "tree_of j a' = tree_of i a" "tree_of j b' = tree_of i b"
  shows "(\<exists>r. cmp i a b = Some r \<and> cmp i b a = Some (ord_reverse r) \<and> (r = Equal \<longleftrightarrow> a = b))
    \<and> (cmp i a b = Some Less \<longrightarrow> cmp i b c = Some Less \<longrightarrow> cmp i a c = Some Less)
    \<and> cmp j a' b' = cmp i a b"
  using assms tree_of_inj[OF assms(1-3)] tree_order.cmp_sym[of "tree_of i a" "tree_of i b"]
    tree_order.cmp_eq[of "tree_of i a" "tree_of i b"]
    tree_order.cmp_trans[of "tree_of i a" "tree_of i b" "tree_of i c"]
  by (auto simp: cmp_tree)

theorem cmp_canonical_witness:
  "cmp interner_new (TypeId 4) (TypeId 3) = Some Less \<and> cmp interner_new (TypeId 3) (TypeId 4) = Some Greater"
proof -
  have "cmp interner_new (TypeId 4) (TypeId 3) = Some Less"
    by (simp add: cmp_def get_interner_new cmp_type_m_def scalar_cmp_def cmp_of_def)
  then show ?thesis
    using cmp_canonical[OF interner_new_wf new_valid new_valid new_valid interner_new_wf new_valid new_valid
      refl refl, of "TypeId 4" "TypeId 3" "TypeId 2"] by auto
qed

section \<open>Trinary certainty\<close>

text \<open>Accumulating any number of answers with \<open>and\<close> (resp. \<open>or\<close>) is Kleene's strong conjunction
  (disjunction): \<open>Yes\<close> only when every answer is (one is), \<open>No\<close> only when one is (every one is), in
  every other case \<open>Maybe\<close>; so one \<open>Maybe\<close> is never turned into a proof by the order of the answers,
  and negating an accumulated answer is accumulating the negated answers with the dual.\<close>

theorem certainty_accumulates:
  "foldl certainty_and Yes cs
     = (if No \<in> set cs then No else if Maybe \<in> set cs then Maybe else Yes)
   \<and> foldl certainty_or No cs
     = (if Yes \<in> set cs then Yes else if Maybe \<in> set cs then Maybe else No)
   \<and> certainty_negate (foldl certainty_and Yes cs) = foldl certainty_or No (map certainty_negate cs)"
proof -
  have all: "foldl certainty_and Yes cs = Yes \<longleftrightarrow> No \<notin> set cs \<and> Maybe \<notin> set cs"
    "foldl certainty_or No cs = No \<longleftrightarrow> Yes \<notin> set cs \<and> Maybe \<notin> set cs"
    by (auto, (metis Certainty.exhaust)+)
  have dual: "certainty_negate (foldl certainty_and a cs)
      = foldl certainty_or (certainty_negate a) (map certainty_negate cs)" for a
    by (induction cs arbitrary: a) (simp_all add: negate_and)
  have "foldl certainty_and Yes cs
      = (if No \<in> set cs then No else if Maybe \<in> set cs then Maybe else Yes)"
    using all(1) by (intro certainty_eqI) auto
  moreover have "foldl certainty_or No cs
      = (if Yes \<in> set cs then Yes else if Maybe \<in> set cs then Maybe else No)"
    using all(2) by (intro certainty_eqI) auto
  ultimately show ?thesis using dual[of Yes] by simp
qed

section \<open>Subtyping and consistency\<close>

text \<open>C1: subtyping always answers on handles of the arena, and a proven answer is inclusion of the
  values of the two types, for every reading of the carriers the relation does not look into.\<close>

theorem subtype_proven_sound:
  assumes "interner_wf i" "valid i a" "valid i b"
  shows "\<exists>r. subtype i a b = Some r \<and> evidence r = Subtype
    \<and> (is_proven (certainty r) \<longrightarrow> values v (tree_of i a) \<subseteq> values v (tree_of i b))"
  using assms subtype_sound[of "tree_of i a" "tree_of i b" v]
  by (simp add: subtype_tree relation_new_def is_proven_def)

theorem subtype_proven_sound_witness:
  "\<exists>r. subtype interner_new (TypeId 1) (TypeId 3) = Some r \<and> evidence r = Subtype
    \<and> (is_proven (certainty r) \<longrightarrow> values (\<lambda>t. {t}) (Node Bottom) \<subseteq> {Node (Constant (SBool True))})"
  using subtype_proven_sound[OF interner_new_wf, of "TypeId 1" "TypeId 3" "\<lambda>t. {t}"] by (simp add: new_facts)

text \<open>C38: proven subtyping is reflexive and transitive.\<close>

theorem subtype_preorder:
  assumes "interner_wf i" "valid i a" "valid i b" "valid i c"
    and "subtype i a b = Some r" "is_proven (certainty r)"
    and "subtype i b c = Some s" "is_proven (certainty s)"
  shows "subtype i a c = Some (relation_yes Subtype) \<and> subtype i a a = Some (relation_yes Subtype)"
proof -
  have "tree_subtype (tree_of i a) (tree_of i b) = Yes" "tree_subtype (tree_of i b) (tree_of i c) = Yes"
    using assms by (auto simp: subtype_tree relation_new_def is_proven_def)
  then have "tree_subtype (tree_of i a) (tree_of i c) = Yes" by (rule subtype_trans)
  with assms show ?thesis by (simp add: subtype_tree relation_yes_def)
qed

theorem subtype_preorder_witness:
  "subtype interner_new (TypeId 1) (TypeId 0) = Some (relation_yes Subtype)
    \<and> subtype interner_new (TypeId 1) (TypeId 1) = Some (relation_yes Subtype)"
proof -
  have s: "subtype interner_new (TypeId 1) (TypeId 2) = Some (relation_yes Subtype)"
    "subtype interner_new (TypeId 2) (TypeId 0) = Some (relation_yes Subtype)"
    by (simp_all add: subtype_def get_interner_new)
  show ?thesis
    using subtype_preorder[OF interner_new_wf new_valid new_valid new_valid s(1) _ s(2)]
    by (simp add: relation_defs is_proven_def)
qed

text \<open>When the right-hand type holds no empty union (no canonical builder makes one), subtyping
  never answers a proven \<open>No\<close>: what it cannot prove is \<open>Maybe\<close>.\<close>

theorem subtype_never_disproves:
  assumes "interner_wf i" "valid i a" "valid i b" "no_empty_union (tree_of i b)"
    and "subtype i a b = Some r"
  shows "certainty r \<in> {Yes, Maybe}"
  using assms subtype_not_No[of "tree_of i b" "tree_of i a"]
  by (cases "tree_subtype (tree_of i a) (tree_of i b)") (auto simp: subtype_tree relation_new_def)

theorem subtype_never_disproves_witness:
  "certainty (the (subtype interner_new (TypeId 2) (TypeId 3))) \<in> {Yes, Maybe}"
proof -
  have "subtype interner_new (TypeId 2) (TypeId 3) = Some (the (subtype interner_new (TypeId 2) (TypeId 3)))"
    by (simp add: subtype_tree new_facts)
  then show ?thesis by (intro subtype_never_disproves[OF interner_new_wf]) (simp_all add: new_facts)
qed

text \<open>Gradual consistency is total, symmetric, answers \<open>Yes\<close> as soon as one side is \<open>Dynamic\<close>, and
  is proven whenever subtyping is, in either direction.\<close>

theorem consistent_gradual:
  assumes "interner_wf i" "valid i a" "valid i b"
  shows "\<exists>r. consistent i a b = Some r \<and> consistent i b a = Some r \<and> evidence r = Consistency
    \<and> (is_dynamic i a = Some True \<or> is_dynamic i b = Some True \<longrightarrow> is_proven (certainty r))
    \<and> (subtype i a b = Some (relation_yes Subtype) \<longrightarrow> is_proven (certainty r))"
  using assms tree_of_inj[OF assms]
  by (auto simp: consistent_tree is_dynamic_get subtype_tree relation_defs tree_consistent_def or_comm is_proven_def)

theorem consistent_gradual_witness:
  "\<exists>r. consistent interner_new (TypeId 1) (TypeId 3) = Some r \<and> consistent interner_new (TypeId 3) (TypeId 1) = Some r"
  using consistent_gradual[OF interner_new_wf, of "TypeId 1" "TypeId 3"] by (auto simp: new_facts)

section \<open>The lattice operations\<close>

text \<open>C4: with room in the arena, join returns (it neither panics nor runs away): a valid handle in a
  well-formed interner that extends the old one, reading as the union of the values of its operands,
  whatever the order of the operands.\<close>

theorem join_spec:
  assumes "fits i a b"
  shows "\<exists>c j. join i a b = Some (c, j) \<and> interner_wf j \<and> extends i j \<and> valid j c
    \<and> values v (tree_of j c) = values v (tree_of i a) \<union> values v (tree_of i b)
    \<and> (\<exists>k j'. join i b a = Some (k, j') \<and> tree_of j' k = tree_of j c)"
proof -
  have "yields i (Suc (dyn_depth (tree_of i a) + dyn_depth (tree_of i b)))
      (tree_join (tree_of i a) (tree_of i b)) (join i a b)"
    using assms by (intro join_tree) (simp_all add: fits_def)
  then obtain c j where c: "join i a b = Some (c, j)" "interner_wf j" "extends i j" "valid j c"
    "tree_of j c = tree_join (tree_of i a) (tree_of i b)" by (rule yieldsE)
  have "yields i (Suc (dyn_depth (tree_of i b) + dyn_depth (tree_of i a)))
      (tree_join (tree_of i b) (tree_of i a)) (join i b a)"
    using assms by (intro join_tree) (simp_all add: fits_def add.commute)
  then obtain k j' where "join i b a = Some (k, j')" "tree_of j' k = tree_join (tree_of i b) (tree_of i a)"
    by (rule yieldsE)
  with c show ?thesis by (auto simp: join_values join_comm[of "tree_of i b"])
qed

theorem join_spec_witness:
  "\<exists>c j. join interner_new (TypeId 3) (TypeId 4) = Some (c, j)
    \<and> values (\<lambda>t. {t}) (tree_of j c) = {Node (Constant (SBool True)), Node (Constant (SBool False))}"
proof -
  have "fits interner_new (TypeId 3) (TypeId 4)" by (rule new_fits) simp_all
  from join_spec[OF this, of "\<lambda>t. {t}"] show ?thesis by (auto simp: new_trees insert_commute)
qed

text \<open>C37: on canonical types join is associative as an operation on handles: computed in either
  grouping, one after the other in the same interner, it ends at the same handle.\<close>

theorem join_assoc_handles:
  assumes "normal (tree_of i a)" "normal (tree_of i b)" "normal (tree_of i c)" "valid i c"
    and ab: "fits i a b" "join i a b = Some (x, j1)"
    and abc: "fits j1 x c" "join j1 x c = Some (l, j2)"
    and bc: "fits j2 b c" "join j2 b c = Some (y, j3)"
    and a_bc: "fits j3 a y" "join j3 a y = Some (r, j4)"
  shows "l = r"
proof -
  note s1 = join_step[OF ab] and s2 = join_step[OF abc] and s3 = join_step[OF bc] and s4 = join_step[OF a_bc]
  have wf: "interner_wf i" and v: "valid i a" "valid i b" using ab(1) by (simp_all add: fits_def)
  have e2: "extends i j2" and e3: "extends i j3" and e24: "extends j2 j4"
    using s1(2) s2(2) s3(2) s4(2) extends_trans by blast+
  have t: "tree_of j1 c = tree_of i c" "tree_of j2 b = tree_of i b" "tree_of j2 c = tree_of i c"
    "tree_of j3 a = tree_of i a"
    using tree_kept[OF wf] s1 s2 s3 e2 e3 v assms(4) by blast+
  have "tree_of j4 l = tree_join (tree_join (tree_of i a) (tree_of i b)) (tree_of i c)"
    using tree_kept[OF s2(1) s4(1) e24 s2(3)] s2(4) s1(4) t by simp
  also have "\<dots> = tree_of j4 r" using assms(1-3) s4(4) s3(4) t by (simp add: tree_join_assoc)
  finally show ?thesis using tree_of_inj[OF s4(1) extends_valid[OF e24 s2(3)] s4(3)] by simp
qed

theorem join_assoc_handles_witness:
  "\<exists>x j1 l j2 y j3 j4. join interner_new (TypeId 3) (TypeId 4) = Some (x, j1)
    \<and> join j1 x (TypeId 2) = Some (l, j2)
    \<and> join j2 (TypeId 4) (TypeId 2) = Some (y, j3) \<and> join j3 (TypeId 3) y = Some (l, j4)"
proof -
  let ?i = interner_new and ?a = "TypeId 3" and ?b = "TypeId 4" and ?c = "TypeId 2"
  have v: "valid ?i ?a \<and> static_at ?i ?a" "valid ?i ?b \<and> static_at ?i ?b" "valid ?i ?c \<and> static_at ?i ?c"
    by (simp_all add: new_valid new_static)
  obtain x j1 where 1: "fits ?i ?a ?b" "join ?i ?a ?b = Some (x, j1)" "interner_wf j1" "valid j1 x" "static_at j1 x"
    "length (arena j1) \<le> Suc 5" "\<forall>d. valid ?i d \<and> static_at ?i d \<longrightarrow> valid j1 d \<and> static_at j1 d"
    by (rule static_join[OF interner_new_wf, of ?a ?b 5]) (use v in \<open>simp_all add: new_length\<close>)
  obtain l j2 where 2: "fits j1 x ?c" "join j1 x ?c = Some (l, j2)" "interner_wf j2"
    "length (arena j2) \<le> Suc 6" "\<forall>d. valid j1 d \<and> static_at j1 d \<longrightarrow> valid j2 d \<and> static_at j2 d"
    by (rule static_join[OF 1(3), of x ?c 6]) (use v 1(4-7) in simp_all)
  obtain y j3 where 3: "fits j2 ?b ?c" "join j2 ?b ?c = Some (y, j3)" "interner_wf j3" "valid j3 y" "static_at j3 y"
    "length (arena j3) \<le> Suc 7" "\<forall>d. valid j2 d \<and> static_at j2 d \<longrightarrow> valid j3 d \<and> static_at j3 d"
    by (rule static_join[OF 2(3), of ?b ?c 7]) (use v 1(7) 2(4,5) in simp_all)
  obtain r j4 where 4: "fits j3 ?a y" "join j3 ?a y = Some (r, j4)"
    by (rule static_join[OF 3(3), of ?a y 8]) (use v 1(7) 2(5) 3(4-7) in simp_all)
  have "l = r"
    using v join_assoc_handles[OF _ _ _ _ 1(1,2) 2(1,2) 3(1,2) 4] by (simp add: static_at_def)
  with 1(2) 2(2) 3(2) 4(2) show ?thesis by blast
qed

text \<open>On canonical types the join is an upper bound the subtype relation can prove: after a join,
  each operand is provably a subtype of the result.\<close>

theorem join_upper_bound:
  assumes "fits i a b" "normal (tree_of i a)" "normal (tree_of i b)" "join i a b = Some (c, j)"
  shows "subtype j a c = Some (relation_yes Subtype) \<and> subtype j b c = Some (relation_yes Subtype)"
proof -
  note s = join_step[OF assms(1,4)]
  have f: "interner_wf i" "valid i a" "valid i b" using assms(1) by (simp_all add: fits_def)
  have t: "tree_of j a = tree_of i a" "tree_of j b = tree_of i b" using tree_kept[OF f(1) s(1,2)] f by auto
  have "tree_subtype (tree_of i b) (tree_join (tree_of i a) (tree_of i b)) = Yes"
    using join_upper[OF assms(3,2)] by (simp add: join_comm)
  then show ?thesis
    using s t f join_upper[OF assms(2,3)] extends_valid[OF s(2)] by (simp add: subtype_tree relation_yes_def)
qed

theorem join_upper_bound_witness:
  "\<exists>c j. join interner_new (TypeId 3) (TypeId 4) = Some (c, j)
    \<and> subtype j (TypeId 3) c = Some (relation_yes Subtype) \<and> subtype j (TypeId 4) c = Some (relation_yes Subtype)"
proof -
  have v: "valid interner_new (TypeId 3)" "valid interner_new (TypeId 4)"
    "static_at interner_new (TypeId 3)" "static_at interner_new (TypeId 4)"
    by (simp_all add: new_valid new_static)
  obtain c j where c: "fits interner_new (TypeId 3) (TypeId 4)" "join interner_new (TypeId 3) (TypeId 4) = Some (c, j)"
    by (rule static_join[OF interner_new_wf v, of 5]) (simp_all add: new_length)
  from join_upper_bound[OF c(1) _ _ c(2)] v c(2) show ?thesis by (auto simp: static_at_def)
qed

text \<open>C36: with room in the arena, meet returns a valid handle in a well-formed interner that extends
  the old one; it reads as the intersection of the values of its operands.\<close>

theorem meet_spec:
  assumes "fits i a b"
  shows "\<exists>c j. meet i a b = Some (c, j) \<and> interner_wf j \<and> extends i j \<and> valid j c
    \<and> values v (tree_of j c) = values v (tree_of i a) \<inter> values v (tree_of i b)
    \<and> (\<exists>k j'. meet i b a = Some (k, j') \<and> tree_of j' k = tree_of j c)"
proof -
  have "yields i (Suc (dyn_depth (tree_of i a) + dyn_depth (tree_of i b)))
      (tree_meet (tree_of i a) (tree_of i b)) (meet i a b)"
    using assms by (intro meet_tree) (simp_all add: fits_def)
  then obtain c j where c: "meet i a b = Some (c, j)" "interner_wf j" "extends i j" "valid j c"
    "tree_of j c = tree_meet (tree_of i a) (tree_of i b)" by (rule yieldsE)
  have "yields i (Suc (dyn_depth (tree_of i b) + dyn_depth (tree_of i a)))
      (tree_meet (tree_of i b) (tree_of i a)) (meet i b a)"
    using assms by (intro meet_tree) (simp_all add: fits_def add.commute)
  then obtain k j' where "meet i b a = Some (k, j')" "tree_of j' k = tree_meet (tree_of i b) (tree_of i a)"
    by (rule yieldsE)
  with c show ?thesis by (auto simp: meet_values meet_comm[of "tree_of i b"])
qed

theorem meet_spec_witness:
  "\<exists>c j. meet interner_new (TypeId 3) (TypeId 4) = Some (c, j) \<and> values (\<lambda>t. {t}) (tree_of j c) = {}"
proof -
  have "fits interner_new (TypeId 3) (TypeId 4)" by (rule new_fits) simp_all
  from meet_spec[OF this, of "\<lambda>t. {t}"] show ?thesis by (auto simp: new_trees)
qed

text \<open>With room in the arena, difference returns a valid handle in a well-formed interner that
  extends the old one; it reads as the set difference of the values of its operands.\<close>

theorem difference_spec:
  assumes "fits i a b"
  shows "\<exists>c j. difference i a b = Some (c, j) \<and> interner_wf j \<and> extends i j \<and> valid j c
    \<and> values v (tree_of j c) = values v (tree_of i a) - values v (tree_of i b)"
proof -
  have "yields i (Suc (dyn_depth (tree_of i a))) (tree_difference (tree_of i a) (tree_of i b)) (difference i a b)"
    using assms by (intro difference_tree) (auto simp: fits_def intro: room_mono)
  then show ?thesis by (auto simp: yields_def difference_values)
qed

theorem difference_spec_witness:
  "\<exists>c j. difference interner_new (TypeId 3) (TypeId 4) = Some (c, j)
    \<and> values (\<lambda>t. {t}) (tree_of j c) = {Node (Constant (SBool True))}"
proof -
  have "fits interner_new (TypeId 3) (TypeId 4)" by (rule new_fits) simp_all
  from difference_spec[OF this, of "\<lambda>t. {t}"] show ?thesis by (auto simp: new_trees)
qed

text \<open>C5: with room in the arena, normalize returns a handle of a canonical type with the same values;
  normalizing that result again changes neither the handle nor its type, and a canonical type is its own
  normal form.\<close>

theorem normalize_spec:
  assumes "interner_wf i" "valid i a" "room i (normalize_room (tree_of i a))"
  shows "\<exists>c j. normalize i a = Some (c, j) \<and> interner_wf j \<and> extends i j \<and> valid j c
    \<and> normal (tree_of j c) \<and> values v (tree_of j c) = values v (tree_of i a)
    \<and> (normal (tree_of i a) \<longrightarrow> c = a)
    \<and> (room j (normalize_room (tree_of j c)) \<longrightarrow> (\<exists>j'. normalize j c = Some (c, j')))"
proof -
  obtain c j where c: "normalize i a = Some (c, j)" "interner_wf j" "extends i j" "valid j c"
    "tree_of j c = tree_normalize (tree_of i a)"
    using normalize_tree[OF assms] by (rule yieldsE)
  have "c = a" if "normal (tree_of i a)"
    using c tree_of_inj[OF c(2) c(4) extends_valid[OF c(3) assms(2)]] tree_kept[OF assms(1) c(2,3) assms(2)]
      normalize_fixed[OF that] by simp
  moreover have "\<exists>j'. normalize j c = Some (c, j')" if r: "room j (normalize_room (tree_of j c))"
  proof -
    obtain d k where d: "normalize j c = Some (d, k)" "interner_wf k" "extends j k" "valid k d"
      "tree_of k d = tree_normalize (tree_of j c)"
      using normalize_tree[OF c(2,4) r] by (rule yieldsE)
    then have "tree_of k d = tree_of k c"
      using c tree_kept[OF c(2) d(2,3) c(4)] by (simp add: normalize_fixed normalize_normal)
    then show ?thesis using d tree_of_inj[OF d(2) d(4) extends_valid[OF d(3) c(4)]] by simp
  qed
  ultimately show ?thesis using c by (auto simp: normalize_normal normalize_values)
qed

theorem normalize_spec_witness:
  "\<exists>c j. normalize interner_new (TypeId 3) = Some (c, j) \<and> c = TypeId 3
    \<and> values (\<lambda>t. {t}) (tree_of j c) = {Node (Constant (SBool True))}"
  using normalize_spec[OF interner_new_wf, of "TypeId 3" "\<lambda>t. {t}"]
  by (auto simp: new_facts normalize_room.simps)

text \<open>\<open>is_bool_pair\<close> always answers on a handle of the arena, and answers \<open>true\<close> exactly for a
  union of the two boolean constants, in either order.\<close>

theorem is_bool_pair_exact:
  assumes "interner_wf i" "valid i a"
  shows "is_bool_pair i a = Some (root (tree_of i a) \<in>
    {Union [Node (Constant (SBool True)), Node (Constant (SBool False))],
     Union [Node (Constant (SBool False)), Node (Constant (SBool True))]})"
proof -
  obtain t where t: "get i a = Some t" using assms(2) by (auto simp: valid_iff_get)
  have b: "map_Type (tree_of i) u = Constant x \<longleftrightarrow> u = Constant x" for u x
    by (cases u) simp_all
  have c: "\<exists>u. get i m = Some u \<and> (\<forall>x. tree_of i m = Node (Constant x) \<longleftrightarrow> u = Constant x)" if "m \<in> set_Type t" for m
    using child_valid[OF assms(1) t that] tree_of_get[OF assms(1)] by (auto simp: valid_iff_get b)
  consider (pair) m1 m2 where "t = Union [m1, m2]" | (other) "\<forall>m1 m2. t \<noteq> Union [m1, m2]" by blast
  then show ?thesis
  proof cases
    case pair
    then obtain u1 u2 where "get i m1 = Some u1" "\<forall>x. tree_of i m1 = Node (Constant x) \<longleftrightarrow> u1 = Constant x"
      "get i m2 = Some u2" "\<forall>x. tree_of i m2 = Node (Constant x) \<longleftrightarrow> u2 = Constant x"
      using c[of m1] c[of m2] by auto
    with pair t show ?thesis by (auto simp: is_bool_pair_def tree_of_get[OF assms(1) t])
  next
    case other
    then show ?thesis
      using t by (cases t) (auto simp: is_bool_pair_def tree_of_get[OF assms(1) t] split: list.splits)
  qed
qed

theorem is_bool_pair_exact_witness: "is_bool_pair interner_new (TypeId 3) = Some False"
  using is_bool_pair_exact[OF interner_new_wf, of "TypeId 3"] by (simp add: new_facts)

end
