(* ===== verification/Display_Properties.thy ===== *)
theory Display_Properties
  imports Display_Laws Types_Properties "HOL-Library.Multiset"
begin

text \<open>
  The properties of the rendering layer: it always answers, its answers are stable, a union
  does not show the order of its members, a quoted literal reads back, and \<open>untyped\<close> absorbs an
  erased union.
\<close>

section \<open>Unions as multisets\<close>

lemma those_mset:
  assumes "\<forall>x \<in> set xs. f x = Some (g x)" "mset xs = mset ys"
  shows "those (map f xs) = Some (map g xs)" "those (map f ys) = Some (map g ys)"
    "mset (map g xs) = mset (map g ys)"
  using assms mset_eq_setD[OF assms(2)] by (auto intro!: those_map_Some)

lemma zip_map1: "zip (map g xs) xs = map (\<lambda>x. (g x, x)) xs"
  by (induction xs) auto

lemma members_of_kind_map: "members_of_kind p (map g xs) xs = filter (\<lambda>x. p (g x)) xs"
  by (induction xs) (auto simp: members_of_kind_def)

lemma sort_map_mset: "mset xs = mset ys \<Longrightarrow> sort (map f xs) = sort (map f ys)"
  by (metis mset_map properties_for_sort sorted_sort mset_sort)

lemma singleton_mset: "mset xs = mset ys \<Longrightarrow> length xs = 1 \<Longrightarrow> xs = ys"
  by (auto simp: length_Suc_conv eq_commute[of "{#_#}"])

lemma named_union_mset:
  assumes look: "\<forall>m \<in> set ms. look m = Some (g m)" and d: "\<forall>m \<in> set ms. d m = Some (h m)"
    and eq: "mset ms = mset ns"
  shows "named_union look d ms = named_union look d ns"
proof -
  note ts = those_mset[OF look eq]
  have st: "set ns = set ms" using eq by (metis mset_eq_setD)
  have r: "render_all d (filter p ms) = Some (map h (filter p ms))"
    "render_all d (filter p ns) = Some (map h (filter p ns))"
    "render_all d ms = Some (map h ms)" "render_all d ns = Some (map h ns)" for p
    using d st unfolding render_all_def by (auto intro!: those_map_Some)
  have fm: "mset (filter p ms) = mset (filter p ns)" for p using eq by simp
  have srt: "sort (map h (filter p ms)) = sort (map h (filter p ns))" "sort (map h ms) = sort (map h ns)" for p
    using fm eq by (auto intro: sort_map_mset)
  have len: "length (filter p (map g ms)) = length (filter p (map g ns))" for p
    using ts(3) by (metis mset_filter size_mset)
  have sets: "set (map g ms) = set (map g ns)" using ts(3) by (metis mset_eq_setD)
  let ?nn = "\<lambda>x. g x \<noteq> Constant SNil"
  have one: "filter ?nn ms = filter ?nn ns" if "length (filter (\<lambda>t. t \<noteq> Constant SNil) (map g ns)) = 1"
    using that fm len[of "\<lambda>t. t \<noteq> Constant SNil"] by (intro singleton_mset) (simp_all add: filter_map comp_def)
  show ?thesis
    unfolding named_union_def ts(1,2) Option.bind.bind_lunit members_of_kind_map Let_def len sets r srt
    using one by auto
qed

section \<open>Joined erasures\<close>

lemma render_all_set: "render_all f xs = Some ys \<Longrightarrow> y \<in> set ys \<longleftrightarrow> (\<exists>x \<in> set xs. f x = Some y)"
  by (induction xs arbitrary: ys) (auto simp: render_all_def split: option.splits)

lemma set_join: "set (join_str sep xs) \<subseteq> set sep \<union> (\<Union>x \<in> set xs. set x)"
  by (induction sep xs rule: join_str.induct) auto

lemma join_sep: "2 \<le> length xs \<Longrightarrow> set sep \<subseteq> set (join_str sep xs)"
  by (cases "(sep, xs)" rule: join_str.cases) auto

lemma erased_union_untyped: "erased_union xs = ''untyped'' \<longleftrightarrow> ''untyped'' \<in> set xs"
proof (cases "''untyped'' \<in> set xs")
  case False
  let ?ys = "rev (remdups (rev xs))"
  have st: "set ?ys = set xs" by simp
  have "uniq_join xs \<noteq> ''untyped''"
  proof (cases ?ys rule: remdups_adj.cases)
    case 1
    then show ?thesis by (simp add: uniq_join_def)
  next
    case (2 y)
    then have "y \<in> set xs" using st by (metis list.set_intros(1))
    with 2 False show ?thesis unfolding uniq_join_def 2 by auto
  next
    case (3 x y zs)
    then have "set '' | '' \<subseteq> set (uniq_join xs)"
      unfolding uniq_join_def by (intro join_sep) simp
    then have "CHR ''|'' \<in> set (uniq_join xs)" by auto
    moreover have "CHR ''|'' \<notin> set ''untyped''" by simp
    ultimately show ?thesis by metis
  qed
  with False show ?thesis by (simp add: erased_union_def)
qed (simp add: erased_union_def)

section \<open>The properties\<close>

text \<open>C14: rendering is total and stable: on a well-formed interner the internal display, the
  user-facing display and the RBS erasure of a handle all answer, and after any further interning
  they answer the same text for that handle.\<close>

theorem rendering_total_and_stable:
  assumes "interner_wf i" "valid i a" "interner_wf j" "extends i j"
  shows "\<exists>s n e. describe i a = Some s \<and> describe j a = Some s
    \<and> describe_named i a resolve = Some n \<and> describe_named j a resolve = Some n
    \<and> erase_to_rbs_named i a resolve = Some e \<and> erase_to_rbs_named j a resolve = Some e"
proof -
  have ag: "agrees i j" using assms by (simp add: agrees_def)
  show ?thesis
    using internal.total[OF assms(1,2)] named.total[OF assms(1,2)] erasure.total[OF assms(1,2)]
      internal.stable[OF ag assms(2)] named.stable[OF ag assms(2)] erasure.stable[OF ag assms(2)] by metis
qed

theorem rendering_total_and_stable_witness:
  "describe (snd (intern interner_new (Tuple []))) (TypeId 2) \<noteq> None
   \<and> describe interner_new (TypeId 2) = describe (snd (intern interner_new (Tuple []))) (TypeId 2)"
proof -
  have "interner_wf (snd (intern interner_new (Tuple [])))"
    by (rule intern_wf) (simp_all add: new_facts valid_type_def)
  from rendering_total_and_stable[OF interner_new_wf _ this intern_extends] show ?thesis
    using new_valid[of "TypeId 2"] by fastforce
qed

text \<open>The user-facing display of a union does not show the order its members are kept in: two
  unions with the same members, in any order, render alike (with the optional \<open>T?\<close> and the \<open>bool\<close>
  spellings included).\<close>

theorem union_display_order_free:
  assumes "interner_wf i" "get i a = Some (Union ms)" "get i b = Some (Union ns)" "mset ms = mset ns"
  shows "describe_named i a resolve = describe_named i b resolve"
proof -
  have v: "valid i m" if "m \<in> set ms" for m using child_valid[OF assms(1,2)] that by simp
  have "\<forall>m \<in> set ms. get i m = Some (the (get i m))"
    "\<forall>m \<in> set ms. describe_named i m resolve = Some (the (describe_named i m resolve))"
    using v named.total[OF assms(1), of _ resolve] by (fastforce simp: valid_iff_get)+
  from named_union_mset[OF this assms(4)] show ?thesis
    by (simp add: named.unfold_layer[OF assms(1,2)] named.unfold_layer[OF assms(1,3)] describe_named_type_def)
qed

theorem union_display_order_free_witness:
  "\<exists>j a b. get j a = Some (Union [TypeId 2, TypeId 3]) \<and> get j b = Some (Union [TypeId 3, TypeId 2])
    \<and> describe_named j a (\<lambda>_. None) = describe_named j b (\<lambda>_. None)"
proof -
  let ?t = "Union [TypeId 2, TypeId 3]" and ?u = "Union [TypeId 3, TypeId 2]"
  let ?j = "snd (intern interner_new ?t)" and ?a = "fst (intern interner_new ?t)"
  let ?k = "snd (intern ?j ?u)" and ?b = "fst (intern ?j ?u)"
  have j: "interner_wf ?j" by (rule intern_wf) (simp_all add: new_facts valid_type_def)
  have r: "room ?j 1" by (rule intern_room) (simp add: new_room)
  have v: "valid_type ?j ?u"
    using extends_valid[OF intern_extends] by (simp add: valid_type_def new_valid)
  have k: "interner_wf ?k" using j r v by (rule intern_wf)
  have a: "get ?k ?a = Some ?t"
    by (rule extends_get[OF intern_extends get_intern[OF interner_new_wf new_room]]) simp
  have b: "get ?k ?b = Some ?u" using j r by (rule get_intern)
  from union_display_order_free[OF k a b] a b show ?thesis by auto
qed

text \<open>C18: Ruby's reading of a rendered literal recovers exactly the bytes that were inspected, unless
  a zero byte stands in front of an octal digit, and then it never does: Ruby reads the digit as part of
  the octal escape. Inspecting loses nothing: two strings, and two symbols, inspect alike only when they
  are the same.\<close>

theorem inspect_reads_back:
  "(ruby_unquote (ruby_inspect_dq s) = Some s \<longleftrightarrow> \<not> nul_then_octal s)
   \<and> (ruby_inspect_dq s = ruby_inspect_dq t \<longleftrightarrow> s = t)
   \<and> (symbol_inspect s = symbol_inspect t \<longleftrightarrow> s = t)"
  by (simp add: unquote_inspect inspect_inj symbol_inspect_inj)

text \<open>The two bytes \<open>00\<close> and \<open>1\<close> are rendered as \<open>\01\<close>, which Ruby reads as the one byte \<open>01\<close>.\<close>

theorem nul_digit_misread:
  "ruby_inspect_dq [CHR 0x00, CHR ''1''] = [dquote, backslash, CHR ''0'', CHR ''1'', dquote]
   \<and> ruby_unquote [dquote, backslash, CHR ''0'', CHR ''1'', dquote] = Some [CHR 0x01]"
  by code_simp

text \<open>\<open>untyped\<close> absorbs an erased union: a union erases to \<open>untyped\<close> exactly when one of its members
  does; in particular any union with a dynamic member erases to \<open>untyped\<close>.\<close>

theorem erased_union_absorbs:
  assumes "interner_wf i" "get i a = Some (Union ms)"
  shows "(erase_to_rbs_named i a resolve = Some ''untyped''
      \<longleftrightarrow> (\<exists>m \<in> set ms. erase_to_rbs_named i m resolve = Some ''untyped''))
    \<and> ((\<exists>m \<in> set ms. is_dynamic i m = Some True) \<longrightarrow> erase_to_rbs_named i a resolve = Some ''untyped'')"
proof -
  have v: "valid i m" if "m \<in> set ms" for m using child_valid[OF assms] that by simp
  obtain es where es: "render_all (\<lambda>m. erase_to_rbs_named i m resolve) ms = Some es"
    using render_all_total[of ms "\<lambda>m. erase_to_rbs_named i m resolve"] erasure.total[OF assms(1) v] by blast
  have "erase_to_rbs_named i a resolve = Some (erased_union es)"
    by (simp add: erasure.unfold_layer[OF assms] erase_type_def erase_union_def es)
  moreover have "''untyped'' \<in> set es \<longleftrightarrow> (\<exists>m \<in> set ms. erase_to_rbs_named i m resolve = Some ''untyped'')"
    by (rule render_all_set[OF es])
  moreover have "erase_to_rbs_named i m resolve = Some ''untyped''" if m: "m \<in> set ms" "is_dynamic i m = Some True" for m
  proof -
    obtain t where t: "get i m = Some t" using v[OF m(1)] by (auto simp: valid_iff_get)
    with m(2) obtain f where "t = Dynamic f" by (auto simp: is_dynamic_def simp del: as_dynamic_type_Some)
       (cases t; simp)
    then show ?thesis using t by (simp add: erasure.unfold_layer[OF assms(1) t] erase_type_def)
  qed
  ultimately show ?thesis by (auto simp: erased_union_untyped)
qed

theorem erased_union_absorbs_witness:
  "\<exists>j a. get j a = Some (Union [TypeId 2, TypeId 3]) \<and> erase_to_rbs_named j a (\<lambda>_. None) \<noteq> Some ''untyped''"
proof -
  let ?t = "Union [TypeId 2, TypeId 3]"
  let ?j = "snd (intern interner_new ?t)" and ?a = "fst (intern interner_new ?t)"
  have j: "interner_wf ?j" by (rule intern_wf) (simp_all add: new_facts valid_type_def)
  have g: "get ?j ?a = Some ?t" using interner_new_wf new_room by (rule get_intern) simp
  have n: "get ?j (TypeId 2) = Some (Constant SNil)" "get ?j (TypeId 3) = Some (Constant (SBool True))"
    by (rule extends_get[OF intern_extends], simp add: get_interner_new)+
  have "erase_to_rbs_named ?j (TypeId 2) (\<lambda>_. None) = Some ''nil''"
    "erase_to_rbs_named ?j (TypeId 3) (\<lambda>_. None) = Some ''true''"
    by (simp_all add: erasure.unfold_layer[OF j n(1)] erasure.unfold_layer[OF j n(2)] erase_type_def)
  with erased_union_absorbs[OF j g, of "\<lambda>_. None"] g show ?thesis by auto
qed

end
