(* ===== verification/Folding.thy ===== *)
theory Folding
  imports Ruby_Text
begin

text \<open>
  Constant folding, \<open>crates/rigor-infer/src/folding.rs\<close>: a call of a method on a literal
  receiver with literal arguments is replaced by its value. \<open>None\<close> of the code's \<open>Option\<close> is
  "declined". The operations of the module that can panic (\<open>%\<close> on \<open>i64\<close>, the slices and the index
  of the string lookups) make the results here an \<open>outcome\<close>: \<open>Panics\<close>, or the value the function
  returns. A failing allocation is not modelled.
\<close>

section \<open>Results and checked arithmetic\<close>

datatype 'a outcome = Panics | Returns (returned: 'a)

definition fits_i64 :: "int \<Rightarrow> bool" where
  "fits_i64 v \<longleftrightarrow> - (2 ^ 63) \<le> v \<and> v < 2 ^ 63"

text \<open>\<open>i64::checked_*\<close>: the exact result when it is representable.\<close>

definition checked_i64 :: "int \<Rightarrow> i64 option" where
  "checked_i64 v = (if fits_i64 v then Some (word_of_int v) else None)"

definition div_euclid :: "int \<Rightarrow> int \<Rightarrow> int" where
  "div_euclid a b = (if b < 0 then - (a div (- b)) else a div b)"

text \<open>Rust's \<open>%\<close>: the sign of the dividend; it panics on \<open>i64::MIN % -1\<close> (and on a zero divisor).\<close>

definition rem_trunc :: "int \<Rightarrow> int \<Rightarrow> int" where
  "rem_trunc a b = (if a < 0 then - ((- a) mod \<bar>b\<bar>) else a mod \<bar>b\<bar>)"

section \<open>Integers\<close>

definition ruby_mod :: "i64 \<Rightarrow> i64 \<Rightarrow> i64 outcome" where
  "ruby_mod a b =
     (if b = 0 \<or> (sint a = - (2 ^ 63) \<and> sint b = - 1) then Panics
      else let r = rem_trunc (sint a) (sint b) in
        Returns (word_of_int (if r \<noteq> 0 \<and> (r < 0) \<noteq> (sint b < 0) then r + sint b else r)))"

definition fold_int :: "i64 \<Rightarrow> string \<Rightarrow> Scalar list \<Rightarrow> Scalar option outcome" where
  "fold_int a method args =
     (let x = sint a; ok = (\<lambda>s. Returns (Some s)); int_ok = (\<lambda>r. Returns (map_option SInt r)) in
      if method = ''abs'' \<and> args = [] then int_ok (checked_i64 \<bar>x\<bar>)
      else if method = ''succ'' \<and> args = [] then int_ok (checked_i64 (x + 1))
      else if method = ''pred'' \<and> args = [] then int_ok (checked_i64 (x - 1))
      else if method = ''even?'' \<and> args = [] then ok (SBool (rem_trunc x 2 = 0))
      else if method = ''odd?'' \<and> args = [] then ok (SBool (rem_trunc x 2 \<noteq> 0))
      else if method = ''zero?'' \<and> args = [] then ok (SBool (x = 0))
      else if method = ''to_s'' \<and> args = [] then ok (SStr (show_i64 a))
      else case args of
        [SInt b] \<Rightarrow>
          (let y = sint b in
           if method = ''+'' then int_ok (checked_i64 (x + y))
           else if method = ''-'' then int_ok (checked_i64 (x - y))
           else if method = ''*'' then int_ok (checked_i64 (x * y))
           else if method = ''/'' then (if y = 0 then Returns None else int_ok (checked_i64 (div_euclid x y)))
           else if method = ''%'' then
             (if y = 0 then Returns None
              else case ruby_mod a b of Panics \<Rightarrow> Panics | Returns r \<Rightarrow> ok (SInt r))
           else if method = ''**'' then
             (if y < 0 \<or> y > 2 ^ 32 - 1 then Returns None else int_ok (checked_i64 (x ^ nat y)))
           else if method = ''&'' then ok (SInt (and a b))
           else if method = ''|'' then ok (SInt (or a b))
           else if method = ''^'' then ok (SInt (xor a b))
           else if method = ''<<'' then
             (if 0 \<le> y \<and> y < 64 then ok (SInt (push_bit (nat y) a)) else Returns None)
           else if method = ''>>'' then
             (if 0 \<le> y \<and> y < 64 then ok (SInt (word_of_int (drop_bit (nat y) x))) else Returns None)
           else if method = ''<'' then ok (SBool (x < y))
           else if method = ''<='' then ok (SBool (x \<le> y))
           else if method = ''>'' then ok (SBool (x > y))
           else if method = ''>='' then ok (SBool (x \<ge> y))
           else if method = ''=='' then ok (SBool (x = y))
           else Returns None)
      | _ \<Rightarrow> Returns None)"

section \<open>Floats\<close>

definition ordering_int :: "Ordering \<Rightarrow> i64" where
  "ordering_int r = (case r of Less \<Rightarrow> - 1 | Equal \<Rightarrow> 0 | Greater \<Rightarrow> 1)"

definition float_cmp :: "f64 \<Rightarrow> Scalar list \<Rightarrow> Scalar option" where
  "float_cmp a args =
     (if \<not> is_finite a then None
      else case args of
        [SFloat b] \<Rightarrow>
          (if is_finite b then map_option (\<lambda>r. SInt (ordering_int r)) (partial_cmp a b) else None)
      | [SInt b] \<Rightarrow>
          (if f64_le two_63 a then Some (SInt 1)
           else if f64_lt a (f64_neg two_63) then Some (SInt (- 1))
           else let whole = f64_trunc a in
             Some (SInt (ordering_int (ord_then (cmp_of (f64_trunc_int a) (sint b))
               (if f64_lt whole a then Greater else if f64_lt a whole then Less else Equal)))))
      | [SStr _] \<Rightarrow> Some SNil
      | [SSym _] \<Rightarrow> Some SNil
      | [SBool _] \<Rightarrow> Some SNil
      | [SNil] \<Rightarrow> Some SNil
      | _ \<Rightarrow> None)"

definition fold_float :: "f64 \<Rightarrow> string \<Rightarrow> Scalar list \<Rightarrow> Scalar option" where
  "fold_float a method args =
     (if method = ''abs'' \<and> args = [] then Some (SFloat (f64_abs a))
      else if method = ''<=>'' then float_cmp a args
      else case args of
        [SFloat b] \<Rightarrow>
          (if method = ''+'' then Some (SFloat (f64_add a b))
           else if method = ''-'' then Some (SFloat (f64_sub a b))
           else if method = ''*'' then Some (SFloat (f64_mul a b))
           else if method = ''<'' then Some (SBool (f64_lt a b))
           else if method = ''<='' then Some (SBool (f64_le a b))
           else if method = ''>'' then Some (SBool (f64_lt b a))
           else if method = ''>='' then Some (SBool (f64_le b a))
           else if method = ''=='' then Some (SBool (f64_eq a b))
           else None)
      | _ \<Rightarrow> None)"

section \<open>Booleans, nil and symbols\<close>

fun truthy :: "Scalar \<Rightarrow> bool option" where
  "truthy (SBool b) = Some b"
| "truthy SNil = Some False"
| "truthy _ = None"

definition fold_bool :: "bool \<Rightarrow> string \<Rightarrow> Scalar list \<Rightarrow> Scalar option" where
  "fold_bool a method args =
     (if method = ''!'' \<and> args = [] then Some (SBool (\<not> a))
      else case args of
        [b] \<Rightarrow>
          (if method = ''&'' then (if a then map_option SBool (truthy b) else Some (SBool False))
           else if method = ''|'' then (if a then Some (SBool True) else map_option SBool (truthy b))
           else if method = ''=='' then (case b of SBool b' \<Rightarrow> Some (SBool (a = b')) | _ \<Rightarrow> None)
           else None)
      | _ \<Rightarrow> None)"

definition fold_nil :: "string \<Rightarrow> Scalar list \<Rightarrow> Scalar option" where
  "fold_nil method args =
     (case args of
        [] \<Rightarrow> (if method = ''!'' then Some (SBool True) else None)
      | [b] \<Rightarrow>
          (if method = ''&'' then Some (SBool False)
           else if method = ''|'' then map_option SBool (truthy b)
           else if method = ''=='' then Some (SBool (b = SNil))
           else None)
      | _ \<Rightarrow> None)"

definition fold_sym :: "string \<Rightarrow> string \<Rightarrow> Scalar list \<Rightarrow> Scalar option" where
  "fold_sym a method args =
     (case args of
        [] \<Rightarrow> (if method = ''to_s'' then Some (SStr a) else None)
      | [b] \<Rightarrow> (if method = ''=='' then Some (SBool (b = SSym a)) else None)
      | _ \<Rightarrow> None)"

section \<open>Strings\<close>

text \<open>UTF-8: a byte \<open>10xxxxxx\<close> continues a character, every other byte starts one.\<close>

definition continues_char :: "char \<Rightarrow> bool" where
  "continues_char c \<longleftrightarrow> (of_char c :: nat) div 64 = 2"

definition char_count :: "string \<Rightarrow> nat" where
  "char_count s = length (filter (\<lambda>c. \<not> continues_char c) s)"

definition to_ascii_uppercase :: "char \<Rightarrow> char" where
  "to_ascii_uppercase c = (if between CHR ''a'' CHR ''z'' c then char_of (of_char c - (32 :: nat)) else c)"

definition to_ascii_lowercase :: "char \<Rightarrow> char" where
  "to_ascii_lowercase c = (if between CHR ''A'' CHR ''Z'' c then char_of (of_char c + (32 :: nat)) else c)"

text \<open>\<open>str::find\<close> and \<open>str::rfind\<close>: the first and the last position where a needle starts.\<close>

definition starts_at :: "string \<Rightarrow> string \<Rightarrow> nat \<Rightarrow> bool" where
  "starts_at a sub p \<longleftrightarrow> take (length sub) (drop p a) = sub"

definition find_sub :: "string \<Rightarrow> string \<Rightarrow> nat option" where
  "find_sub a sub = List.find (starts_at a sub) [0..<Suc (length a)]"

definition rfind_sub :: "string \<Rightarrow> string \<Rightarrow> nat option" where
  "rfind_sub a sub = List.find (starts_at a sub) (rev [0..<Suc (length a)])"

definition SInt_of :: "int \<Rightarrow> Scalar" where
  "SInt_of v = SInt (word_of_int v)"

definition opt_index :: "int \<Rightarrow> nat option \<Rightarrow> Scalar" where
  "opt_index from p = (case p of None \<Rightarrow> SNil | Some k \<Rightarrow> SInt_of (from + int k))"

text \<open>\<open>str::is_char_boundary\<close>, the slice \<open>&s[i..j]\<close>, which panics unless \<open>i \<le> j \<le> s.len()\<close> and both ends
  are boundaries, and the conversion \<open>as usize\<close>, which wraps.\<close>

definition char_boundary :: "string \<Rightarrow> nat \<Rightarrow> bool" where
  "char_boundary s i = (i = 0 \<or> i = length s \<or> i < length s \<and> \<not> continues_char (s ! i))"

definition slice_str :: "string \<Rightarrow> nat \<Rightarrow> nat \<Rightarrow> string outcome" where
  "slice_str s i j =
     (if i \<le> j \<and> j \<le> length s \<and> char_boundary s i \<and> char_boundary s j
      then Returns (take (j - i) (drop i s)) else Panics)"

definition as_usize :: "int \<Rightarrow> nat" where
  "as_usize v = nat (v mod 2 ^ 64)"

text \<open>The closure \<open>substr\<close> of \<open>fold_str_lookup\<close>; \<open>saturating_add\<close> stops at \<open>i64::MAX\<close>.\<close>

definition lookup_substr :: "string \<Rightarrow> int \<Rightarrow> int \<Rightarrow> Scalar outcome" where
  "lookup_substr a start count =
     (let len = int (length a); start = (if start < 0 then start + len else start) in
      if count < 0 \<or> start < 0 \<or> start > len then Returns SNil
      else let stop = min (min (start + count) (2 ^ 63 - 1)) len in
        map_outcome SStr (slice_str a (as_usize start) (as_usize stop)))"

text \<open>The two arms of \<open>rindex\<close> after their start is known: \<open>a[..end].rfind(sub)\<close>.\<close>

definition rindex_lookup :: "string \<Rightarrow> string \<Rightarrow> int \<Rightarrow> Scalar outcome" where
  "rindex_lookup a sub start =
     (let len = int (length a); slen = int (length sub) in
      if slen > len then Returns SNil
      else map_outcome (\<lambda>head. opt_index 0 (rfind_sub head sub))
             (slice_str a 0 (as_usize (min (start + slen) len))))"

definition fold_str_lookup :: "string \<Rightarrow> string \<Rightarrow> Scalar list \<Rightarrow> Scalar option outcome" where
  "fold_str_lookup a method args =
     (if \<not> is_ascii a then Returns None
      else let len = int (length a); from_end = (\<lambda>i. if i < 0 then i + len else i) in
      if method \<in> {''[]'', ''slice'', ''byteslice''} then
        (case args of
           [SInt i] \<Rightarrow>
             (let i = from_end (sint i) in
              if 0 \<le> i \<and> i < len
              then map_outcome (\<lambda>c. Some (SStr c)) (slice_str a (as_usize i) (as_usize i + 1))
              else Returns (Some SNil))
         | [SInt start, SInt count] \<Rightarrow> map_outcome Some (lookup_substr a (sint start) (sint count))
         | [SStr sub] \<Rightarrow>
             Returns (if method \<noteq> ''byteslice'' \<and> is_ascii sub
              then Some (if find_sub a sub \<noteq> None then SStr sub else SNil) else None)
         | _ \<Rightarrow> Returns None)
      else if method = ''getbyte'' then
        (case args of
           [SInt i] \<Rightarrow>
             (let i = from_end (sint i) in
              if 0 \<le> i \<and> i < len
              then (if as_usize i < length a then Returns (Some (SInt_of (of_char (a ! as_usize i)))) else Panics)
              else Returns (Some SNil))
         | _ \<Rightarrow> Returns None)
      else if method \<in> {''index'', ''byteindex''} then
        (case args of
           [SStr sub] \<Rightarrow> Returns (if is_ascii sub then Some (opt_index 0 (find_sub a sub)) else None)
         | [SStr sub, SInt offset] \<Rightarrow>
             (if is_ascii sub then
                let offset = from_end (sint offset) in
                if \<not> (0 \<le> offset \<and> offset \<le> len) then Returns (Some SNil)
                else map_outcome (\<lambda>tail. Some (opt_index offset (find_sub tail sub)))
                       (slice_str a (as_usize offset) (length a))
              else Returns None)
         | _ \<Rightarrow> Returns None)
      else if method \<in> {''rindex'', ''byterindex''} then
        (case args of
           [SStr sub] \<Rightarrow>
             (if is_ascii sub then map_outcome Some (rindex_lookup a sub len) else Returns None)
         | [SStr sub, SInt p] \<Rightarrow>
             (if is_ascii sub then
                let p = from_end (sint p) in
                if p < 0 then Returns (Some SNil) else map_outcome Some (rindex_lookup a sub (min p len))
              else Returns None)
         | _ \<Rightarrow> Returns None)
      else Returns None)"

definition str_lookups :: "string set" where
  "str_lookups = {''[]'', ''slice'', ''byteslice'', ''index'', ''getbyte'', ''rindex'', ''byteindex'', ''byterindex''}"

definition fold_str :: "string \<Rightarrow> string \<Rightarrow> Scalar list \<Rightarrow> Scalar option outcome" where
  "fold_str a method args =
     (let ok = (\<lambda>s. Returns (Some s)) in
      if method \<in> {''length'', ''size''} \<and> args = [] then ok (SInt_of (int (char_count a)))
      else if method = ''empty?'' \<and> args = [] then ok (SBool (a = []))
      else if method = ''upcase'' \<and> args = [] \<and> is_ascii a then ok (SStr (map to_ascii_uppercase a))
      else if method = ''downcase'' \<and> args = [] \<and> is_ascii a then ok (SStr (map to_ascii_lowercase a))
      else if method = ''reverse'' \<and> args = [] \<and> is_ascii a then ok (SStr (rev a))
      else if method = ''+'' then (case args of [SStr b] \<Rightarrow> ok (SStr (a @ b)) | _ \<Rightarrow> Returns None)
      else if method = ''*'' then
        (case args of
           [SInt n] \<Rightarrow>
             (if sint n < 0 \<or> sint n > 4096 then Returns None
              else ok (SStr (concat (replicate (nat (sint n)) a))))
         | _ \<Rightarrow> Returns None)
      else if method = ''=='' then (case args of [b] \<Rightarrow> ok (SBool (b = SStr a)) | _ \<Rightarrow> Returns None)
      else if method \<in> str_lookups then fold_str_lookup a method args
      else Returns None)"

section \<open>Dispatch\<close>

text \<open>The receiver's own folds; \<open>fold\<close> recurses once, from \<open>!=\<close> into \<open>==\<close>.\<close>

definition fold_receiver :: "Scalar \<Rightarrow> string \<Rightarrow> Scalar list \<Rightarrow> Scalar option outcome" where
  "fold_receiver receiver method args =
     (case receiver of
        SInt a \<Rightarrow> fold_int a method args
      | SBigInt _ \<Rightarrow> Returns None
      | SFloat a \<Rightarrow> Returns (fold_float a method args)
      | SBool a \<Rightarrow> Returns (fold_bool a method args)
      | SNil \<Rightarrow> Returns (fold_nil method args)
      | SSym a \<Rightarrow> Returns (fold_sym a method args)
      | SStr a \<Rightarrow> fold_str a method args)"

definition fold_call :: "Scalar \<Rightarrow> string \<Rightarrow> Scalar list \<Rightarrow> Scalar option outcome" where
  "fold_call receiver method args =
     (if method = ''nil?'' \<and> args = [] then Returns (Some (SBool (receiver = SNil)))
      else if method = ''!='' \<and> length args = 1 then
        (case fold_receiver receiver ''=='' args of
           Panics \<Rightarrow> Panics
         | Returns (Some (SBool b)) \<Rightarrow> Returns (Some (SBool (\<not> b)))
         | Returns _ \<Rightarrow> Returns None)
      else fold_receiver receiver method args)"

definition is_foldable :: "string \<Rightarrow> string \<Rightarrow> bool" where
  "is_foldable class method =
     (if class = ''Integer'' then method \<in> {''+'', ''-'', ''*'', ''/'', ''%'', ''**'', ''&'', ''|'', ''^'', ''<<'', ''>>'',
        ''<'', ''<='', ''>'', ''>='', ''=='', ''abs'', ''succ'', ''pred'', ''even?'', ''odd?'', ''zero?'', ''to_s''}
      else if class = ''Float'' then method \<in> {''+'', ''-'', ''*'', ''<'', ''<='', ''>'', ''>='', ''=='', ''abs'', ''<=>''}
      else if class \<in> {''TrueClass'', ''FalseClass'', ''NilClass''} then method \<in> {''!'', ''&'', ''|'', ''==''}
      else if class = ''Symbol'' then method \<in> {''to_s'', ''==''}
      else if class = ''String'' then
        method \<in> {''upcase'', ''downcase'', ''reverse'', ''length'', ''size'', ''+'', ''*'', ''=='', ''empty?''} \<union> str_lookups
      else False)"

fun scalar_class :: "Scalar \<Rightarrow> string" where
  "scalar_class (SInt _) = ''Integer''"
| "scalar_class (SBigInt _) = ''Integer''"
| "scalar_class (SFloat _) = ''Float''"
| "scalar_class (SStr _) = ''String''"
| "scalar_class (SSym _) = ''Symbol''"
| "scalar_class (SBool True) = ''TrueClass''"
| "scalar_class (SBool False) = ''FalseClass''"
| "scalar_class SNil = ''NilClass''"

definition sidecar_foldable :: "string \<Rightarrow> string \<Rightarrow> bool" where
  "sidecar_foldable class method =
     ((class = ''Integer'' \<and> method \<in> {''to_s'', ''gcd''})
      \<or> (class = ''Float'' \<and> method = ''round'')
      \<or> (class = ''String'' \<and> method \<in> {''%'', ''center'', ''ljust'', ''rjust'', ''tr'', ''sub'', ''strip''}))"

definition STRING_FOLD_BYTE_LIMIT :: nat where "STRING_FOLD_BYTE_LIMIT = 4096"

definition sidecar_blows_up :: "string \<Rightarrow> Scalar list \<Rightarrow> bool" where
  "sidecar_blows_up method args \<longleftrightarrow>
     method \<in> {''center'', ''ljust'', ''rjust''} \<and>
     (case args of SInt w # _ \<Rightarrow> sint w > int STRING_FOLD_BYTE_LIMIT | SBigInt _ # _ \<Rightarrow> True | _ \<Rightarrow> False)"

definition is_str_lookup :: "Scalar \<Rightarrow> string \<Rightarrow> bool" where
  "is_str_lookup recv method \<longleftrightarrow> (case recv of SStr _ \<Rightarrow> method \<in> str_lookups | _ \<Rightarrow> False)"

definition declines_unfolded :: "Scalar \<Rightarrow> string \<Rightarrow> bool" where
  "declines_unfolded recv method \<longleftrightarrow>
     (case recv of
        SStr _ \<Rightarrow> method \<in> {''getbyte'', ''rindex'', ''byteindex'', ''byterindex''}
      | SFloat _ \<Rightarrow> method = ''<=>''
      | _ \<Rightarrow> False)"

definition is_nilable_fold :: "Scalar \<Rightarrow> string \<Rightarrow> bool" where
  "is_nilable_fold recv method \<longleftrightarrow>
     is_str_lookup recv method \<or> (case recv of SFloat _ \<Rightarrow> method = ''<=>'' | _ \<Rightarrow> False)"

definition oversized_string_result :: "Scalar \<Rightarrow> bool" where
  "oversized_string_result v \<longleftrightarrow> (case v of SStr s \<Rightarrow> length s > STRING_FOLD_BYTE_LIMIT | _ \<Rightarrow> False)"

section \<open>Size guards\<close>

text \<open>\<open>format_blows_up\<close> scans the directives of a format. \<open>read_spec\<close> reads the flags, digits and
  skipped names after a \<open>%\<close>; it stops in front of the first other byte.\<close>

function read_spec :: "string \<Rightarrow> string \<times> string" where
  "read_spec [] = ([], [])"
| "read_spec (c # rest) =
     (if c = CHR ''<'' \<or> c = CHR ''{'' then
        (case dropWhile (\<lambda>b. b \<noteq> (if c = CHR ''<'' then CHR ''>'' else CHR ''}'')) rest of
           [] \<Rightarrow> ([], c # rest)
         | _ # rest' \<Rightarrow> read_spec rest')
      else if c \<in> set ''-+ 0#*$.'' \<or> is_ascii_digit c then
        (let (spec, rest') = read_spec rest in (c # spec, rest'))
      else ([], c # rest))"
  by pat_completeness auto
termination
proof (relation "measure length", goal_cases)
  case (2 c rest b rest')
  have "length (dropWhile (\<lambda>b. b \<noteq> (if c = CHR ''<'' then CHR ''>'' else CHR ''}'')) rest) \<le> length rest"
    by (rule length_dropWhile_le)
  with 2 show ?case by simp
qed auto

text \<open>Digit runs: \<open>N$\<close> positions are dropped, the other runs are kept.\<close>

function clean_spec :: "string \<Rightarrow> string" where
  "clean_spec [] = []"
| "clean_spec (c # rest) =
     (if is_ascii_digit c then
        (let run = takeWhile is_ascii_digit (c # rest); after = dropWhile is_ascii_digit rest in
         if after \<noteq> [] \<and> hd after = CHR ''$'' then clean_spec (tl after) else run @ clean_spec after)
      else c # clean_spec rest)"
  by pat_completeness auto
termination
  by (relation "measure length") (auto simp: less_Suc_eq_le le_diff_conv
    intro!: le_trans[OF length_dropWhile_le] le_trans[OF diff_le_self])

definition digit_value :: "char \<Rightarrow> nat" where
  "digit_value c = of_char c - 48"

definition number_of :: "string \<Rightarrow> nat" where
  "number_of ds = foldl (\<lambda>v c. 10 * v + digit_value c) 0 ds"

function big_run :: "string \<Rightarrow> bool" where
  "big_run [] = False"
| "big_run (c # rest) =
     (if is_ascii_digit c then
        (let trimmed = dropWhile (\<lambda>b. b = CHR ''0'') (takeWhile is_ascii_digit (c # rest)) in
         if length trimmed > 5 \<or> number_of trimmed > STRING_FOLD_BYTE_LIMIT then True
         else big_run (dropWhile is_ascii_digit rest))
      else big_run rest)"
  by pat_completeness auto
termination
  by (relation "measure length") (auto simp: less_Suc_eq_le intro!: length_dropWhile_le)

text \<open>\<open>(oversized, star)\<close>: a width past the limit was met, or a \<open>*\<close> width was.\<close>

lemma read_spec_shorter: "length (snd (read_spec s)) \<le> length s"
proof (induction s rule: read_spec.induct)
  case (2 c rest)
  let ?close = "if c = CHR ''<'' then CHR ''>'' else CHR ''}''"
  consider (name) "c = CHR ''<'' \<or> c = CHR ''{''"
    | (flag) "\<not> (c = CHR ''<'' \<or> c = CHR ''{'')" "c \<in> set ''-+ 0#*$.'' \<or> is_ascii_digit c"
    | (stop) "\<not> (c = CHR ''<'' \<or> c = CHR ''{'')" "\<not> (c \<in> set ''-+ 0#*$.'' \<or> is_ascii_digit c)"
    by blast
  then show ?case
  proof cases
    case name
    show ?thesis
    proof (cases "dropWhile (\<lambda>b. b \<noteq> ?close) rest")
      case Nil
      have "read_spec (c # rest) = ([], c # rest)" by (subst read_spec.simps) (simp only: name if_True Nil list.case)
      then show ?thesis by simp
    next
      case (Cons b rest')
      have "length (dropWhile (\<lambda>b. b \<noteq> ?close) rest) \<le> length rest" by (rule length_dropWhile_le)
      then have "length rest' < length rest" unfolding Cons by simp
      moreover have "read_spec (c # rest) = read_spec rest'"
        by (subst read_spec.simps) (simp only: name if_True Cons list.case)
      ultimately show ?thesis using "2.IH"(1)[OF name Cons] by simp
    qed
  next
    case flag
    have "read_spec (c # rest) = (let (spec, rest') = read_spec rest in (c # spec, rest'))"
      by (subst read_spec.simps) (simp only: flag if_True if_False)
    then show ?thesis using "2.IH"(2)[OF flag] by (simp add: case_prod_beta)
  next
    case stop
    have "read_spec (c # rest) = ([], c # rest)" by (subst read_spec.simps) (simp only: stop if_False)
    then show ?thesis by simp
  qed
qed simp

function format_scan :: "string \<Rightarrow> bool \<Rightarrow> bool \<times> bool" where
  "format_scan [] star = (False, star)"
| "format_scan (c # rest) star =
     (if c \<noteq> CHR ''%'' then format_scan rest star
      else if rest \<noteq> [] \<and> hd rest = CHR ''%'' then format_scan (tl rest) star
      else let cleaned = clean_spec (fst (read_spec rest)) in
        if big_run cleaned then (True, star)
        else format_scan (snd (read_spec rest)) (star \<or> CHR ''*'' \<in> set cleaned))"
  by pat_completeness auto
termination
  by (relation "measure (\<lambda>(s, _). length s)") (auto simp: less_Suc_eq_le read_spec_shorter)

definition format_blows_up :: "string \<Rightarrow> Scalar list \<Rightarrow> bool" where
  "format_blows_up fmt args =
     (let (big, star) = format_scan fmt False in
      big \<or> (star \<and> list_ex (\<lambda>a. case a of
          SInt n \<Rightarrow> \<bar>sint n\<bar> > int STRING_FOLD_BYTE_LIMIT
        | SBigInt _ \<Rightarrow> True
        | SFloat f \<Rightarrow> is_finite f \<and> \<bar>f64_trunc_int f\<bar> > int STRING_FOLD_BYTE_LIMIT
        | _ \<Rightarrow> False) args))"

text \<open>The closure \<open>operand\<close> of \<open>string_fold_oversized\<close>: \<open>Some None\<close> is a Bignum past any limit.\<close>

definition oversize_operand :: "Scalar \<Rightarrow> int option option" where
  "oversize_operand s =
     (case s of
        SInt n \<Rightarrow> Some (Some (sint n))
      | SBigInt d \<Rightarrow> Some (if d \<noteq> [] \<and> hd d = CHR ''-'' then Some (- 1) else None)
      | SFloat f \<Rightarrow>
          (if is_finite f
           then let bound = f64_trunc_int (of_integer (10 ^ 30)) in
             Some (Some (max (- bound) (min (f64_trunc_int f) bound)))
           else None)
      | _ \<Rightarrow> None)"

definition string_fold_oversized :: "Scalar \<Rightarrow> string \<Rightarrow> Scalar list \<Rightarrow> bool" where
  "string_fold_oversized receiver method args =
     (case receiver of SStr recv \<Rightarrow>
        (let limit = int STRING_FOLD_BYTE_LIMIT; n = int (length recv) in
         if method = ''*'' \<and> length args = 1 then
           (case oversize_operand (hd args) of
              Some (Some k) \<Rightarrow> k \<ge> 0 \<and> n * k > limit | Some None \<Rightarrow> recv \<noteq> [] | None \<Rightarrow> False)
         else if method = ''+'' \<and> length args = 1 \<and> (case hd args of SStr _ \<Rightarrow> True | _ \<Rightarrow> False) then
           (case hd args of SStr b \<Rightarrow> n + int (length b) > limit | _ \<Rightarrow> False)
         else if method = ''%'' \<and> length args = 1 then format_blows_up recv args
         else if method \<in> {''center'', ''ljust'', ''rjust''} \<and> args \<noteq> [] then
           (case oversize_operand (hd args) of Some (Some w) \<Rightarrow> w > limit | Some None \<Rightarrow> True | None \<Rightarrow> False)
         else if args = [] then n \<ge> limit
         else False)
      | _ \<Rightarrow> False)"

end
