(* ===== verification/Kernel_Fold.thy ===== *)
theory Kernel_Fold
  imports Folding
begin

text \<open>
  The conversion functions of \<open>Kernel\<close>, \<open>crates/rigor-infer/src/kernel_fold.rs\<close>: \<open>String()\<close>,
  \<open>Integer()\<close>, \<open>Float()\<close> and \<open>sprintf\<close>, evaluated on literal arguments. \<open>None\<close> is a declined
  fold. A Rust \<open>String\<close> is its UTF-8 bytes; where the code walks characters the model groups the
  bytes of a character (\<open>utf8_chars\<close>).
\<close>

section \<open>String and Integer\<close>

fun ruby_string_of :: "Scalar \<Rightarrow> string" where
  "ruby_string_of (SInt n) = show_i64 n"
| "ruby_string_of (SBigInt d) = d"
| "ruby_string_of (SStr v) = v"
| "ruby_string_of (SSym v) = v"
| "ruby_string_of (SBool b) = show_bool b"
| "ruby_string_of SNil = ''''"
| "ruby_string_of (SFloat f) = ruby_float_to_s f"

definition is_ascii_whitespace :: "char \<Rightarrow> bool" where
  "is_ascii_whitespace c \<longleftrightarrow> c \<in> {CHR '' '', CHR 0x09, CHR 0x0A, CHR 0x0C, CHR 0x0D}"

definition trim_ws :: "string \<Rightarrow> string" where
  "trim_ws s = rev (dropWhile is_ascii_whitespace (rev (dropWhile is_ascii_whitespace s)))"

text \<open>\<open>char::to_digit(36)\<close>.\<close>

definition to_digit36 :: "char \<Rightarrow> int option" where
  "to_digit36 c =
     (if is_ascii_digit c then Some (int (of_char c - 48))
      else if between CHR ''a'' CHR ''z'' c then Some (int (of_char c - 87))
      else if between CHR ''A'' CHR ''Z'' c then Some (int (of_char c - 55))
      else None)"

definition strip_ci_prefix :: "string \<Rightarrow> char \<Rightarrow> string option" where
  "strip_ci_prefix s mark =
     (case s of c # d # rest \<Rightarrow>
        if c = CHR ''0'' \<and> to_ascii_lowercase d = mark then Some rest else None
      | _ \<Rightarrow> None)"

text \<open>The radix prefix: the base it implies and what follows it. A leading \<open>0\<close> means octal and is
  kept as a digit.\<close>

definition radix_prefix :: "string \<Rightarrow> int option \<times> string" where
  "radix_prefix rest =
     (case strip_ci_prefix rest CHR ''x'' of Some r \<Rightarrow> (Some 16, r) | None \<Rightarrow>
     (case strip_ci_prefix rest CHR ''b'' of Some r \<Rightarrow> (Some 2, r) | None \<Rightarrow>
     (case strip_ci_prefix rest CHR ''o'' of Some r \<Rightarrow> (Some 8, r) | None \<Rightarrow>
     (case strip_ci_prefix rest CHR ''d'' of Some r \<Rightarrow> (Some 10, r) | None \<Rightarrow>
        if length rest > 1 \<and> hd rest = CHR ''0'' then (Some 8, rest) else (None, rest)))))"

text \<open>The digit loop: the value so far, whether the previous byte was a digit, whether any was.\<close>

fun digit_loop :: "int \<Rightarrow> string \<Rightarrow> int \<Rightarrow> bool \<Rightarrow> bool \<Rightarrow> (int \<times> bool) option" where
  "digit_loop base [] acc prev saw = Some (acc, saw)"
| "digit_loop base (b # rest) acc prev saw =
     (if b = CHR ''_'' then
        (if \<not> prev \<or> rest = [] then None else digit_loop base rest acc False saw)
      else do {
        d \<leftarrow> to_digit36 b;
        if d \<ge> base then None
        else if acc * base + d > 2 ^ 63 then None
        else digit_loop base rest (acc * base + d) True True })"

definition parse_ruby_integer_str :: "string \<Rightarrow> int option \<Rightarrow> i64 option" where
  "parse_ruby_integer_str input base =
     (if \<not> is_ascii input then None
      else let s = trim_ws input;
        (neg, rest) = (case s of c # r \<Rightarrow> if c = CHR ''+'' then (False, r)
                                        else if c = CHR ''-'' then (True, r) else (False, s)
                       | [] \<Rightarrow> (False, s));
        (prefix_base, digits) = radix_prefix rest
      in do {
        effective \<leftarrow> (case (base, prefix_base) of
            (None, None) \<Rightarrow> Some 10
          | (None, Some b) \<Rightarrow> Some b
          | (Some b, None) \<Rightarrow> Some b
          | (Some b, Some pb) \<Rightarrow> if b = pb then Some b else None);
        if \<not> (2 \<le> effective \<and> effective \<le> 36) then None
        else if digits = [] then None
        else do {
          (acc, saw) \<leftarrow> digit_loop effective digits 0 False False;
          if \<not> saw then None
          else checked_i64 (if neg then - acc else acc) } })"

definition trunc_to_i64 :: "f64 \<Rightarrow> int option" where
  "trunc_to_i64 f = (if is_finite f \<and> fits_i64 (f64_trunc_int f) then Some (f64_trunc_int f) else None)"

definition ruby_integer :: "Scalar \<Rightarrow> int option \<Rightarrow> i64 option" where
  "ruby_integer arg base =
     (case arg of
        SInt n \<Rightarrow> (case base of None \<Rightarrow> Some n | Some _ \<Rightarrow> None)
      | SFloat f \<Rightarrow> (if base \<noteq> None then None else map_option word_of_int (trunc_to_i64 f))
      | SStr s \<Rightarrow> parse_ruby_integer_str s base
      | _ \<Rightarrow> None)"

section \<open>Float\<close>

fun strip_underscores :: "bool \<Rightarrow> string \<Rightarrow> string option" where
  "strip_underscores prev [] = Some []"
| "strip_underscores prev (b # rest) =
     (if b = CHR ''_'' then
        (if \<not> prev \<or> \<not> (case rest of n # _ \<Rightarrow> is_ascii_digit n | [] \<Rightarrow> False) then None
         else strip_underscores False rest)
      else map_option (\<lambda>s. b # s) (strip_underscores (is_ascii_digit b) rest))"

definition strip_underscores_between_digits :: "string \<Rightarrow> string option" where
  "strip_underscores_between_digits input = strip_underscores False input"

text \<open>\<open>str::parse::<f64>\<close> on the decimal grammar, correctly rounded. A magnitude outside
  \<open>10^-400 .. 10^400\<close> is decided without computing the power.\<close>

definition decimal_to_f64 :: "bool \<Rightarrow> string \<Rightarrow> int \<Rightarrow> f64" where
  "decimal_to_f64 neg ds e =
     (let d = number_of ds in
      if d = 0 \<or> int (length ds) + e < - 400 then f64_pack neg 0
      else if e > 400 then f64_inf neg
      else round_units neg (d * 10 ^ nat e * 2 ^ 1074) (10 ^ nat (- e)))"

definition parse_exponent :: "string \<Rightarrow> int option" where
  "parse_exponent s =
     (case s of [] \<Rightarrow> Some 0
      | c # r \<Rightarrow>
          if to_ascii_lowercase c \<noteq> CHR ''e'' then None
          else let (neg, ds) = (case r of d # r' \<Rightarrow> if d = CHR ''-'' then (True, r')
                                               else if d = CHR ''+'' then (False, r') else (False, r)
                                | [] \<Rightarrow> (False, r))
            in if ds = [] \<or> \<not> list_all is_ascii_digit ds then None
               else Some (if neg then - int (number_of ds) else int (number_of ds)))"

definition parse_f64 :: "string \<Rightarrow> f64 option" where
  "parse_f64 s =
     (let (neg, r) = (case s of c # r \<Rightarrow> if c = CHR ''-'' then (True, r)
                                       else if c = CHR ''+'' then (False, r) else (False, s)
                      | [] \<Rightarrow> (False, s));
          whole = takeWhile is_ascii_digit r; r1 = dropWhile is_ascii_digit r;
          (frac, r2) = (case r1 of c # r' \<Rightarrow>
                          if c = CHR ''.'' then (takeWhile is_ascii_digit r', dropWhile is_ascii_digit r')
                          else ([], r1)
                        | [] \<Rightarrow> ([], r1))
      in if whole @ frac = [] then None
         else map_option (\<lambda>e. decimal_to_f64 neg (whole @ frac) (e - int (length frac))) (parse_exponent r2))"

definition contains_sub :: "string \<Rightarrow> string \<Rightarrow> bool" where
  "contains_sub a sub \<longleftrightarrow> find_sub a sub \<noteq> None"

definition parse_ruby_float_str :: "string \<Rightarrow> f64 option" where
  "parse_ruby_float_str input =
     (if \<not> is_ascii input then None
      else let s = trim_ws input in
        if s = [] then None
        else let unsigned = (if hd s \<in> {CHR ''+'', CHR ''-''} then tl s else s) in
          if length unsigned \<ge> 2 \<and> (take 2 unsigned = ''0x'' \<or> take 2 unsigned = ''0X'') then None
          else do {
            cleaned \<leftarrow> strip_underscores_between_digits s;
            let lower = map to_ascii_lowercase cleaned;
            if contains_sub lower ''inf'' \<or> contains_sub lower ''nan'' then None
            else if \<not> list_ex is_ascii_digit cleaned then None
            else do {
              f \<leftarrow> parse_f64 cleaned;
              if is_finite f then Some f else None } })"

definition ruby_float :: "Scalar \<Rightarrow> f64 option" where
  "ruby_float arg =
     (case arg of
        SInt n \<Rightarrow> Some (of_integer (sint n))
      | SFloat f \<Rightarrow> Some f
      | SStr s \<Rightarrow> parse_ruby_float_str s
      | _ \<Rightarrow> None)"

section \<open>Formatting one value\<close>

record Flags =
  minus :: bool
  zero :: bool
  plus :: bool
  space :: bool
  hash :: bool

definition no_flags :: Flags where
  "no_flags = \<lparr>minus = False, zero = False, plus = False, space = False, hash = False\<rparr>"

text \<open>The digits are looked up in a table of sixteen: a remainder past it panics, and so does the
  remainder by a radix of 0. In a radix of 1 the loop would not end; its buffer grows until memory does,
  which is counted as a panic.\<close>

definition DIGITS :: string where
  "DIGITS = ''0123456789abcdef''"

function radix_loop_digits :: "nat \<Rightarrow> nat \<Rightarrow> bool \<Rightarrow> string outcome" where
  "radix_loop_digits n r upper =
     (if n = 0 then Returns []
      else if r < 2 then Panics
      else if n mod r \<ge> length DIGITS then Panics
      else let ch = DIGITS ! (n mod r) in
        map_outcome (\<lambda>buf. (if upper then to_ascii_uppercase ch else ch) # buf)
          (radix_loop_digits (n div r) r upper))"
  by pat_completeness auto
termination by (relation "measure (\<lambda>(n, r, u). n)") auto
declare radix_loop_digits.simps [simp del]

definition to_radix :: "nat \<Rightarrow> nat \<Rightarrow> bool \<Rightarrow> string outcome" where
  "to_radix mag radix upper =
     (if mag = 0 then Returns ''0'' else map_outcome rev (radix_loop_digits mag radix upper))"

definition pad :: "string \<Rightarrow> string \<Rightarrow> Flags \<Rightarrow> nat option \<Rightarrow> bool \<Rightarrow> string" where
  "pad body sign flags width precision_given =
     (case width of None \<Rightarrow> sign @ body
      | Some w \<Rightarrow>
          let content_len = length sign + length body in
          if content_len \<ge> w then sign @ body
          else let padding = w - content_len in
            if minus flags then sign @ body @ replicate padding CHR '' ''
            else if zero flags \<and> \<not> precision_given then sign @ replicate padding CHR ''0'' @ body
            else replicate padding CHR '' '' @ sign @ body)"

text \<open>A precision is a minimum number of digits; precision 0 of the value 0 is empty.\<close>

definition min_digits :: "string \<Rightarrow> bool \<Rightarrow> nat option \<Rightarrow> string" where
  "min_digits digits nought precision =
     (case precision of None \<Rightarrow> digits
      | Some p \<Rightarrow>
          if nought \<and> p = 0 then ''''
          else if length digits < p then replicate (p - length digits) CHR ''0'' @ digits
          else digits)"

text \<open>What renders a radix returns an \<open>outcome\<close> of the \<open>Option\<close> of the code.\<close>

definition fmt_integer :: "int \<Rightarrow> nat \<Rightarrow> bool \<Rightarrow> Flags \<Rightarrow> nat option \<Rightarrow> nat option \<Rightarrow> string option outcome" where
  "fmt_integer v radix upper flags width precision =
     map_outcome (\<lambda>shown.
       (let digits = min_digits shown (v = 0) precision;
            sign = (if v < 0 then ''-'' else if plus flags then ''+'' else if space flags then '' '' else '''')
        in Some (pad digits sign flags width (precision \<noteq> None))))
       (to_radix (nat \<bar>v\<bar>) radix upper)"

definition fmt_radix_arg ::
  "Scalar list \<Rightarrow> nat \<Rightarrow> bool \<Rightarrow> string \<Rightarrow> Flags \<Rightarrow> nat option \<Rightarrow> nat option \<Rightarrow> string option outcome" where
  "fmt_radix_arg args radix upper alt_prefix flags width precision =
     (case args of SInt n # _ \<Rightarrow>
        if sint n \<ge> 0 then
          let v = nat (sint n) in
          map_outcome (\<lambda>shown.
            (let digits = min_digits shown (v = 0) precision;
                 prefix = (if hash flags \<and> v \<noteq> 0 then alt_prefix else '''')
             in Some (pad (prefix @ digits) '''' flags width (precision \<noteq> None))))
            (to_radix v radix upper)
        else Returns None
      | _ \<Rightarrow> Returns None)"

function utf8_chars :: "string \<Rightarrow> string list" where
  "utf8_chars [] = []"
| "utf8_chars (c # s) = (c # takeWhile continues_char s) # utf8_chars (dropWhile continues_char s)"
  by pat_completeness auto
termination by (relation "measure length") (auto simp: less_Suc_eq_le length_dropWhile_le)

definition fmt_string :: "string \<Rightarrow> Flags \<Rightarrow> nat option \<Rightarrow> nat option \<Rightarrow> string option" where
  "fmt_string s flags width precision =
     (let chars = (case precision of Some p \<Rightarrow> take p (utf8_chars s) | None \<Rightarrow> utf8_chars s);
          truncated = concat chars; len = length chars
      in case width of None \<Rightarrow> Some truncated
         | Some w \<Rightarrow>
             if len \<ge> w then Some truncated
             else let padding = replicate (w - len) CHR '' '' in
               if minus flags then Some (truncated @ padding) else Some (padding @ truncated))"

definition is_simple_string :: "string \<Rightarrow> bool" where
  "is_simple_string s \<longleftrightarrow> list_all (\<lambda>c. (between CHR ''!'' CHR ''~'' c \<and> c \<noteq> CHR ''#'') \<or> c = CHR '' '') s"

definition is_simple_symbol :: "string \<Rightarrow> bool" where
  "is_simple_symbol s \<longleftrightarrow>
     s \<noteq> [] \<and> (is_ascii_alphabetic (hd s) \<or> hd s = CHR ''_'') \<and> list_all identchar s"

text \<open>Rust's \<open>{:?}\<close> of a printable ASCII string.\<close>

definition debug_string :: "string \<Rightarrow> string" where
  "debug_string s = dquote # concat (map (\<lambda>c. if c = dquote \<or> c = backslash then [backslash, c] else [c]) s) @ [dquote]"

definition ruby_inspect :: "Scalar \<Rightarrow> string option" where
  "ruby_inspect s =
     (case s of
        SInt n \<Rightarrow> Some (show_i64 n)
      | SFloat f \<Rightarrow> (if is_finite f then Some (ruby_float_to_s f) else None)
      | SBool b \<Rightarrow> Some (show_bool b)
      | SNil \<Rightarrow> Some ''nil''
      | SSym v \<Rightarrow> (if is_simple_symbol v then Some (CHR '':'' # v) else None)
      | SStr v \<Rightarrow> (if is_simple_string v then Some (debug_string v) else None)
      | SBigInt _ \<Rightarrow> None)"

text \<open>\<open>char::from_u32\<close> and the UTF-8 encoding of a code point.\<close>

definition utf8_encode :: "nat \<Rightarrow> string" where
  "utf8_encode n =
     (if n < 128 then [char_of n]
      else if n < 2048 then [char_of (192 + n div 64), char_of (128 + n mod 64)]
      else if n < 65536 then [char_of (224 + n div 4096), char_of (128 + n div 64 mod 64), char_of (128 + n mod 64)]
      else [char_of (240 + n div 262144), char_of (128 + n div 4096 mod 64), char_of (128 + n div 64 mod 64),
            char_of (128 + n mod 64)])"

definition char_value :: "Scalar \<Rightarrow> string option" where
  "char_value s =
     (case s of
        SInt n \<Rightarrow>
          (let cp = sint n in
           if 0 \<le> cp \<and> cp < 0x110000 \<and> \<not> (0xD800 \<le> cp \<and> cp < 0xE000) then Some (utf8_encode (nat cp)) else None)
      | SStr v \<Rightarrow> (case utf8_chars v of [c] \<Rightarrow> Some c | _ \<Rightarrow> None)
      | _ \<Rightarrow> None)"

definition int_value :: "Scalar \<Rightarrow> int option" where
  "int_value s =
     (case s of SInt n \<Rightarrow> Some (sint n) | SFloat f \<Rightarrow> trunc_to_i64 f | _ \<Rightarrow> None)"

section \<open>Format templates\<close>

fun parse_flags :: "string \<Rightarrow> Flags \<Rightarrow> Flags \<times> string" where
  "parse_flags [] flags = (flags, [])"
| "parse_flags (c # rest) flags =
     (if c = CHR ''-'' then parse_flags rest (flags\<lparr>minus := True\<rparr>)
      else if c = CHR ''0'' then parse_flags rest (flags\<lparr>zero := True\<rparr>)
      else if c = CHR ''+'' then parse_flags rest (flags\<lparr>plus := True\<rparr>)
      else if c = CHR '' '' then parse_flags rest (flags\<lparr>space := True\<rparr>)
      else if c = CHR ''#'' then parse_flags rest (flags\<lparr>hash := True\<rparr>)
      else (flags, c # rest))"

definition starts_with_char :: "string \<Rightarrow> char \<Rightarrow> bool" where
  "starts_with_char s c \<longleftrightarrow> (case s of d # _ \<Rightarrow> d = c | [] \<Rightarrow> False)"

definition capped_number :: "string \<Rightarrow> nat option" where
  "capped_number ds = (if number_of ds > STRING_FOLD_BYTE_LIMIT then None else Some (number_of ds))"

definition parse_width :: "string \<Rightarrow> nat option option" where
  "parse_width wstr = (if wstr = [] then Some None else map_option Some (capped_number wstr))"

definition parse_precision :: "string \<Rightarrow> (nat option \<times> string) option" where
  "parse_precision r =
     (if starts_with_char r CHR ''.'' then
        (if starts_with_char (tl r) CHR ''*'' then None
         else map_option (\<lambda>p. (Some p, dropWhile is_ascii_digit (tl r)))
                (capped_number (takeWhile is_ascii_digit (tl r))))
      else Some (None, r))"

text \<open>What follows a \<open>%\<close>: flags, width, precision, conversion and the rest of the template.\<close>

definition parse_directive ::
  "string \<Rightarrow> (Flags \<times> nat option \<times> nat option \<times> char \<times> string) option" where
  "parse_directive s =
     (let (flags, r1) = parse_flags s no_flags in
      if starts_with_char r1 CHR ''*'' then None
      else let wstr = takeWhile is_ascii_digit r1; r2 = dropWhile is_ascii_digit r1 in
      if starts_with_char r2 CHR ''$'' then None
      else do {
        width \<leftarrow> parse_width wstr;
        (precision, r3) \<leftarrow> parse_precision r2;
        (case r3 of [] \<Rightarrow> None | conv # r4 \<Rightarrow> Some (flags, width, precision, conv, r4)) })"

definition format_segment ::
  "char \<Rightarrow> Flags \<Rightarrow> nat option \<Rightarrow> nat option \<Rightarrow> Scalar list \<Rightarrow> string option outcome" where
  "format_segment conv flags width precision args =
     (if conv \<in> {CHR ''d'', CHR ''i'', CHR ''u''} then
        (case args of
           arg # _ \<Rightarrow>
             (case int_value arg of
                None \<Rightarrow> Returns None
              | Some v \<Rightarrow> fmt_integer v 10 False flags width precision)
         | [] \<Rightarrow> Returns None)
      else if conv = CHR ''x'' then fmt_radix_arg args 16 False ''0x'' flags width precision
      else if conv = CHR ''X'' then fmt_radix_arg args 16 True ''0X'' flags width precision
      else if conv = CHR ''o'' then fmt_radix_arg args 8 False ''0'' flags width precision
      else if conv = CHR ''b'' then fmt_radix_arg args 2 False ''0b'' flags width precision
      else if conv = CHR ''B'' then fmt_radix_arg args 2 False ''0B'' flags width precision
      else if conv = CHR ''s'' then
        Returns (case args of arg # _ \<Rightarrow> fmt_string (ruby_string_of arg) flags width precision | [] \<Rightarrow> None)
      else if conv = CHR ''p'' then
        Returns (case args of arg # _ \<Rightarrow> do { s \<leftarrow> ruby_inspect arg; fmt_string s flags width precision } | [] \<Rightarrow> None)
      else if conv = CHR ''c'' then
        Returns (case args of arg # _ \<Rightarrow>
           if precision \<noteq> None then None else do { s \<leftarrow> char_value arg; fmt_string s flags width None }
         | [] \<Rightarrow> None)
      else Returns None)"

lemma parse_flags_shorter: "length (snd (parse_flags s f)) \<le> length s"
  by (induction s f rule: parse_flags.induct) (auto simp: le_SucI)

lemma parse_precision_shorter: "parse_precision r = Some (p, r') \<Longrightarrow> length r' \<le> length r"
  using length_dropWhile_le[of is_ascii_digit "tl r"]
  by (auto simp: parse_precision_def split: if_splits)

lemma parse_directive_shorter:
  assumes "parse_directive s = Some (flags, width, precision, conv, rest)"
  shows "length rest < length s"
proof -
  obtain f r1 where f: "parse_flags s no_flags = (f, r1)" by fastforce
  obtain p r3 where p: "parse_precision (dropWhile is_ascii_digit r1) = Some (p, r3)" "r3 = conv # rest"
    using assms by (auto simp: parse_directive_def f Let_def bind_eq_Some_conv neq_Nil_conv split: if_splits list.splits)
  have "length r1 \<le> length s" using parse_flags_shorter[of s no_flags] f by simp
  moreover have "length (dropWhile is_ascii_digit r1) \<le> length r1" by (rule length_dropWhile_le)
  ultimately show ?thesis using parse_precision_shorter[OF p(1)] p(2) by simp
qed

function sprintf_loop :: "string \<Rightarrow> Scalar list \<Rightarrow> string \<Rightarrow> string option outcome" where
  "sprintf_loop [] args out =
     Returns (if args \<noteq> [] then None else if length out > STRING_FOLD_BYTE_LIMIT then None else Some out)"
| "sprintf_loop (c # rest) args out =
     (if c \<noteq> CHR ''%'' then
        (if length (out @ [c]) > STRING_FOLD_BYTE_LIMIT then Returns None else sprintf_loop rest args (out @ [c]))
      else if starts_with_char rest CHR ''%'' then sprintf_loop (tl rest) args (out @ ''%'')
      else (case parse_directive rest of
          None \<Rightarrow> Returns None
        | Some (flags, width, precision, conv, rest') \<Rightarrow>
            (case format_segment conv flags width precision args of
               Panics \<Rightarrow> Panics
             | Returns None \<Rightarrow> Returns None
             | Returns (Some segment) \<Rightarrow>
                 if length (out @ segment) > STRING_FOLD_BYTE_LIMIT then Returns None
                 else sprintf_loop rest' (tl args) (out @ segment))))"
  by pat_completeness auto
termination
  by (relation "measure (\<lambda>(s, _, _). length s)") (auto dest: parse_directive_shorter)

definition sprintf :: "string \<Rightarrow> Scalar list \<Rightarrow> string option outcome" where
  "sprintf template args = sprintf_loop template args ''''"

end
