(* ===== verification/Float_Laws.thy ===== *)
theory Float_Laws
  imports Float64
begin

text \<open>
  Facts about the float model: a packed magnitude reads back, a representable integer number of
  units is rounded to itself, and the integer part of a float is exact.
\<close>

lemma bit_length_upper: "n < 2 ^ bit_length n"
proof (induction n rule: bit_length.induct)
  case (1 n)
  then show ?case by (cases "n = 0") (auto simp: bit_length.simps[of n])
qed

lemma bit_length_lower: "0 < n \<Longrightarrow> 2 ^ (bit_length n - 1) \<le> n"
proof (induction n rule: bit_length.induct)
  case (1 n)
  show ?case
  proof (cases "n div 2 = 0")
    case True
    with 1 show ?thesis by (simp add: bit_length.simps[of n] bit_length.simps[of 0])
  next
    case False
    then have p: "0 < bit_length (n div 2)" by (simp add: bit_length.simps[of "n div 2"])
    have "2 ^ (bit_length (n div 2) - 1) \<le> n div 2" using 1 False by simp
    then have "2 * 2 ^ (bit_length (n div 2) - 1) \<le> n" by simp
    with p 1 show ?thesis by (simp add: bit_length.simps[of n] power_Suc[symmetric] del: power_Suc)
  qed
qed

lemma bit_length_le: "n < 2 ^ k \<Longrightarrow> bit_length n \<le> k"
proof (rule ccontr)
  assume n: "n < 2 ^ k" and b: "\<not> bit_length n \<le> k"
  then have "0 < n" by (auto simp: bit_length.simps[of 0] intro: gr0I)
  then have "2 ^ (bit_length n - 1) \<le> n" by (rule bit_length_lower)
  moreover have "(2 :: nat) ^ k \<le> 2 ^ (bit_length n - 1)" using b by (intro power_increasing) simp_all
  ultimately have "2 ^ k \<le> n" by (rule le_trans[rotated])
  with n show False by simp
qed

section \<open>Packing\<close>

lemma unat_pack:
  assumes "m \<le> 2047 * 2 ^ 52"
  shows "unat (f64_pack s m) = (if s then 2 ^ 63 else 0) + m"
proof -
  define x where "x = (if s then 2 ^ 63 else 0) + m"
  have "x < 2 ^ 64" using assms by (simp add: x_def)
  then show ?thesis unfolding f64_pack_def x_def[symmetric] by (simp add: unat_of_nat)
qed

lemma pack_fields:
  assumes "m \<le> 2047 * 2 ^ 52"
  shows "f64_exponent (f64_pack s m) = m div 2 ^ 52" "f64_fraction (f64_pack s m) = m mod 2 ^ 52"
    "f64_sign (f64_pack s m) = s"
proof -
  have e: "m div 2 ^ 52 < 2048" using assms by simp
  have x: "unat (f64_pack s m) = m + (if s then 2048 else 0) * 2 ^ 52"
    unfolding unat_pack[OF assms] by simp
  have d: "unat (f64_pack s m) div 2 ^ 52 = (if s then 2048 else 0) + m div 2 ^ 52"
    unfolding x by (rule div_mult_self1) simp
  show "f64_exponent (f64_pack s m) = m div 2 ^ 52"
    unfolding f64_exponent_def unat_drop_bit_eq drop_bit_eq_div[of 52 "unat _"] d using e by simp
  show "f64_fraction (f64_pack s m) = m mod 2 ^ 52"
    unfolding f64_fraction_def x by (rule mod_mult_self1)
  have "bit (unat (f64_pack s m)) 63 = s"
  proof (cases s)
    case True
    have "(2 ^ 63 + m) div 2 ^ 63 = 1" by (rule div_nat_eqI) (use assms in simp_all)
    with True show ?thesis unfolding unat_pack[OF assms] bit_iff_odd by simp
  next
    case False
    then show ?thesis unfolding unat_pack[OF assms] bit_iff_odd using assms by simp
  qed
  then show "f64_sign (f64_pack s m) = s"
    by (simp add: f64_sign_def bit_unsigned_iff)
qed

lemma pack_units:
  assumes "q < 2 ^ 53" "k \<le> 2045" "k = 0 \<or> 2 ^ 52 \<le> q"
  shows "f64_units (f64_pack s (k * 2 ^ 52 + q)) = (if s then - 1 else 1) * int (q * 2 ^ k)
    \<and> is_finite (f64_pack s (k * 2 ^ 52 + q))"
proof -
  let ?m = "k * 2 ^ 52 + q"
  have m: "?m \<le> 2047 * 2 ^ 52" using assms by simp
  have dm: "?m div 2 ^ 52 = k + q div 2 ^ 52" "?m mod 2 ^ 52 = q mod 2 ^ 52"
    by (simp_all add: div_mult_self3 add.commute)
  define b where "b = f64_pack s ?m"
  note f = pack_fields[OF m, of s, folded b_def, unfolded dm]
  show "f64_units (f64_pack s ?m) = (if s then - 1 else 1) * int (q * 2 ^ k) \<and> is_finite (f64_pack s ?m)"
    unfolding b_def[symmetric]
  proof (cases "q < 2 ^ 52")
    case True
    with assms(3) have "k = 0" by simp
    with True show "f64_units b = (if s then - 1 else 1) * int (q * 2 ^ k) \<and> is_finite b"
      by (simp add: f64_units_def f64_mantissa_def f64_scale_def is_finite_def f)
  next
    case False
    then have "q div 2 ^ 52 = 1" "q mod 2 ^ 52 = q - 2 ^ 52"
      using assms(1) by (auto intro!: div_nat_eqI simp: le_mod_geq)
    with False assms(2) show "f64_units b = (if s then - 1 else 1) * int (q * 2 ^ k) \<and> is_finite b"
      by (simp add: f64_units_def f64_mantissa_def f64_scale_def is_finite_def f)
  qed
qed

lemma round_exact:
  assumes d: "2 ^ (bit_length n - 53) dvd n" and small: "bit_length n \<le> 2098"
  shows "f64_units (round_units s n 1) = (if s then - 1 else 1) * int n \<and> is_finite (round_units s n 1)"
proof -
  let ?k = "bit_length n - 53" and ?q = "n div 2 ^ (bit_length n - 53)"
  have n: "?q * 2 ^ ?k = n" using d by simp
  have "n < 2 ^ bit_length n" by (rule bit_length_upper)
  also have "\<dots> \<le> 2 ^ (53 + ?k)" by (intro power_increasing) simp_all
  finally have q: "?q < 2 ^ 53" by (simp add: power_add less_mult_imp_div_less)
  have lo: "?k = 0 \<or> 2 ^ 52 \<le> ?q"
  proof (cases "?k = 0")
    case False
    then have "0 < n" by (auto simp: bit_length.simps[of 0] intro: gr0I)
    then have "2 ^ (bit_length n - 1) \<le> n" by (rule bit_length_lower)
    moreover have "bit_length n - 1 = 52 + ?k" using False by simp
    ultimately have "2 ^ 52 * 2 ^ ?k \<le> n" by (simp only: power_add)
    then have "2 ^ 52 \<le> ?q" by (simp add: less_eq_div_iff_mult_less_eq)
    then show ?thesis ..
  qed simp
  have k: "?k \<le> 2045" using small by simp
  have "?k * 2 ^ 52 + ?q \<le> 2047 * 2 ^ 52" using q k by simp
  moreover have "n mod 2 ^ ?k = 0" using d by simp
  ultimately have "round_units s n 1 = f64_pack s (?k * 2 ^ 52 + ?q)"
    by (simp add: round_units_def Let_def min_absorb1)
  with pack_units[OF q k lo, of s] n show ?thesis by simp
qed

section \<open>Integer part\<close>

lemma mantissa_small: "f64_mantissa b < 2 ^ 53"
proof -
  have "f64_fraction b < 2 ^ 52" by (simp add: f64_fraction_def)
  then show ?thesis by (simp add: f64_mantissa_def)
qed

lemma scale_small: "is_finite b \<Longrightarrow> f64_scale b \<le> 2045"
proof -
  assume "is_finite b"
  moreover have "f64_exponent b < 2048" by (simp add: f64_exponent_def)
  ultimately show ?thesis by (auto simp: f64_scale_def is_finite_def)
qed

lemma units_magnitude: "\<bar>f64_units b\<bar> = int (f64_mantissa b * 2 ^ f64_scale b)"
  by (simp add: f64_units_def abs_mult)

lemma trunc_units:
  assumes "is_finite b"
  shows "f64_units (f64_trunc b) = f64_trunc_int b * one_unit" "is_finite (f64_trunc b)"
proof -
  let ?u = "f64_mantissa b * 2 ^ f64_scale b" and ?o = "2 ^ 1074 :: nat"
  define n where "n = ?u div ?o * ?o"
  have "n \<le> ?u" by (simp add: n_def)
  also have "?u < 2 ^ 53 * 2 ^ f64_scale b" using mantissa_small by simp
  finally have len: "bit_length n \<le> 53 + f64_scale b" by (intro bit_length_le) (simp add: power_add)
  have "2 ^ (bit_length n - 53) dvd n"
  proof (cases "1074 \<le> f64_scale b")
    case True
    then have "?o dvd ?u" by (intro dvd_mult le_imp_power_dvd)
    then have "n = ?u" by (simp add: n_def)
    moreover have "(2 :: nat) ^ (bit_length n - 53) dvd 2 ^ f64_scale b" using len by (intro le_imp_power_dvd) simp
    ultimately show ?thesis by simp
  next
    case False
    then have "(2 :: nat) ^ (bit_length n - 53) dvd ?o" using len by (intro le_imp_power_dvd) simp
    then show ?thesis unfolding n_def by (rule dvd_mult)
  qed
  moreover have "bit_length n \<le> 2098" using len scale_small[OF assms] by simp
  ultimately have r: "f64_units (round_units s n 1) = (if s then - 1 else 1) * int n \<and> is_finite (round_units s n 1)" for s
    by (rule round_exact)
  have t: "f64_trunc_int b = (if f64_sign b then - 1 else 1) * int (?u div ?o)"
    unfolding f64_trunc_int_def units_magnitude one_unit_def by (simp add: zdiv_int)
  have n': "nat \<bar>f64_trunc_int b * one_unit\<bar> = n"
    unfolding t one_unit_def n_def by (simp add: abs_mult nat_mult_distrib)
  have "f64_trunc b = round_units (f64_sign b) n 1" using assms n' by (simp add: f64_trunc_def)
  with r[of "f64_sign b"] show "f64_units (f64_trunc b) = f64_trunc_int b * one_unit" "is_finite (f64_trunc b)"
    by (simp_all add: t one_unit_def n_def)
qed

section \<open>Comparison\<close>

lemma finite_keys:
  assumes "is_finite a"
  shows "\<not> is_nan a" "f64_key a = f64_units a"
  using assms by (auto simp: is_finite_def is_nan_def is_infinite_def f64_key_def)

lemma finite_cmp:
  "is_finite a \<Longrightarrow> is_finite b \<Longrightarrow> partial_cmp a b = Some (cmp_of (f64_units a) (f64_units b))"
  by (simp add: partial_cmp_def finite_keys)

lemma finite_lt: "is_finite a \<Longrightarrow> is_finite b \<Longrightarrow> f64_lt a b \<longleftrightarrow> f64_units a < f64_units b"
  by (auto simp: f64_lt_def finite_cmp cmp_of_def)

lemma finite_le: "is_finite a \<Longrightarrow> is_finite b \<Longrightarrow> f64_le a b \<longleftrightarrow> f64_units a \<le> f64_units b"
  by (auto simp: f64_le_def finite_cmp cmp_of_def)

lemma power2_units:
  assumes "p \<le> 1000"
  shows "f64_units (of_integer (2 ^ p)) = 2 ^ p * one_unit" "f64_units (of_integer (- (2 ^ p))) = - (2 ^ p) * one_unit"
    "is_finite (of_integer (2 ^ p))" "is_finite (of_integer (- (2 ^ p)))"
proof -
  let ?n = "2 ^ (p + 1074) :: nat"
  have len: "bit_length ?n = p + 1075"
  proof (rule antisym)
    show "bit_length ?n \<le> p + 1075" by (rule bit_length_le) simp
    have "?n < 2 ^ bit_length ?n" by (rule bit_length_upper)
    then show "p + 1075 \<le> bit_length ?n" by simp
  qed
  then have "2 ^ (bit_length ?n - 53) dvd ?n" by (simp add: le_imp_power_dvd)
  moreover have "bit_length ?n \<le> 2098" using len assms by simp
  ultimately have r: "f64_units (round_units s ?n 1) = (if s then - 1 else 1) * int ?n \<and> is_finite (round_units s ?n 1)" for s
    by (rule round_exact)
  have "2 ^ p * one_unit = int ?n" by (simp only: one_unit_def power_add of_nat_power of_nat_numeral of_nat_mult)
  then have "of_integer (2 ^ p) = round_units False ?n 1" "of_integer (- (2 ^ p)) = round_units True ?n 1"
    by (simp_all only: of_integer_def of_units_def mult_minus_left, simp_all add: nat_power_eq)
  with r[of False] r[of True] show "f64_units (of_integer (2 ^ p)) = 2 ^ p * one_unit"
    "f64_units (of_integer (- (2 ^ p))) = - (2 ^ p) * one_unit"
    "is_finite (of_integer (2 ^ p))" "is_finite (of_integer (- (2 ^ p)))"
    by (simp_all add: one_unit_def power_add)
qed

text \<open>The remainder of the integer part has the sign of the float and is smaller than one.\<close>

lemma trunc_remainder:
  obtains r where "f64_units b = f64_trunc_int b * one_unit + r" "\<bar>r\<bar> < one_unit"
proof
  let ?m = "\<bar>f64_units b\<bar>" and ?s = "if f64_sign b then - 1 else 1 :: int"
  have u: "f64_units b = ?s * ?m" by (simp add: f64_units_def abs_mult)
  have "?s * ?m = ?s * (?m div one_unit * one_unit + ?m mod one_unit)" by simp
  also have "\<dots> = f64_trunc_int b * one_unit + ?s * (?m mod one_unit)"
    by (simp only: f64_trunc_int_def distrib_left mult.assoc)
  finally show "f64_units b = f64_trunc_int b * one_unit + ?s * (?m mod one_unit)" using u by simp
  have "0 < one_unit" by (simp add: one_unit_def)
  then show "\<bar>?s * (?m mod one_unit)\<bar> < one_unit" by (simp add: abs_mult)
qed

lemma two_63_units:
  "f64_units two_63 = 2 ^ 63 * one_unit" "is_finite two_63"
  "f64_units (f64_neg two_63) = - (2 ^ 63) * one_unit" "is_finite (f64_neg two_63)"
proof -
  have p: "f64_units (f64_pack s (1085 * 2 ^ 52 + 2 ^ 52)) = (if s then - 1 else 1) * int (2 ^ 52 * 2 ^ 1085)
      \<and> is_finite (f64_pack s (1085 * 2 ^ 52 + 2 ^ 52))" for s
    by (rule pack_units) simp_all
  have c: "int (2 ^ 52 * 2 ^ 1085) = 2 ^ 63 * one_unit"
    by (simp only: one_unit_def of_nat_mult of_nat_power of_nat_numeral power_add[symmetric]) simp
  have t: "two_63 = f64_pack False (1085 * 2 ^ 52 + 2 ^ 52)" "f64_neg two_63 = f64_pack True (1085 * 2 ^ 52 + 2 ^ 52)"
    by (simp_all add: two_63_def f64_neg_def f64_pack_def)
  show "f64_units two_63 = 2 ^ 63 * one_unit" "is_finite two_63"
    "f64_units (f64_neg two_63) = - (2 ^ 63) * one_unit" "is_finite (f64_neg two_63)"
    using p[of False, folded t(1), unfolded c] p[of True, folded t(2), unfolded c] by simp_all
qed

end
