(* ===== verification/Folding_Laws.thy ===== *)
theory Folding_Laws
  imports Folding Float_Laws
begin

text \<open>
  What the folds compute, against Ruby's own operations on unbounded integers, on strings and
  between floats and integers; where folding departs from them; and when it can panic.
\<close>

section \<open>Signed words\<close>

lemma sint_range: "- (2 ^ 63) \<le> sint (a :: i64)" "sint (a :: i64) < 2 ^ 63"
  using sint_ge[of a] sint_lt[of a] by simp_all

lemma sint_word_of_int: "fits_i64 v \<Longrightarrow> sint (word_of_int v :: i64) = v"
  by (simp add: fits_i64_def sint_sbintrunc' signed_take_bit_int_eq_self)

lemma fits_sint [simp]: "fits_i64 (sint (a :: i64))"
  using sint_range[of a] by (simp add: fits_i64_def)

lemma checked_i64_Some: "checked_i64 v = Some c \<longleftrightarrow> fits_i64 v \<and> c = word_of_int v"
  by (auto simp: checked_i64_def)

lemma checked_i64_sint: "checked_i64 v = Some c \<Longrightarrow> sint c = v"
  by (auto simp: checked_i64_Some sint_word_of_int)

lemma shift_fits:
  assumes "fits_i64 (sint (a :: i64) * 2 ^ n)"
  shows "sint (push_bit n a) = sint a * 2 ^ n"
proof -
  have "word_of_int (sint a * 2 ^ n) = (word_of_int (sint a) :: i64) * 2 ^ n" by simp
  then have "push_bit n a = word_of_int (sint a * 2 ^ n)" by (simp add: push_bit_eq_mult)
  with sint_word_of_int[OF assms] show ?thesis by simp
qed

lemma fits_between: "fits_i64 v \<Longrightarrow> fits_i64 w \<Longrightarrow> min v w \<le> u \<Longrightarrow> u \<le> max v w \<Longrightarrow> fits_i64 u"
  by (auto simp: fits_i64_def min_def max_def split: if_splits)

lemma fits_0 [simp]: "fits_i64 0" by (simp add: fits_i64_def)

section \<open>Ruby's integer operations\<close>

text \<open>Ruby's result of an arithmetic or bit operator on unbounded integers; division and modulo
  round toward negative infinity.\<close>

definition ruby_int_op :: "string \<Rightarrow> int \<Rightarrow> int \<Rightarrow> int option" where
  "ruby_int_op m x y =
     (if m = ''+'' then Some (x + y) else if m = ''-'' then Some (x - y) else if m = ''*'' then Some (x * y)
      else if m = ''/'' then Some (x div y) else if m = ''%'' then Some (x mod y)
      else if m = ''**'' then Some (x ^ nat y)
      else if m = ''&'' then Some (and x y) else if m = ''|'' then Some (or x y) else if m = ''^'' then Some (xor x y)
      else if m = ''<<'' then Some (x * 2 ^ nat y) else if m = ''>>'' then Some (x div 2 ^ nat y)
      else None)"

lemma rem_trunc_nonzero: "b \<noteq> 0 \<Longrightarrow>
    (if rem_trunc a b \<noteq> 0 \<and> (rem_trunc a b < 0) \<noteq> (b < 0) then rem_trunc a b + b else rem_trunc a b) = a mod b"
proof -
  assume b: "b \<noteq> 0"
  have m: "a mod b = (if b < 0 then (if a mod \<bar>b\<bar> = 0 then 0 else a mod \<bar>b\<bar> + b) else a mod \<bar>b\<bar>)"
    using b by (auto simp: zmod_zminus2_eq_if[of a "- b", simplified])
  have n: "(- a) mod \<bar>b\<bar> = (if a mod \<bar>b\<bar> = 0 then 0 else \<bar>b\<bar> - a mod \<bar>b\<bar>)"
    using b by (simp add: zmod_zminus1_eq_if)
  have r: "0 \<le> a mod \<bar>b\<bar>" "a mod \<bar>b\<bar> < \<bar>b\<bar>" using b by simp_all
  show ?thesis using r unfolding m rem_trunc_def n by auto
qed

lemma mod_range: "(b :: int) \<noteq> 0 \<Longrightarrow> min 0 b \<le> a mod b \<and> a mod b \<le> max 0 b"
  using pos_mod_bound[of b a] pos_mod_sign[of b a] neg_mod_bound[of b a] neg_mod_sign[of b a]
  by (cases "b > 0") (auto simp: min_def max_def intro: less_imp_le)

lemma ruby_mod_spec:
  assumes "b \<noteq> 0"
  shows "ruby_mod a b = (if sint a = - (2 ^ 63) \<and> sint b = - 1 then Panics else Returns (word_of_int (sint a mod sint b)))"
    "sint (word_of_int (sint a mod sint b) :: i64) = sint a mod sint b"
proof -
  have b: "sint b \<noteq> 0" using assms signed_eq_0_iff by blast
  show "ruby_mod a b = (if sint a = - (2 ^ 63) \<and> sint b = - 1 then Panics else Returns (word_of_int (sint a mod sint b)))"
    unfolding ruby_mod_def Let_def rem_trunc_nonzero[OF b] by (simp only: assms simp_thms)
  show "sint (word_of_int (sint a mod sint b) :: i64) = sint a mod sint b"
    using mod_range[OF b, of "sint a"]
    by (intro sint_word_of_int fits_between[OF fits_0 fits_sint[of b]]) simp_all
qed

lemma drop_bit_fits: "fits_i64 (drop_bit n (sint (a :: i64)))"
proof -
  let ?x = "sint a" and ?d = "2 ^ n :: int" and ?L = "2 ^ 63 :: int"
  have d: "1 \<le> ?d" by simp
  have "?L * 1 \<le> ?L * ?d" using d by (intro mult_left_mono) simp_all
  then have L: "- ?L * ?d \<le> ?x" "?x < ?L * ?d" using sint_range[of a] by linarith+
  have "(- ?L * ?d) div ?d \<le> ?x div ?d" using L(1) by (rule zdiv_mono1) simp
  moreover have "?x div ?d < ?L"
  proof (rule ccontr)
    assume "\<not> ?x div ?d < ?L"
    then have "?L * ?d \<le> ?x div ?d * ?d" by (intro mult_right_mono) simp_all
    moreover have "?x div ?d * ?d \<le> ?x" by (simp add: minus_mod_eq_div_mult[symmetric])
    ultimately show False using L(2) by linarith
  qed
  moreover have "(- ?L * ?d) div ?d = - ?L" by (rule nonzero_mult_div_cancel_right) simp
  ultimately show ?thesis unfolding fits_i64_def drop_bit_eq_div by simp
qed

lemma bitop_fits:
  "sint (and a b :: i64) = and (sint a) (sint b)" "sint (or a b :: i64) = or (sint a) (sint b)"
  "sint (xor a b :: i64) = xor (sint a) (sint b)"
  by (simp_all add: signed_and_eq signed_or_eq signed_xor_eq)

lemma div_pos_exact:
  assumes "0 < y" shows "div_euclid x y = x div y"
  using assms by (simp add: div_euclid_def)

text \<open>One operator at a time: an \<open>Integer\<close> result is Ruby's exact result.\<close>

lemma fold_int_value:
  assumes f: "fold_int a m [SInt b] = Returns (Some (SInt c))"
    and div: "m = ''/'' \<Longrightarrow> 0 < sint b" and shl: "m = ''<<'' \<Longrightarrow> fits_i64 (sint a * 2 ^ nat (sint b))"
  shows "ruby_int_op m (sint a) (sint b) = Some (sint c)"
proof -
  consider "m = ''+''" | "m = ''-''" | "m = ''*''" | "m = ''/''" | "m = ''%''" | "m = ''**''" | "m = ''&''" | "m = ''|''"
    | "m = ''^''" | "m = ''<<''" | "m = ''>>''"
    using f by (auto simp: fold_int_def Let_def split: if_splits)
  then show ?thesis
  proof cases
    case 4
    then show ?thesis
      using f div by (auto simp: fold_int_def ruby_int_op_def div_pos_exact Let_def checked_i64_sint split: if_splits)
  next
    case 5
    then show ?thesis
      using f ruby_mod_spec[of b a] signed_eq_0_iff[of b]
      by (auto simp: fold_int_def ruby_int_op_def Let_def simp del: signed_eq_0_iff split: if_splits)
  next
    case 10
    then show ?thesis
      using f shift_fits[OF shl] by (simp add: fold_int_def ruby_int_op_def Let_def split: if_splits)
  next
    case 11
    then show ?thesis
      using f drop_bit_fits[of "nat (sint b)" a]
      by (auto simp: fold_int_def ruby_int_op_def Let_def sint_word_of_int drop_bit_eq_div split: if_splits)
  qed (use f in \<open>auto simp: fold_int_def ruby_int_op_def Let_def bitop_fits checked_i64_sint split: if_splits\<close>)
qed

text \<open>The two inputs on which an operator is not Ruby's: a division by a negative divisor that leaves a
  remainder, and a left shift whose result leaves 64 bits.\<close>

definition departs :: "string \<Rightarrow> int \<Rightarrow> int \<Rightarrow> bool" where
  "departs m x y \<longleftrightarrow>
     (m = ''/'' \<and> y < 0 \<and> \<not> y dvd x) \<or> (m = ''<<'' \<and> \<not> fits_i64 (x * 2 ^ nat y))"

lemma euclid_negative:
  assumes "(y :: int) < 0"
  shows "div_euclid x y = x div y \<longleftrightarrow> y dvd x"
proof -
  have "x div y = - (x div (- y)) - (if x mod (- y) = 0 then 0 else 1)"
    using zdiv_zminus2_eq_if[of "- y" x] assms by simp
  then show ?thesis using assms by (auto simp: div_euclid_def mod_eq_0_iff_dvd)
qed

lemma fold_int_departs:
  assumes f: "fold_int a m [SInt b] = Returns (Some (SInt c))"
  shows "ruby_int_op m (sint a) (sint b) = Some (sint c) \<longleftrightarrow> \<not> departs m (sint a) (sint b)"
proof -
  consider (div) "m = ''/''" "sint b < 0" | (shl) "m = ''<<''" "\<not> fits_i64 (sint a * 2 ^ nat (sint b))"
    | (rest) "m = ''/'' \<Longrightarrow> 0 \<le> sint b" "m = ''<<'' \<Longrightarrow> fits_i64 (sint a * 2 ^ nat (sint b))"
    by linarith
  then show ?thesis
  proof cases
    case div
    have "sint c = div_euclid (sint a) (sint b)"
      using f div by (auto simp: fold_int_def Let_def checked_i64_sint split: if_splits)
    then show ?thesis
      using div euclid_negative[OF div(2), of "sint a"] by (auto simp: ruby_int_op_def departs_def)
  next
    case shl
    then have "sint a * 2 ^ nat (sint b) \<noteq> sint c" using fits_sint[of c] by metis
    then show ?thesis using shl by (simp add: ruby_int_op_def departs_def)
  next
    case rest
    have "m = ''/'' \<Longrightarrow> sint b \<noteq> 0" using f by (auto simp: fold_int_def Let_def split: if_splits)
    then have "m = ''/'' \<Longrightarrow> 0 < sint b" using rest(1) by force
    then have "ruby_int_op m (sint a) (sint b) = Some (sint c)" using f rest(2) by (intro fold_int_value)
    moreover have "\<not> departs m (sint a) (sint b)" using rest by (auto simp: departs_def)
    ultimately show ?thesis by simp
  qed
qed

section \<open>Panics and the catalogue\<close>

lemma ruby_mod_panics: "ruby_mod a b = Panics \<longleftrightarrow> b = 0 \<or> (sint a = - (2 ^ 63) \<and> sint b = - 1)"
  by (auto simp: ruby_mod_def Let_def)

lemma if_Panics:
  "(if c then x else y) = Panics \<longleftrightarrow> (if c then x = Panics else y = Panics)"
  by simp

lemma case_args_Panics:
  "(case args of [SInt b] \<Rightarrow> f b | _ \<Rightarrow> Returns x) = Panics \<longleftrightarrow> (\<exists>b. args = [SInt b] \<and> f b = Panics)"
  by (auto split: list.splits Scalar.splits)

lemma fold_int_panics:
  "fold_int a m args = Panics \<longleftrightarrow>
   m = ''%'' \<and> (\<exists>b. args = [SInt b] \<and> sint a = - (2 ^ 63) \<and> sint b = - 1)"
proof (cases "m = ''%''")
  case True
  have "sint b \<noteq> 0 \<Longrightarrow> (case ruby_mod a b of Panics \<Rightarrow> Panics | Returns r \<Rightarrow> Returns (Some (SInt r))) = Panics
      \<longleftrightarrow> (sint a = - (2 ^ 63) \<and> sint b = - 1)" for b
    using ruby_mod_panics[of a b] by (auto split: outcome.splits)
  note mod = this
  show ?thesis
  proof (cases "\<exists>b. args = [SInt b]")
    case True
    then obtain b where b: "args = [SInt b]" by blast
    then show ?thesis
      using mod[of b] \<open>m = ''%''\<close> by (cases "sint b = 0") (simp_all add: fold_int_def Let_def)
  next
    case False
    then show ?thesis
      using \<open>m = ''%''\<close> by (simp add: fold_int_def Let_def case_args_Panics)
  qed
next
  case False
  then show ?thesis
    unfolding fold_int_def Let_def by (simp add: if_Panics case_args_Panics cong: if_cong)
qed

text \<open>The slices of the string lookups stay inside an ASCII receiver that is not longer than a
  Rust string can be.\<close>

lemma map_outcome_Panics [simp]: "map_outcome f x = Panics \<longleftrightarrow> x = Panics"
  by (cases x) simp_all

lemma ascii_boundary:
  assumes "is_ascii s" "i \<le> length s"
  shows "char_boundary s i"
proof (cases "i = length s")
  case False
  then have i: "i < length s" using assms(2) by simp
  then have "(of_char (s ! i) :: nat) < 128" using assms(1) nth_mem by (fastforce simp: is_ascii_def)
  then have "(of_char (s ! i) :: nat) div 64 < 2" by (simp add: less_mult_imp_div_less)
  then show ?thesis using i by (simp add: char_boundary_def continues_char_def)
qed (simp add: char_boundary_def)

lemma slice_ascii:
  "is_ascii s \<Longrightarrow> i \<le> j \<Longrightarrow> j \<le> length s \<Longrightarrow> slice_str s i j = Returns (take (j - i) (drop i s))"
  by (simp add: slice_str_def ascii_boundary)

lemma as_usize_small: "0 \<le> v \<Longrightarrow> v < 2 ^ 63 \<Longrightarrow> as_usize v = nat v"
  by (simp add: as_usize_def)

lemma lookup_substr_value:
  assumes "is_ascii a" "length a < 2 ^ 63"
  shows "lookup_substr a start count =
    (let s = (if start < 0 then start + int (length a) else start) in
     if count < 0 \<or> s < 0 \<or> s > int (length a) then Returns SNil
     else Returns (SStr (take (nat (min (s + count) (int (length a))) - nat s) (drop (nat s) a))))"
proof -
  have "min (min (s + count) (2 ^ 63 - 1)) (int (length a)) = min (s + count) (int (length a))" for s
    using assms(2) by simp
  then show ?thesis
    using assms by (auto simp: lookup_substr_def Let_def as_usize_small slice_ascii)
qed

lemma rindex_lookup_value:
  assumes "is_ascii a" "length a < 2 ^ 63" "0 \<le> start"
  shows "rindex_lookup a sub start =
    (if length sub > length a then Returns SNil
     else Returns (opt_index 0 (rfind_sub (take (nat (min (start + int (length sub)) (int (length a)))) a) sub)))"
  using assms by (auto simp: rindex_lookup_def Let_def as_usize_small slice_ascii)

lemma fold_str_lookup_returns:
  assumes "length a < 2 ^ 63"
  shows "fold_str_lookup a m args \<noteq> Panics"
proof (cases "is_ascii a")
  case True
  have lr: "lookup_substr a s c \<noteq> Panics" for s c
    using lookup_substr_value[OF True assms] by (simp add: Let_def)
  have rr: "0 \<le> s \<Longrightarrow> rindex_lookup a sub s \<noteq> Panics" for sub s
    using rindex_lookup_value[OF True assms] by simp
  have one: "0 \<le> i \<Longrightarrow> i < int (length a) \<Longrightarrow> slice_str a (as_usize i) (as_usize i + 1) \<noteq> Panics" for i
    using assms by (simp add: as_usize_small slice_ascii[OF True] Suc_le_eq nat_less_iff)
  have tail: "0 \<le> i \<Longrightarrow> i \<le> int (length a) \<Longrightarrow> slice_str a (as_usize i) (length a) \<noteq> Panics" for i
    using assms by (simp add: as_usize_small slice_ascii[OF True] nat_le_iff)
  have at: "0 \<le> i \<Longrightarrow> i < int (length a) \<Longrightarrow> as_usize i < length a" for i
    using assms by (simp add: as_usize_small nat_less_iff)
  show ?thesis
    using True lr rr one tail at
    by (auto simp: fold_str_lookup_def Let_def split: list.splits Scalar.splits)
qed (simp add: fold_str_lookup_def)

lemma fold_str_returns: "length a < 2 ^ 63 \<Longrightarrow> fold_str a m args \<noteq> Panics"
  using fold_str_lookup_returns[of a m args]
  by (auto simp: fold_str_def Let_def split: list.splits Scalar.splits)

definition rust_sized :: "Scalar \<Rightarrow> bool" where
  "rust_sized r = (case r of SStr a \<Rightarrow> length a < 2 ^ 63 | _ \<Rightarrow> True)"

lemma fold_receiver_panics:
  "rust_sized r \<Longrightarrow> fold_receiver r m args = Panics \<longleftrightarrow>
   m = ''%'' \<and> (\<exists>a b. r = SInt a \<and> args = [SInt b] \<and> sint a = - (2 ^ 63) \<and> sint b = - 1)"
  by (cases r) (simp_all add: fold_receiver_def fold_int_panics rust_sized_def fold_str_returns)

lemma not_foldable:
  assumes "\<not> is_foldable c m"
  shows "c = ''Integer'' \<Longrightarrow> fold_int a m args = Returns None"
    and "c = ''Float'' \<Longrightarrow> fold_float f m args = None"
    and "c \<in> {''TrueClass'', ''FalseClass''} \<Longrightarrow> fold_bool b m args = None"
    and "c = ''NilClass'' \<Longrightarrow> fold_nil m args = None"
    and "c = ''Symbol'' \<Longrightarrow> fold_sym s m args = None"
    and "c = ''String'' \<Longrightarrow> fold_str s m args = Returns None"
  using assms
  by (auto simp: is_foldable_def fold_int_def fold_float_def fold_bool_def fold_nil_def fold_sym_def fold_str_def
    Let_def split: list.split Scalar.split)

lemma fold_receiver_catalogue:
  assumes "fold_receiver r m args = Returns (Some s)"
  shows "is_foldable (scalar_class r) m"
proof (rule ccontr)
  assume n: "\<not> is_foldable (scalar_class r) m"
  show False
    using assms not_foldable[OF n] by (cases r rule: scalar_class.cases) (simp_all add: fold_receiver_def)
qed

section \<open>Searching strings\<close>

lemma find_sub_Some:
  assumes "find_sub a sub = Some p"
  shows "starts_at a sub p" "p \<le> length a" "q < p \<Longrightarrow> \<not> starts_at a sub q"
  using assms by (auto simp: find_sub_def find_Some_iff nth_append split: if_splits)

lemma find_sub_None: "find_sub a sub = None \<longleftrightarrow> (\<forall>p \<le> length a. \<not> starts_at a sub p)"
  by (auto simp: find_sub_def find_None_iff less_Suc_eq_le simp del: upt_Suc)

lemma starts_at_fits: "starts_at a sub p \<Longrightarrow> p \<le> length a \<Longrightarrow> p + length sub \<le> length a"
  unfolding starts_at_def by (metis add.commute add_le_mono1 le_add_diff_inverse2 length_drop length_take min.cobounded1 min.absorb_iff2)

lemma rfind_sub_Some:
  assumes "rfind_sub a sub = Some p"
  shows "starts_at a sub p" "p \<le> length a" "p < q \<Longrightarrow> q \<le> length a \<Longrightarrow> \<not> starts_at a sub q"
proof -
  obtain k where k: "k < Suc (length a)" "starts_at a sub (length a - k)" "p = length a - k"
    "\<And>j. j < k \<Longrightarrow> \<not> starts_at a sub (length a - j)"
    using assms unfolding rfind_sub_def find_Some_iff by (auto simp: rev_nth simp del: upt_Suc)
  show "starts_at a sub p" "p \<le> length a" using k by simp_all
  show "\<not> starts_at a sub q" if "p < q" "q \<le> length a" using k(4)[of "length a - q"] k(3) that by simp
qed

lemma rfind_sub_None: "rfind_sub a sub = None \<longleftrightarrow> (\<forall>p \<le> length a. \<not> starts_at a sub p)"
  by (auto simp: rfind_sub_def find_None_iff less_Suc_eq_le simp del: upt_Suc)

section \<open>Floats against integers\<close>

lemma cmp_of_shift:
  fixes t b r o' :: int
  assumes "0 < o'" "\<bar>r\<bar> < o'"
  shows "cmp_of (t * o' + r) (b * o') = ord_then (cmp_of t b) (cmp_of r 0)"
proof -
  consider "t < b" | "t = b" | "b < t" by linarith
  then show ?thesis
  proof cases
    case 1
    then have "(t + 1) * o' \<le> b * o'" using assms(1) by (intro mult_right_mono) simp_all
    then have "t * o' + r < b * o'" using assms(2) by (simp add: distrib_right)
    with 1 show ?thesis by (simp add: cmp_of_def)
  next
    case 2
    then show ?thesis by (simp add: cmp_of_def)
  next
    case 3
    then have "(b + 1) * o' \<le> t * o'" using assms(1) by (intro mult_right_mono) simp_all
    then have "b * o' < t * o' + r" using assms(2) by (simp add: distrib_right)
    with 3 show ?thesis by (simp add: cmp_of_def)
  qed
qed

lemma one_unit_pos: "0 < one_unit"
  by (simp add: one_unit_def)

lemma float_cmp_int:
  assumes fin: "is_finite a"
  shows "float_cmp a [SInt b] = Some (SInt (ordering_int (cmp_of (f64_units a) (sint b * one_unit))))"
proof -
  have b: "sint b * one_unit < 2 ^ 63 * one_unit" "- (2 ^ 63) * one_unit \<le> sint b * one_unit"
    by (rule mult_strict_right_mono[OF sint_range(2) one_unit_pos],
        rule mult_right_mono[OF sint_range(1) less_imp_le[OF one_unit_pos]])
  note c = finite_le[OF two_63_units(2) fin, unfolded two_63_units]
    finite_lt[OF fin two_63_units(4), unfolded two_63_units]
  consider (big) "2 ^ 63 * one_unit \<le> f64_units a" | (small) "f64_units a < - (2 ^ 63) * one_unit"
    | (mid) "\<not> 2 ^ 63 * one_unit \<le> f64_units a" "\<not> f64_units a < - (2 ^ 63) * one_unit" by blast
  then show ?thesis
  proof cases
    case big
    then have "sint b * one_unit < f64_units a" using b by linarith
    with big fin c show ?thesis by (simp add: float_cmp_def ordering_int_def cmp_of_def)
  next
    case small
    then have "f64_units a < sint b * one_unit" using b by linarith
    moreover have "\<not> 2 ^ 63 * one_unit \<le> f64_units a" using small b by linarith
    ultimately show ?thesis using small fin c by (simp add: float_cmp_def ordering_int_def cmp_of_def)
  next
    case mid
    obtain r where r: "f64_units a = f64_trunc_int a * one_unit + r" "\<bar>r\<bar> < one_unit"
      by (rule trunc_remainder)
    note t = trunc_units[OF fin]
    have w: "(if f64_lt (f64_trunc a) a then Greater else if f64_lt a (f64_trunc a) then Less else Equal) = cmp_of r 0"
      by (simp add: finite_lt[OF t(2) fin] finite_lt[OF fin t(2)] t(1) r(1) cmp_of_def)
    have "cmp_of (f64_units a) (sint b * one_unit) = ord_then (cmp_of (f64_trunc_int a) (sint b)) (cmp_of r 0)"
      unfolding r(1) by (rule cmp_of_shift[OF one_unit_pos r(2)])
    with mid fin c w show ?thesis by (simp add: float_cmp_def Let_def)
  qed
qed

end
