(* ===== verification/Kernel_Laws.thy ===== *)
theory Kernel_Laws
  imports Kernel_Fold Folding_Laws
begin

text \<open>
  Printing and reading integers are inverse, padding has the width asked for, and a format
  template accepts one number of arguments only.
\<close>

section \<open>Digits\<close>

text \<open>The text of a number in a base up to 36, and the table of the code inside its sixteen digits.\<close>

definition radix_digit :: "bool \<Rightarrow> nat \<Rightarrow> char" where
  "radix_digit upper d =
     (if d < 10 then char_of (48 + d) else if upper then char_of (55 + d) else char_of (87 + d))"

function radix_digits :: "nat \<Rightarrow> nat \<Rightarrow> bool \<Rightarrow> string" where
  "radix_digits n r upper =
     (if n = 0 \<or> r < 2 then [] else radix_digits (n div r) r upper @ [radix_digit upper (n mod r)])"
  by pat_completeness auto
termination by (relation "measure (\<lambda>(n, r, u). n)") auto
declare radix_digits.simps [simp del]

definition radix_text :: "nat \<Rightarrow> nat \<Rightarrow> bool \<Rightarrow> string" where
  "radix_text mag radix upper = (if mag = 0 then ''0'' else radix_digits mag radix upper)"

lemma table_digit:
  "d < 16 \<Longrightarrow> (let ch = DIGITS ! d in if upper then to_ascii_uppercase ch else ch) = radix_digit upper d"
proof -
  have "\<forall>u \<in> {True, False}. list_all (\<lambda>d. (let ch = DIGITS ! d in if u then to_ascii_uppercase ch else ch)
      = radix_digit u d) [0, 1, 2, 3, 4, 5, 6, 7, 8, 9, 10, 11, 12, 13, 14, 15]" by code_simp
  then show "d < 16 \<Longrightarrow> (let ch = DIGITS ! d in if upper then to_ascii_uppercase ch else ch) = radix_digit upper d"
    by (cases upper) (auto simp: less_Suc_eq numeral_eq_Suc)
qed

lemma radix_loop_digits_text:
  assumes "2 \<le> r" "r \<le> 16"
  shows "radix_loop_digits n r upper = Returns (rev (radix_digits n r upper))"
proof (induction n rule: less_induct)
  case (less n)
  have d: "n mod r < 16" using assms by (simp add: order.strict_trans2[of _ r])
  moreover have "length DIGITS = 16" by (simp add: DIGITS_def)
  ultimately show ?case
    using less.IH[of "n div r"] assms table_digit[OF d, of upper]
    by (subst radix_loop_digits.simps, subst radix_digits.simps) (simp add: Let_def)
qed

lemma to_radix_text: "2 \<le> r \<Longrightarrow> r \<le> 16 \<Longrightarrow> to_radix n r upper = Returns (radix_text n r upper)"
  by (simp add: to_radix_def radix_text_def radix_loop_digits_text)


lemma to_digit36_radix: "d < 36 \<Longrightarrow> to_digit36 (radix_digit upper d) = Some (int d)"
  by (auto simp: to_digit36_def radix_digit_def is_ascii_digit_def between_def)

lemma radix_digit_not_underscore: "d < 36 \<Longrightarrow> radix_digit upper d \<noteq> CHR ''_''"
  using to_digit36_radix[of d upper] by (auto simp: to_digit36_def is_ascii_digit_def between_def)

lemma digit_loop_radix:
  assumes r: "2 \<le> r" "r \<le> 36"
  shows "n \<le> 2 ^ 63 \<Longrightarrow> 0 < n \<Longrightarrow> digit_loop (int r) (radix_digits n r upper @ ys) 0 prev saw = digit_loop (int r) ys (int n) True True"
proof (induction n arbitrary: ys rule: less_induct)
  case (less n)
  let ?d = "n mod r"
  have d: "?d < 36" using r by (simp add: order.strict_trans2[of _ r])
  have "?d < r" using r by simp
  then have dr: "\<not> int ?d \<ge> int r" by simp
  have step: "digit_loop (int r) (radix_digit upper ?d # ys) acc p s = digit_loop (int r) ys (acc * int r + int ?d) True True"
    if "acc * int r + int ?d = int n" for acc p s
    using that less.prems dr to_digit36_radix[OF d, of upper] radix_digit_not_underscore[OF d, of upper] by simp
  show ?case
  proof (cases "n div r = 0")
    case True
    then have "radix_digits n r upper = [radix_digit upper ?d]"
      using r less.prems by (subst radix_digits.simps) (simp add: radix_digits.simps[of 0])
    moreover have "?d = n" using True r by (simp add: div_eq_0_iff)
    ultimately show ?thesis using step[of 0] by simp
  next
    case False
    have "n div r < n" using r less.prems by simp
    moreover have "n div r \<le> 2 ^ 63" using less.prems(1) by (rule le_trans[OF div_le_dividend])
    ultimately have "digit_loop (int r) (radix_digits (n div r) r upper @ (radix_digit upper ?d # ys)) 0 prev saw
        = digit_loop (int r) (radix_digit upper ?d # ys) (int (n div r)) True True"
      using False by (intro less.IH) simp_all
    moreover have "int (n div r) * int r + int ?d = int n"
      by (metis div_mult_mod_eq of_nat_add of_nat_mult)
    moreover have "radix_digits n r upper = radix_digits (n div r) r upper @ [radix_digit upper ?d]"
      using r less.prems by (subst radix_digits.simps) simp
    ultimately show ?thesis using step by simp
  qed
qed

lemma digits_of_radix: "0 < n \<Longrightarrow> digits_of n = radix_digits n 10 upper"
proof (induction n rule: less_induct)
  case (less n)
  show ?case
  proof (cases "n < 10")
    case True
    with less.prems show ?thesis
      by (simp add: digits_of.simps[of n] radix_digits.simps[of n] radix_digits.simps[of 0] radix_digit_def)
  next
    case False
    with less.IH[of "n div 10"] less.prems show ?thesis
      by (simp add: digits_of.simps[of n] radix_digits.simps[of n] radix_digit_def)
  qed
qed

lemma digits_of_to_radix: "digits_of n = radix_text n 10 upper"
  using digits_of_radix[of n upper] by (cases "n = 0") (simp_all add: radix_text_def digits_of.simps[of 0] char_of_eq_iff)

text \<open>The characters of a printed number: no whitespace, no sign, no leading zero.\<close>

definition plain_digit :: "char \<Rightarrow> bool" where
  "plain_digit c \<longleftrightarrow> (of_char c :: nat) < 128 \<and> \<not> is_ascii_whitespace c \<and> c \<noteq> CHR ''+'' \<and> c \<noteq> CHR ''-''"

lemma plain_radix_digit: "d < 36 \<Longrightarrow> plain_digit (radix_digit upper d)"
proof -
  assume d: "d < 36"
  obtain v where v: "to_digit36 (radix_digit upper d) = Some v" using to_digit36_radix[OF d] by blast
  have "plain_digit c" if "to_digit36 c = Some v" for c
    using that
    by (auto simp: to_digit36_def is_ascii_digit_def between_def plain_digit_def is_ascii_whitespace_def split: if_splits)
  with v show ?thesis by blast
qed

lemma radix_digit_zero: "0 < d \<Longrightarrow> d < 36 \<Longrightarrow> radix_digit upper d \<noteq> CHR ''0''"
  using to_digit36_radix[of d upper] by (auto simp: to_digit36_def is_ascii_digit_def between_def)

lemma radix_digits_plain:
  assumes r: "2 \<le> r" "r \<le> 36"
  shows "0 < n \<Longrightarrow> radix_digits n r upper \<noteq> [] \<and> hd (radix_digits n r upper) \<noteq> CHR ''0''
    \<and> list_all plain_digit (radix_digits n r upper)"
proof (induction n rule: less_induct)
  case (less n)
  have d: "n mod r < 36" using r by (simp add: order.strict_trans2[of _ r])
  have u: "radix_digits n r upper = radix_digits (n div r) r upper @ [radix_digit upper (n mod r)]"
    using r less.prems by (subst radix_digits.simps) simp
  show ?case
  proof (cases "n div r = 0")
    case True
    then have "n mod r = n" using r by (simp add: div_eq_0_iff)
    then show ?thesis
      using True d less.prems radix_digit_zero[of n upper]
      by (simp add: u radix_digits.simps[of 0] plain_radix_digit)
  next
    case False
    have "n div r < n" using r less.prems by simp
    then show ?thesis using less.IH[of "n div r"] False d by (simp add: u plain_radix_digit)
  qed
qed

lemma radix_text_plain:
  assumes "2 \<le> r" "r \<le> 36"
  shows "radix_text n r upper \<noteq> [] \<and> list_all plain_digit (radix_text n r upper)
    \<and> (1 < length (radix_text n r upper) \<longrightarrow> hd (radix_text n r upper) \<noteq> CHR ''0'')"
  using radix_digits_plain[OF assms, of n upper]
  by (cases "n = 0") (auto simp: radix_text_def plain_digit_def is_ascii_whitespace_def)

lemma plain_signed:
  assumes "sign = [] \<or> sign = ''-''" "list_all plain_digit s" "c \<in> set (sign @ s)"
  shows "\<not> is_ascii_whitespace c \<and> (of_char c :: nat) < 128"
proof -
  have m: "\<not> is_ascii_whitespace CHR ''-'' \<and> (of_char CHR ''-'' :: nat) < 128" by (simp add: is_ascii_whitespace_def)
  have "\<not> is_ascii_whitespace c \<and> (of_char c :: nat) < 128" if "c \<in> set s"
    using assms(2) that unfolding list_all_iff plain_digit_def by blast
  moreover have "c = CHR ''-'' \<or> c \<in> set s"
    using assms(1,3) by (elim disjE) simp_all
  ultimately show ?thesis using m by blast
qed

lemma trim_plain:
  assumes "sign = [] \<or> sign = ''-''" "s \<noteq> []" "list_all plain_digit s"
  shows "trim_ws (sign @ s) = sign @ s"
proof -
  note w = plain_signed[OF assms(1,3), THEN conjunct1]
  have ne: "sign @ s \<noteq> []" using assms(2) by simp
  have "dropWhile is_ascii_whitespace (sign @ s) = sign @ s"
    using w[OF hd_in_set[OF ne]] dropWhile_eq_self_iff[of is_ascii_whitespace "sign @ s"] by blast
  moreover have "dropWhile is_ascii_whitespace (rev (sign @ s)) = rev (sign @ s)"
    using w[OF last_in_set[OF ne]] dropWhile_eq_self_iff[of is_ascii_whitespace "rev (sign @ s)"]
    unfolding hd_rev by blast
  ultimately show ?thesis unfolding trim_ws_def by (simp only: rev_rev_ident)
qed

lemma radix_prefix_plain:
  assumes "1 < length s \<longrightarrow> hd s \<noteq> CHR ''0''"
  shows "radix_prefix s = (None, s)"
  using assms by (auto simp: radix_prefix_def strip_ci_prefix_def split: list.splits)

lemma digit_loop_to_radix:
  assumes "2 \<le> r" "r \<le> 36" "n \<le> 2 ^ 63"
  shows "digit_loop (int r) (radix_text n r upper) 0 False False = Some (int n, True)"
proof (cases "n = 0")
  case True
  then show ?thesis using assms by (simp add: radix_text_def to_digit36_def is_ascii_digit_def between_def)
next
  case False
  then show ?thesis using digit_loop_radix[OF assms(1,2,3), of upper "[]"] by (simp add: radix_text_def)
qed

lemma parse_printed:
  assumes r: "2 \<le> r" "r \<le> 36" and n: "n \<le> 2 ^ 63" and sign: "sign = [] \<or> sign = ''-''"
    and base: "base = Some (int r) \<or> (base = None \<and> r = 10)"
  shows "parse_ruby_integer_str (sign @ radix_text n r upper) base
    = checked_i64 (if sign = ''-'' then - int n else int n)"
proof -
  let ?s = "radix_text n r upper"
  have p: "?s \<noteq> []" "list_all plain_digit ?s" "1 < length ?s \<longrightarrow> hd ?s \<noteq> CHR ''0''"
    using radix_text_plain[OF r, of n upper] by auto
  have asc: "is_ascii (sign @ ?s)" unfolding is_ascii_def using plain_signed[OF sign p(2)] by blast
  have hp: "hd ?s \<noteq> CHR ''+''" "hd ?s \<noteq> CHR ''-''"
    using p(2) hd_in_set[OF p(1)] unfolding list_all_iff plain_digit_def by blast+
  have sg: "(case sign @ ?s of c # r \<Rightarrow> if c = CHR ''+'' then (False, r) else if c = CHR ''-'' then (True, r) else (False, sign @ ?s)
      | [] \<Rightarrow> (False, sign @ ?s)) = (sign = ''-'', ?s)"
    using sign
  proof
    assume "sign = []"
    with p(1) hp show ?thesis by (cases ?s) simp_all
  qed simp
  have rng: "2 \<le> int r" "int r \<le> 36" using r by simp_all
  have l10: "r = 10 \<Longrightarrow> digit_loop 10 ?s 0 False False = Some (int n, True)"
    using digit_loop_to_radix[OF r n, of upper] by simp
  show ?thesis
    using base
  proof (elim disjE conjE)
    assume b: "base = Some (int r)"
    show ?thesis
      unfolding parse_ruby_integer_str_def Let_def trim_plain[OF sign p(1,2)] sg prod.case radix_prefix_plain[OF p(3)] b
      using asc rng p(1) digit_loop_to_radix[OF r n, of upper] by simp
  next
    assume b: "base = None" "r = 10"
    show ?thesis
      unfolding parse_ruby_integer_str_def Let_def trim_plain[OF sign p(1,2)] sg prod.case radix_prefix_plain[OF p(3)] b(1)
      using asc p(1) l10[OF b(2)] by simp
  qed
qed

section \<open>Padding and templates\<close>

lemma pad_length: "length (pad body sign flags (Some w) p) = max w (length sign + length body)"
  by (auto simp: pad_def Let_def)

lemma format_segment_args: "format_segment conv flags w p args = Returns (Some s) \<Longrightarrow> args \<noteq> []"
  by (cases args) (auto simp: format_segment_def fmt_radix_arg_def split: if_splits)

lemma format_segment_returns: "format_segment conv flags w p args \<noteq> Panics"
  by (auto simp: format_segment_def fmt_radix_arg_def fmt_integer_def to_radix_text Let_def
      split: list.splits Scalar.splits option.splits)

lemma sprintf_loop_returns: "sprintf_loop t args out \<noteq> Panics"
  by (induction t args out rule: sprintf_loop.induct)
    (auto simp: format_segment_returns split: option.splits outcome.splits)

lemma sprintf_loop_limit: "sprintf_loop t args out = Returns (Some s) \<Longrightarrow> length s \<le> STRING_FOLD_BYTE_LIMIT"
  by (induction t args out rule: sprintf_loop.induct) (auto split: if_splits option.splits outcome.splits)

lemma sprintf_loop_arity:
  "sprintf_loop t args out = Returns (Some s) \<Longrightarrow> sprintf_loop t args' out' = Returns (Some s')
    \<Longrightarrow> length args = length args'"
proof (induction t args out arbitrary: args' out' rule: sprintf_loop.induct)
  case (2 c rest args out)
  show ?case
  proof (cases "c = CHR ''%'' \<and> \<not> starts_with_char rest CHR ''%''")
    case False
    then show ?thesis using 2 by (auto split: if_splits)
  next
    case True
    then obtain flags width precision conv rest' seg seg' where d: "parse_directive rest = Some (flags, width, precision, conv, rest')"
      "format_segment conv flags width precision args = Returns (Some seg)"
      "format_segment conv flags width precision args' = Returns (Some seg')"
      and l: "sprintf_loop rest' (tl args) (out @ seg) = Returns (Some s)"
        "sprintf_loop rest' (tl args') (out' @ seg') = Returns (Some s')"
      "\<not> length (out @ seg) > STRING_FOLD_BYTE_LIMIT"
      using "2.prems" by (auto split: option.splits if_splits outcome.splits)
    have "length (tl args) = length (tl args')"
      using "2.IH"(3)[OF _ _ d(1) _ _ _ _ d(2) _ l(3) l(1) l(2)] True by simp
    then show ?thesis
      using format_segment_args[OF d(2)] format_segment_args[OF d(3)] by (cases args; cases args') auto
  qed
qed (auto split: if_splits)

end
