(* ===== verification/Folding_Properties.thy ===== *)
theory Folding_Properties
  imports Kernel_Laws
begin

text \<open>
  The properties of constant folding and of the folded conversion functions, with the inputs on
  which they depart from Ruby.
\<close>

section \<open>Folding calls\<close>

text \<open>C6: an integer operator folds to Ruby's exact result on unbounded integers, except on two
  inputs where it never does: a division by a negative divisor that leaves a remainder (Euclidean
  instead of rounded down: \<open>7 / -2\<close> folds to \<open>-3\<close>, Ruby answers \<open>-4\<close>) and a left shift whose result
  leaves 64 bits (it wraps: \<open>1 << 63\<close> folds to a negative number).\<close>

theorem fold_int_exact:
  assumes "fold_call (SInt a) m [SInt b] = Returns (Some (SInt c))"
  shows "ruby_int_op m (sint a) (sint b) = Some (sint c) \<longleftrightarrow> \<not> departs m (sint a) (sint b)"
proof -
  have "fold_int a m [SInt b] = Returns (Some (SInt c))"
    using assms by (auto simp: fold_call_def fold_receiver_def split: if_splits outcome.splits option.splits Scalar.splits)
  then show ?thesis by (rule fold_int_departs)
qed

theorem fold_int_exact_witness: "ruby_int_op ''%'' (- 7) 3 = Some 2 \<and> ruby_int_op ''/'' 7 (- 2) \<noteq> Some (- 3)"
proof -
  have "fold_call (SInt (- 7)) ''%'' [SInt 3] = Returns (Some (SInt 2))"
    "fold_call (SInt 7) ''/'' [SInt (- 2)] = Returns (Some (SInt (- 3)))" by code_simp+
  from this[THEN fold_int_exact] show ?thesis by (simp add: departs_def)
qed

text \<open>Where folding departs from Ruby: an inexact division by a negative divisor is rounded up
  (\<open>7 / -2\<close> folds to \<open>-3\<close>, Ruby answers \<open>-4\<close>), a left shift out of 64 bits wraps (\<open>1 << 63\<close> folds to
  a negative number), the remainder of the smallest integer by \<open>-1\<close> panics, and the radix conversions of
  \<open>sprintf\<close> lose the \<open>+\<close> flag and pad zeros in front of the radix prefix.\<close>

theorem fold_departures:
  "fold_call (SInt 7) ''/'' [SInt (- 2)] = Returns (Some (SInt (- 3))) \<and> ruby_int_op ''/'' 7 (- 2) = Some (- 4)
   \<and> fold_call (SInt 1) ''<<'' [SInt 63] = Returns (Some (SInt (- (2 ^ 63)))) \<and> ruby_int_op ''<<'' 1 63 = Some (2 ^ 63)
   \<and> fold_call (SInt (- (2 ^ 63))) ''%'' [SInt (- 1)] = Panics \<and> ruby_int_op ''%'' (- (2 ^ 63)) (- 1) = Some 0
   \<and> sprintf ''%+x'' [SInt 255] = Returns (Some ''ff'') \<and> sprintf ''%#06x'' [SInt 255] = Returns (Some ''000xff'')"
proof (intro conjI)
  show "fold_call (SInt 7) ''/'' [SInt (- 2)] = Returns (Some (SInt (- 3)))" by code_simp
  show "fold_call (SInt 1) ''<<'' [SInt 63] = Returns (Some (SInt (- (2 ^ 63))))" by code_simp
  show "fold_call (SInt (- (2 ^ 63))) ''%'' [SInt (- 1)] = Panics" by code_simp
  show "sprintf ''%+x'' [SInt 255] = Returns (Some ''ff'')" by code_simp
  show "sprintf ''%#06x'' [SInt 255] = Returns (Some ''000xff'')" by code_simp
qed (simp_all add: ruby_int_op_def)



text \<open>Whatever folds is in the catalogue of foldable methods, \<open>nil?\<close> and \<open>!=\<close> excepted: these two
  fold on every class and the catalogue lists them for none.\<close>

theorem fold_in_catalogue:
  assumes "fold_call r m args = Returns (Some s)"
  shows "is_foldable (scalar_class r) m \<noteq> (m = ''nil?'' \<or> m = ''!='')"
proof (cases "m = ''nil?'' \<or> m = ''!=''")
  case True
  then show ?thesis by (elim disjE) (simp_all add: is_foldable_def str_lookups_def)
next
  case False
  then have "fold_receiver r m args = Returns (Some s)" using assms by (simp add: fold_call_def)
  then show ?thesis using fold_receiver_catalogue False by blast
qed

theorem fold_in_catalogue_witness:
  "is_foldable ''Integer'' ''nil?'' \<noteq> (''nil?'' = ''nil?'' \<or> ''nil?'' = ''!='')"
proof -
  have "fold_call (SInt 1) ''nil?'' [] = Returns (Some (SBool False))" by (simp add: fold_call_def)
  from fold_in_catalogue[OF this] show ?thesis by simp
qed

text \<open>A position that folding answers for a search is right: slicing the receiver there, at the
  needle's length, folds back to the needle; for \<open>index\<close> no earlier position does, for \<open>rindex\<close> no later
  one.\<close>

theorem search_then_slice:
  assumes "is_ascii a" "is_ascii sub" "length a < 2 ^ 63"
    and m: "m \<in> {''index'', ''byteindex'', ''rindex'', ''byterindex''}"
    and f: "fold_call (SStr a) m [SStr sub] = Returns (Some (SInt c))"
  shows "fold_call (SStr a) ''[]'' [SInt c, SInt (word_of_int (int (length sub)))] = Returns (Some (SStr sub))
    \<and> (\<forall>q \<le> length a. starts_at a sub q \<longrightarrow>
        (if m \<in> {''index'', ''byteindex''} then int q \<ge> sint c else int q \<le> sint c))"
proof -
  obtain p where p: "sint c = int p" "starts_at a sub p" "p \<le> length a"
    "\<forall>q \<le> length a. starts_at a sub q \<longrightarrow> (if m \<in> {''index'', ''byteindex''} then p \<le> q else q \<le> p)"
  proof (cases "m \<in> {''index'', ''byteindex''}")
    case True
    then obtain p where p: "find_sub a sub = Some p" "c = word_of_int (int p)"
      using f assms(1,2)
      by (auto simp: fold_call_def fold_receiver_def fold_str_def str_lookups_def fold_str_lookup_def
        opt_index_def SInt_of_def split: option.splits)
    note fs = find_sub_Some[OF p(1)]
    have "sint c = int p" unfolding p(2) using fs(2) assms(3) by (intro sint_word_of_int) (simp add: fits_i64_def)
    moreover have "p \<le> q" if "starts_at a sub q" for q using fs(3)[of q] that by (meson not_le)
    ultimately show thesis using that[of p] fs True by auto
  next
    case False
    have len: "int (length a) + int (length sub) \<ge> int (length a)" by simp
    have "m = ''rindex'' \<or> m = ''byterindex''" using m False by blast
    then have "fold_call (SStr a) m [SStr sub] = map_outcome Some (rindex_lookup a sub (int (length a)))"
      using assms(1,2) by (elim disjE) (simp_all add: fold_call_def fold_receiver_def fold_str_def Let_def
        str_lookups_def fold_str_lookup_def)
    then obtain p where p: "rfind_sub a sub = Some p" "c = word_of_int (int p)"
      using f rindex_lookup_value[OF assms(1,3), of "int (length a)" sub]
      by (auto simp: opt_index_def SInt_of_def split: option.splits if_splits)
    note fs = rfind_sub_Some[OF p(1)]
    have "sint c = int p" unfolding p(2) using fs(2) assms(3) by (intro sint_word_of_int) (simp add: fits_i64_def)
    moreover have "q \<le> p" if "starts_at a sub q" "q \<le> length a" for q using fs(3)[of q] that by (meson not_le)
    ultimately show thesis using that[of p] fs False by auto
  qed
  have fit: "p + length sub \<le> length a" using p(2,3) by (rule starts_at_fits)
  have "sint (word_of_int (int (length sub)) :: i64) = int (length sub)"
    using fit assms(3) by (intro sint_word_of_int) (simp add: fits_i64_def)
  moreover have "nat (min (int p + int (length sub)) (int (length a))) - nat (int p) = length sub"
    using fit by (simp add: min_def nat_add_distrib)
  moreover have "take (length sub) (drop p a) = sub"
    using p(2) by (simp add: starts_at_def)
  ultimately have "lookup_substr a (sint c) (sint (word_of_int (int (length sub)) :: i64)) = Returns (SStr sub)"
    using p(1,3) unfolding lookup_substr_value[OF assms(1,3)] Let_def by (simp add: nat_add_distrib)
  then show ?thesis
    using assms(1) p(1,4)
    by (simp add: fold_call_def fold_receiver_def fold_str_def Let_def str_lookups_def fold_str_lookup_def)
qed

theorem search_then_slice_witness:
  "fold_call (SStr ''banana'') ''[]'' [SInt 3, SInt 3] = Returns (Some (SStr ''ana''))"
proof -
  have "fold_call (SStr ''banana'') ''rindex'' [SStr ''ana''] = Returns (Some (SInt 3))" by code_simp
  from search_then_slice[OF _ _ _ _ this] show ?thesis by (simp add: is_ascii_def)
qed

text \<open>\<open>Float#<=>\<close> against an \<open>Integer\<close> compares exactly: the folded sign is that of the float's value
  minus the integer, for every finite float and every 64-bit integer (also where the integer is not a
  float).\<close>

theorem float_spaceship_exact:
  assumes "is_finite a"
  shows "fold_call (SFloat a) ''<=>'' [SInt b]
    = Returns (Some (SInt (ordering_int (cmp_of (f64_units a) (sint b * one_unit)))))"
  using float_cmp_int[OF assms] by (simp add: fold_call_def fold_receiver_def fold_float_def)

theorem float_spaceship_exact_witness:
  "fold_call (SFloat two_63) ''<=>'' [SInt (2 ^ 63 - 1)] = Returns (Some (SInt 1))"
proof -
  have "sint (2 ^ 63 - 1 :: i64) * one_unit < 2 ^ 63 * one_unit"
    using sint_range(2) one_unit_pos by (rule mult_strict_right_mono)
  then show ?thesis
    using float_spaceship_exact[OF two_63_units(2), of "2 ^ 63 - 1"]
    by (simp add: two_63_units ordering_int_def cmp_of_def)
qed

section \<open>Conversions\<close>

text \<open>C30: \<open>Integer()\<close> reads back what is printed: the decimal text of any 64-bit integer without a
  base, and its sign with its digits in any base of the digit table, from 2 to 16 and in either letter
  case, when that base is given.\<close>

theorem integer_reads_back:
  assumes "2 \<le> r" "r \<le> 16"
  shows "ruby_integer (SStr (ruby_string_of (SInt n))) None = Some n
    \<and> (\<exists>digits. to_radix (nat \<bar>sint n\<bar>) r upper = Returns digits
        \<and> ruby_integer (SStr ((if sint n < 0 then ''-'' else []) @ digits)) (Some (int r)) = Some n)"
proof -
  let ?sign = "if sint n < 0 then ''-'' else []"
  have c: "checked_i64 (sint n) = Some n" by (simp add: checked_i64_def)
  have le: "nat \<bar>sint n\<bar> \<le> 2 ^ 63" using sint_range[of n] by simp
  have signed: "(if ?sign = ''-'' then - int (nat \<bar>sint n\<bar>) else int (nat \<bar>sint n\<bar>)) = sint n" by simp
  have "show_i64 n = ?sign @ radix_text (nat \<bar>sint n\<bar>) 10 False"
    by (simp add: show_i64_def string_of_int_def digits_of_to_radix[of _ False])
  then have "parse_ruby_integer_str (show_i64 n) None = Some n"
    using parse_printed[of 10 "nat \<bar>sint n\<bar>" ?sign None False] le signed c by simp
  moreover have "parse_ruby_integer_str (?sign @ radix_text (nat \<bar>sint n\<bar>) r upper) (Some (int r)) = Some n"
    using parse_printed[of r "nat \<bar>sint n\<bar>" ?sign "Some (int r)" upper] assms le signed c by simp
  ultimately show ?thesis
    using to_radix_text[OF assms] by (simp add: ruby_integer_def)
qed

theorem integer_reads_back_witness:
  "ruby_integer (SStr ''-FF'') (Some 16) = Some (- 255)"
proof -
  have "sint (- 255 :: i64) = - 255" "to_radix 255 16 True = Returns ''FF''" by code_simp+
  then show ?thesis using integer_reads_back[of 16 "- 255" True] by simp
qed

text \<open>C35: A folded \<open>sprintf\<close> result never exceeds the byte limit, and a template accepts one number of
  arguments: an argument list of a different length makes the same template decline, without a panic.\<close>

theorem sprintf_bounded_and_strict:
  assumes "sprintf template args = Returns (Some s)"
  shows "length s \<le> STRING_FOLD_BYTE_LIMIT
    \<and> (\<forall>args'. length args' \<noteq> length args \<longrightarrow> sprintf template args' = Returns None)"
proof -
  have "length s \<le> STRING_FOLD_BYTE_LIMIT"
    using assms unfolding sprintf_def by (rule sprintf_loop_limit)
  moreover have "sprintf template args' = Returns None" if "length args' \<noteq> length args" for args'
  proof (cases "sprintf template args'")
    case Panics
    then show ?thesis using sprintf_loop_returns by (simp add: sprintf_def)
  next
    case (Returns r)
    then show ?thesis
      using sprintf_loop_arity[OF assms[unfolded sprintf_def]] that by (cases r) (auto simp: sprintf_def)
  qed
  ultimately show ?thesis by blast
qed

theorem sprintf_bounded_and_strict_witness: "sprintf ''%d-%s'' [SInt 3] = Returns None"
proof -
  have "sprintf ''%d-%s'' [SInt 3, SStr ''a''] = Returns (Some ''3-a'')" by code_simp
  from sprintf_bounded_and_strict[OF this] show ?thesis by simp
qed

end
