(* ===== verification/Collections.thy ===== *)
theory Collections
  imports Prelude
begin

text \<open>
  The parts of the standard library the data loaders and the command line use: \<open>str::split\<close>
  on a character, prefixes, the ordered collections \<open>BTreeSet\<close> and \<open>BTreeMap\<close>, and the
  \<open>?\<close> operator on \<open>Result\<close>. A \<open>BTreeSet\<close> is its list of elements in iteration order
  (ascending, without repetition), a \<open>BTreeMap\<close> with string keys its list of entries in key
  order. A \<open>Result\<close> is a sum with the error on the left.
\<close>

section \<open>Splitting and joining\<close>

fun split_on :: "'a \<Rightarrow> 'a list \<Rightarrow> 'a list list" where
  "split_on c [] = [[]]"
| "split_on c (x # xs) =
     (if x = c then [] # split_on c xs
      else (case split_on c xs of [] \<Rightarrow> [[x]] | s # ss \<Rightarrow> (x # s) # ss))"

lemma split_on_not_Nil [simp]: "split_on c s \<noteq> []"
  by (induction s) (auto split: list.splits)

lemma split_on_clean: "p \<in> set (split_on c s) \<Longrightarrow> c \<notin> set p"
  by (induction s arbitrary: p) (auto split: if_splits list.splits)

lemma split_on_append:
  "c \<notin> set p \<Longrightarrow> split_on c (p @ c # s) = p # split_on c s"
  by (induction p) auto

lemma split_on_atom: "c \<notin> set p \<Longrightarrow> split_on c p = [p]"
  by (induction p) auto

lemma split_on_step:
  obtains "c \<notin> set s" "split_on c s = [s]"
  | p r where "s = p @ c # r" "c \<notin> set p" "split_on c s = p # split_on c r"
proof (cases "c \<in> set s")
  case True
  then obtain p r where "s = p @ c # r" "c \<notin> set p" by (meson split_list_first)
  then show ?thesis using that(2) split_on_append by metis
qed (use that(1) split_on_atom in metis)

lemma join_split: "join_str [c] (split_on c s) = s"
proof (induction s rule: length_induct)
  case (1 s)
  show ?case
  proof (cases rule: split_on_step[of c s])
    case (2 p r)
    then have "join_str [c] (split_on c r) = r" using 1 by simp
    with 2 show ?thesis by (cases "split_on c r") auto
  qed auto
qed

lemma split_join:
  assumes "ps \<noteq> []" and "\<forall>p \<in> set ps. c \<notin> set p"
  shows "split_on c (join_str [c] ps) = ps"
  using assms by (induction "[c]" ps rule: join_str.induct)
    (auto simp: split_on_append split_on_atom)

lemma split_on_inj: "split_on c s = split_on c t \<Longrightarrow> s = t" for c :: char
  by (drule arg_cong[where f = "join_str [c]"]) (simp only: join_split)

lemma split_on_extend: "split_on c (s @ c # t) = split_on c s @ split_on c t"
proof (induction s rule: length_induct)
  case (1 s)
  show ?case
  proof (cases rule: split_on_step[of c s])
    case 1
    then show ?thesis by (simp add: split_on_append)
  next
    case (2 p r)
    then have "split_on c (r @ c # t) = split_on c r @ split_on c t"
      using "1.IH" by simp
    with 2 show ?thesis by (simp add: split_on_append)
  qed
qed

text \<open>\<open>str::strip_prefix\<close>.\<close>

fun strip_prefix :: "'a list \<Rightarrow> 'a list \<Rightarrow> 'a list option" where
  "strip_prefix [] s = Some s"
| "strip_prefix (p # ps) [] = None"
| "strip_prefix (p # ps) (x # xs) = (if p = x then strip_prefix ps xs else None)"

lemma strip_prefix_Some: "strip_prefix p s = Some r \<longleftrightarrow> s = p @ r"
  by (induction p s rule: strip_prefix.induct) auto

fun starts_with :: "'a list \<Rightarrow> 'a list \<Rightarrow> bool" where
  "starts_with [] s = True"
| "starts_with (p # ps) [] = False"
| "starts_with (p # ps) (x # xs) = (p = x \<and> starts_with ps xs)"

lemma starts_with_iff: "starts_with p s \<longleftrightarrow> (\<exists>r. s = p @ r)"
  by (induction p s rule: starts_with.induct) auto

lemma starts_with_take: "starts_with p s \<longleftrightarrow> take (length p) s = p"
  unfolding starts_with_iff by (metis append_eq_conv_conj append_take_drop_id)

section \<open>Ordered collections\<close>

definition btree_of :: "'a::linorder list \<Rightarrow> 'a list" where
  "btree_of xs = fold insort_insert xs []"

lemma fold_insort_insert:
  assumes "sorted ys" "distinct ys"
  shows "sorted (fold insort_insert xs ys) \<and> distinct (fold insort_insert xs ys)
    \<and> set (fold insort_insert xs ys) = set xs \<union> set ys"
  using assms
  by (induction xs arbitrary: ys)
    (auto simp: sorted_insort_insert distinct_insort_insert set_insort_insert)

lemma btree_of_sorted [simp]: "sorted (btree_of xs)"
  and btree_of_distinct [simp]: "distinct (btree_of xs)"
  and btree_of_set [simp]: "set (btree_of xs) = set xs"
  using fold_insort_insert[of "[]" xs] by (auto simp: btree_of_def)

lemma btree_of_unique: "set xs = set ys \<Longrightarrow> btree_of xs = btree_of ys"
  by (simp add: sorted_distinct_set_unique)

type_synonym 'a btree_map = "(string \<times> 'a) list"

fun btree_put :: "string \<Rightarrow> 'a \<Rightarrow> 'a btree_map \<Rightarrow> 'a btree_map" where
  "btree_put k v [] = [(k, v)]"
| "btree_put k v ((k', v') # m) =
     (if k < k' then (k, v) # (k', v') # m
      else if k = k' then (k, v) # m
      else (k', v') # btree_put k v m)"

definition key_sorted :: "'a btree_map \<Rightarrow> bool" where
  "key_sorted m = sorted_wrt (<) (map fst m)"

lemma map_of_btree_put [simp]: "map_of (btree_put k v m) = (map_of m)(k \<mapsto> v)"
  by (induction m) (auto simp: fun_eq_iff)

lemma keys_btree_put [simp]: "fst ` set (btree_put k v m) = insert k (fst ` set m)"
  by (induction k v m rule: btree_put.induct) (simp_all add: insert_commute)

lemma key_sorted_btree_put: "key_sorted m \<Longrightarrow> key_sorted (btree_put k v m)"
proof (induction m)
  case (Cons e m)
  obtain k' v' where e: "e = (k', v')" by force
  have keys: "fst ` set (btree_put k v m) = insert k (fst ` set m)" by simp
  have "k \<noteq> k' \<Longrightarrow> \<not> k < k' \<Longrightarrow> k' < k" by (simp add: neq_iff)
  with Cons keys show ?case unfolding e key_sorted_def
    by (auto dest: order.strict_trans simp del: keys_btree_put)
qed (simp add: key_sorted_def)

section \<open>Fallible computations\<close>

fun res_bind :: "'e + 'a \<Rightarrow> ('a \<Rightarrow> 'e + 'b) \<Rightarrow> 'e + 'b" where
  "res_bind (Inl e) f = Inl e"
| "res_bind (Inr x) f = f x"

fun res_fold :: "('a \<Rightarrow> 's \<Rightarrow> 'e + 's) \<Rightarrow> 'a list \<Rightarrow> 's \<Rightarrow> 'e + 's" where
  "res_fold f [] s = Inr s"
| "res_fold f (x # xs) s = res_bind (f x s) (res_fold f xs)"

lemma res_bind_Inr [simp]: "res_bind r f = Inr y \<longleftrightarrow> (\<exists>x. r = Inr x \<and> f x = Inr y)"
  by (cases r) auto

lemma res_bind_cong [fundef_cong]:
  "r = r' \<Longrightarrow> (\<And>x. r' = Inr x \<Longrightarrow> f x = g x) \<Longrightarrow> res_bind r f = res_bind r' g"
  by (cases r') auto

text \<open>A loop that inserts what \<open>f\<close> makes of each entry: it fails with the first error, and
  otherwise answers the entries' images.\<close>

definition res_map_entries ::
  "(string \<Rightarrow> 'a \<Rightarrow> 'e + 'b) \<Rightarrow> 'a btree_map \<Rightarrow> 'e + 'b btree_map" where
  "res_map_entries f m =
     res_fold (\<lambda>(k, v) out. res_bind (f k v) (\<lambda>w. Inr (btree_put k w out))) m []"

lemma res_fold_entries:
  assumes "res_fold (\<lambda>(k, v) out. res_bind (f k v) (\<lambda>w. Inr (btree_put k w out))) m out = Inr r"
    and "distinct (map fst m)"
  shows "(\<forall>k. k \<notin> fst ` set m \<longrightarrow> map_of r k = map_of out k)
    \<and> (\<forall>k v. map_of m k = Some v \<longrightarrow> (\<exists>w. f k v = Inr w \<and> map_of r k = Some w))
    \<and> (key_sorted out \<longrightarrow> key_sorted r)"
  using assms
proof (induction m arbitrary: out)
  case (Cons e m)
  obtain k v where e: "e = (k, v)" by force
  from Cons.prems(1) obtain w where w: "f k v = Inr w"
    and rest: "res_fold (\<lambda>(k, v) out. res_bind (f k v) (\<lambda>w. Inr (btree_put k w out))) m
      (btree_put k w out) = Inr r"
    by (auto simp: e)
  have dist: "distinct (map fst m)" and fresh: "k \<notin> fst ` set m" using Cons.prems(2) e by auto
  note IH = Cons.IH[OF rest dist]
  have "map_of r k = Some w" using IH fresh by simp
  with IH w fresh show ?case unfolding e by (auto simp: key_sorted_btree_put)
qed simp

lemma res_map_entries_Inr:
  assumes "res_map_entries f m = Inr r" and "distinct (map fst m)"
  shows "key_sorted r"
    and "map_of m k = Some v \<Longrightarrow> \<exists>w. f k v = Inr w \<and> map_of r k = Some w"
    and "map_of m k = None \<Longrightarrow> map_of r k = None"
  using res_fold_entries[OF assms(1)[unfolded res_map_entries_def] assms(2)]
  by (auto simp: key_sorted_def map_of_eq_None_iff)

end
