(* ===== verification/Effect_Labels.thy ===== *)
theory Effect_Labels
  imports Collections Ruby_Text Kernel_Fold
begin

text \<open>
  The effect vocabulary (\<open>rigor-effects/src/label.rs\<close>, \<open>registry.rs\<close>): the label grammar
  and its segment-aware subsumption, the registry of known labels, and the spelling
  suggestion with its bounded edit distance. The registry file is YAML: what its parser
  delivers is the argument of \<open>registry_new\<close>.
\<close>

section \<open>Labels\<close>

definition is_ascii_lowercase :: "char \<Rightarrow> bool" where
  "is_ascii_lowercase c \<longleftrightarrow> between CHR ''a'' CHR ''z'' c"

fun label_segment :: "string \<Rightarrow> bool" where
  "label_segment [] = False"
| "label_segment (c # cs) =
     (is_ascii_lowercase c \<and> list_all (\<lambda>c. is_ascii_lowercase c \<or> is_ascii_digit c) cs)"

definition label_valid :: "string \<Rightarrow> bool" where
  "label_valid label = (label \<noteq> [] \<and> list_all label_segment (split_on CHR ''.'' label))"

definition label_segments :: "string \<Rightarrow> string list" where
  "label_segments label = (if \<not> label_valid label then [] else split_on CHR ''.'' label)"

text \<open>\<open>label.as_bytes()[bound.len()]\<close> is read only when \<open>label\<close> is the longer string.\<close>

definition label_subsumes :: "string \<Rightarrow> string \<Rightarrow> bool" where
  "label_subsumes bound label =
     (if \<not> label_valid bound \<or> \<not> label_valid label then False
      else if bound = label then True
      else length label > length bound \<and> starts_with bound label
        \<and> label ! length bound = CHR ''.'')"

fun rfind_sep :: "string \<Rightarrow> nat option" where
  "rfind_sep [] = None"
| "rfind_sep (c # s) =
     (case rfind_sep s of Some i \<Rightarrow> Some (i + 1)
      | None \<Rightarrow> if c = CHR ''.'' then Some 0 else None)"

definition label_parent :: "string \<Rightarrow> string option" where
  "label_parent label =
     (if \<not> label_valid label then None
      else map_option (\<lambda>index. take index label) (rfind_sep label))"

fun match_indices :: "nat \<Rightarrow> string \<Rightarrow> nat list" where
  "match_indices i [] = []"
| "match_indices i (c # s) =
     (if c = CHR ''.'' then i # match_indices (i + 1) s else match_indices (i + 1) s)"

definition label_ancestors :: "string \<Rightarrow> string list" where
  "label_ancestors label =
     (let parts = label_segments label in
      if length parts \<le> 1 then []
      else map (\<lambda>index. take index label) (match_indices 0 label))"

definition label_root :: "string \<Rightarrow> string option" where
  "label_root label = (case label_segments label of [] \<Rightarrow> None | s # _ \<Rightarrow> Some s)"

section \<open>The registry\<close>

datatype Replacements = One string | Many "string list"

record Registry =
  vocabulary_version :: u32
  labels :: "string list"
  known_labels :: "string list"
  roots :: "string list"
  retired_labels :: "string list btree_map"
  descriptions :: "string btree_map"

text \<open>Declared rows and every ancestor of a declared row, in the order of the tree set.\<close>

definition build_known :: "string list \<Rightarrow> string list" where
  "build_known ls =
     fold (\<lambda>declared known. fold insort_insert (label_ancestors declared) known) ls (btree_of ls)"

fun replacement_list :: "Replacements \<Rightarrow> string list" where
  "replacement_list (One one) = [one]"
| "replacement_list (Many many) = many"

text \<open>\<open>str::split_whitespace\<close> on the Unicode property \<open>White_Space\<close>, each character as its
  UTF-8 bytes.\<close>

definition unicode_whitespace :: "string list" where
  "unicode_whitespace =
     [[CHR 0x09], [CHR 0x0A], [CHR 0x0B], [CHR 0x0C], [CHR 0x0D], [CHR 0x20],
      [CHR 0xC2, CHR 0x85], [CHR 0xC2, CHR 0xA0], [CHR 0xE1, CHR 0x9A, CHR 0x80],
      [CHR 0xE2, CHR 0x80, CHR 0x80], [CHR 0xE2, CHR 0x80, CHR 0x81], [CHR 0xE2, CHR 0x80, CHR 0x82],
      [CHR 0xE2, CHR 0x80, CHR 0x83], [CHR 0xE2, CHR 0x80, CHR 0x84], [CHR 0xE2, CHR 0x80, CHR 0x85],
      [CHR 0xE2, CHR 0x80, CHR 0x86], [CHR 0xE2, CHR 0x80, CHR 0x87], [CHR 0xE2, CHR 0x80, CHR 0x88],
      [CHR 0xE2, CHR 0x80, CHR 0x89], [CHR 0xE2, CHR 0x80, CHR 0x8A], [CHR 0xE2, CHR 0x80, CHR 0xA8],
      [CHR 0xE2, CHR 0x80, CHR 0xA9], [CHR 0xE2, CHR 0x80, CHR 0xAF], [CHR 0xE2, CHR 0x81, CHR 0x9F],
      [CHR 0xE3, CHR 0x80, CHR 0x80]]"

fun whitespace_runs :: "string \<Rightarrow> string list \<Rightarrow> string list" where
  "whitespace_runs word [] = (if word = [] then [] else [word])"
| "whitespace_runs word (c # cs) =
     (if c \<in> set unicode_whitespace
      then (if word = [] then whitespace_runs [] cs else word # whitespace_runs [] cs)
      else whitespace_runs (word @ c) cs)"

definition split_whitespace :: "string \<Rightarrow> string list" where
  "split_whitespace s = whitespace_runs [] (utf8_chars s)"

definition registry_new ::
  "u32 \<Rightarrow> string list \<Rightarrow> Replacements btree_map \<Rightarrow> string btree_map \<Rightarrow> Registry" where
  "registry_new version raw_labels raw_retired raw_descriptions =
     (let ls = btree_of raw_labels; known = build_known ls in
      \<lparr> vocabulary_version = version, labels = ls, known_labels = known,
        roots = filter (\<lambda>candidate. label_parent candidate = None) known,
        retired_labels = map (\<lambda>(spelling, r). (spelling, replacement_list r)) raw_retired,
        descriptions =
          map (\<lambda>(root, text). (root, join_str '' '' (split_whitespace text))) raw_descriptions \<rparr>)"

definition registry_known :: "Registry \<Rightarrow> string \<Rightarrow> bool" where
  "registry_known r label = (label \<in> set (known_labels r))"

definition registry_retired :: "Registry \<Rightarrow> string \<Rightarrow> string list option" where
  "registry_retired r label = map_of (retired_labels r) label"

section \<open>Spelling suggestions\<close>

definition SUGGESTION_DISTANCE_CAP :: nat where
  "SUGGESTION_DISTANCE_CAP = 2"

text \<open>One row of the matrix: \<open>current\<close> grows by one entry for each character of \<open>to\<close>.\<close>

fun lev_row :: "'a \<Rightarrow> nat list \<Rightarrow> nat list \<Rightarrow> nat \<Rightarrow> 'a list \<Rightarrow> nat list" where
  "lev_row ch previous current column [] = current"
| "lev_row ch previous current column (other # to) =
     (let cost = (if ch \<noteq> other then 1 else 0);
          entry = min (min (current ! column + 1) (previous ! (column + 1) + 1))
                      (previous ! column + cost)
      in lev_row ch previous (current @ [entry]) (column + 1) to)"

fun lev_rows :: "nat \<Rightarrow> 'a list \<Rightarrow> nat \<Rightarrow> nat list \<Rightarrow> 'a list \<Rightarrow> nat" where
  "lev_rows cap to row previous [] =
     (let last = previous ! length to in if last > cap then cap + 1 else last)"
| "lev_rows cap to row previous (ch # from) =
     (let current = lev_row ch previous [row + 1] 0 to in
      if Min (set current) > cap then cap + 1 else lev_rows cap to (row + 1) current from)"

definition levenshtein_on :: "'a list \<Rightarrow> 'a list \<Rightarrow> nat \<Rightarrow> nat" where
  "levenshtein_on from to cap =
     (if (if length from \<le> length to then length to - length from else length from - length to) > cap
      then cap + 1 else lev_rows cap to 0 [0 ..< length to + 1] from)"

definition levenshtein :: "string \<Rightarrow> string \<Rightarrow> nat \<Rightarrow> nat" where
  "levenshtein from to cap = levenshtein_on (utf8_chars from) (utf8_chars to) cap"

fun suggest_loop ::
  "(string \<Rightarrow> string \<Rightarrow> nat \<Rightarrow> nat) \<Rightarrow> string \<Rightarrow> string list \<Rightarrow> string option \<Rightarrow> nat \<Rightarrow>
    string option" where
  "suggest_loop dist label [] best best_distance = best"
| "suggest_loop dist label (candidate # cs) best best_distance =
     (let distance = dist label candidate best_distance in
      if distance < best_distance then suggest_loop dist label cs (Some candidate) distance
      else suggest_loop dist label cs best best_distance)"

definition suggest :: "Registry \<Rightarrow> string \<Rightarrow> string option" where
  "suggest r label =
     (if \<not> label_valid label \<or> registry_known r label then None
      else suggest_loop levenshtein label (known_labels r) None (SUGGESTION_DISTANCE_CAP + 1))"

end
