(* ===== verification/Edit_Distance.thy ===== *)
theory Edit_Distance
  imports Effect_Labels
begin

text \<open>
  The two-row loop of \<open>registry.rs\<close> against the distance it means: the least number of
  single-element insertions, deletions and replacements that turns one text into the other.
  Between the two stands the alignment of two lists with its cost.
\<close>

section \<open>Edits and alignments\<close>

inductive edit :: "'a list \<Rightarrow> 'a list \<Rightarrow> bool" where
  edit_insert: "edit (p @ s) (p @ x # s)"
| edit_delete: "edit (p @ x # s) (p @ s)"
| edit_replace: "edit (p @ x # s) (p @ y # s)"

text \<open>\<open>align xs ys n\<close>: some alignment of the two lists costs at most \<open>n\<close>.\<close>

inductive align :: "'a list \<Rightarrow> 'a list \<Rightarrow> nat \<Rightarrow> bool" where
  align_Nil: "align [] [] n"
| align_keep: "align xs ys n \<Longrightarrow> align (x # xs) (x # ys) n"
| align_replace: "align xs ys n \<Longrightarrow> align (x # xs) (y # ys) (Suc n)"
| align_delete: "align xs ys n \<Longrightarrow> align (x # xs) ys (Suc n)"
| align_insert: "align xs ys n \<Longrightarrow> align xs (y # ys) (Suc n)"

inductive_simps align_Nil_Nil [simp]: "align [] [] n"
inductive_cases align_ConsE: "align (x # xs) ys n"
inductive_cases align_rightE: "align xs (y # ys) n"

fun edit_distance :: "'a list \<Rightarrow> 'a list \<Rightarrow> nat" where
  "edit_distance [] ys = length ys"
| "edit_distance xs [] = length xs"
| "edit_distance (x # xs) (y # ys) =
     min (min (edit_distance xs (y # ys) + 1) (edit_distance (x # xs) ys + 1))
         (edit_distance xs ys + (if x \<noteq> y then 1 else 0))"

lemma edit_distance_Nil [simp]: "edit_distance xs [] = length xs"
  by (cases xs) simp_all

lemma align_mono: "align xs ys n \<Longrightarrow> n \<le> m \<Longrightarrow> align xs ys m"
proof (induction arbitrary: m rule: align.induct)
  case (align_replace xs ys n x y)
  then show ?case by (cases m) (auto intro: align.intros)
next
  case (align_delete xs ys n x)
  then show ?case by (cases m) (auto intro: align.intros)
next
  case (align_insert xs ys n y)
  then show ?case by (cases m) (auto intro: align.intros)
qed (auto intro: align.intros)

lemma align_from_Nil: "align [] ys n \<longleftrightarrow> length ys \<le> n"
proof
  show "align [] ys n \<Longrightarrow> length ys \<le> n"
    by (induction "[] :: 'a list" ys n rule: align.induct) auto
  show "length ys \<le> n \<Longrightarrow> align [] ys n"
  proof (induction ys arbitrary: n)
    case (Cons y ys)
    then show ?case by (cases n) (auto intro: align.intros)
  qed simp
qed

lemma align_to_Nil: "align xs [] n \<longleftrightarrow> length xs \<le> n"
proof
  show "align xs [] n \<Longrightarrow> length xs \<le> n"
    by (induction xs "[] :: 'a list" n rule: align.induct) auto
  show "length xs \<le> n \<Longrightarrow> align xs [] n"
  proof (induction xs arbitrary: n)
    case (Cons x xs)
    then show ?case by (cases n) (auto intro: align.intros)
  qed simp
qed

lemma align_length: "align xs ys n \<Longrightarrow> length xs \<le> length ys + n \<and> length ys \<le> length xs + n"
  by (induction rule: align.induct) auto

lemma align_edit_distance: "align xs ys n \<longleftrightarrow> edit_distance xs ys \<le> n"
proof
  show "align xs ys n \<Longrightarrow> edit_distance xs ys \<le> n"
  proof (induction rule: align.induct)
    case (align_delete xs ys n x)
    from align_delete.IH show ?case by (cases ys) auto
  next
    case (align_insert xs ys n y)
    from align_insert.IH show ?case by (cases xs) auto
  qed auto
  have "align xs ys (edit_distance xs ys)"
  proof (induction xs ys rule: edit_distance.induct)
    case (3 x xs y ys)
    then show ?case by (auto simp: min_def intro: align.intros)
  qed (auto simp: align_from_Nil align_to_Nil)
  then show "edit_distance xs ys \<le> n \<Longrightarrow> align xs ys n" by (rule align_mono)
qed

lemma align_append: "align xs ys m \<Longrightarrow> align us vs n \<Longrightarrow> align (xs @ us) (ys @ vs) (m + n)"
proof (induction rule: align.induct)
  case (align_Nil k)
  then show ?case by (auto intro: align_mono)
qed (auto intro: align.intros)

lemma align_split:
  "align xs (c @ d) n \<Longrightarrow> \<exists>a b m k. xs = a @ b \<and> align a c m \<and> align b d k \<and> n = m + k"
proof (induction xs "c @ d" n arbitrary: c rule: align.induct)
  case (align_Nil n)
  then show ?case by (auto intro: exI[of _ 0])
next
  case (align_keep xs ys n x)
  show ?case
  proof (cases c)
    case Nil
    with align_keep show ?thesis by (force intro: align.intros)
  next
    case (Cons x' c')
    with align_keep obtain a b m k where "xs = a @ b" "align a c' m" "align b d k" "n = m + k"
      by auto
    with Cons align_keep show ?thesis
      by (intro exI[of _ "x # a"] exI[of _ b] exI[of _ m] exI[of _ k]) (auto intro: align.intros)
  qed
next
  case (align_replace xs ys n x y)
  show ?case
  proof (cases c)
    case Nil
    with align_replace show ?thesis
      by (intro exI[of _ "[]"] exI[of _ "x # xs"] exI[of _ 0] exI[of _ "Suc n"])
        (auto intro: align.intros)
  next
    case (Cons x' c')
    with align_replace obtain a b m k where "xs = a @ b" "align a c' m" "align b d k" "n = m + k"
      by auto
    with Cons align_replace show ?thesis
      by (intro exI[of _ "x # a"] exI[of _ b] exI[of _ "Suc m"] exI[of _ k])
        (auto intro: align.intros)
  qed
next
  case (align_delete xs n x)
  then obtain a b m k where "xs = a @ b" "align a c m" "align b d k" "n = m + k" by blast
  then show ?case
    by (intro exI[of _ "x # a"] exI[of _ b] exI[of _ "Suc m"] exI[of _ k]) (auto intro: align.intros)
next
  case (align_insert xs ys n y)
  show ?case
  proof (cases c)
    case Nil
    with align_insert show ?thesis
      by (intro exI[of _ "[]"] exI[of _ xs] exI[of _ 0] exI[of _ "Suc n"])
        (auto intro: align.intros)
  next
    case (Cons x' c')
    with align_insert obtain a b m k where "xs = a @ b" "align a c' m" "align b d k" "n = m + k"
      by auto
    with Cons align_insert show ?thesis
      by (intro exI[of _ a] exI[of _ b] exI[of _ "Suc m"] exI[of _ k]) (auto intro: align.intros)
  qed
qed

lemma align_sym: "align xs ys n \<Longrightarrow> align ys xs n"
  by (induction rule: align.induct) (auto intro: align.intros)

lemma align_rev: "align xs ys n \<Longrightarrow> align (rev xs) (rev ys) n"
proof (induction rule: align.induct)
  case (align_keep xs ys n x)
  then show ?case using align_append[OF align_keep.IH, of "[x]" "[x]" 0] by (simp add: align.intros)
next
  case (align_replace xs ys n x y)
  then show ?case using align_append[OF align_replace.IH, of "[x]" "[y]" 1] by (simp add: align.intros)
next
  case (align_delete xs ys n x)
  then show ?case using align_append[OF align_delete.IH, of "[x]" "[]" 1] by (simp add: align.intros)
next
  case (align_insert xs ys n y)
  then show ?case using align_append[OF align_insert.IH, of "[]" "[y]" 1] by (simp add: align.intros)
qed simp

lemma edit_distance_rev: "edit_distance (rev xs) (rev ys) = edit_distance xs ys"
proof -
  have "edit_distance (rev xs) (rev ys) \<le> edit_distance xs ys" for xs ys :: "'a list"
    using align_rev[of xs ys "edit_distance xs ys"] by (simp add: align_edit_distance)
  from this[of xs ys] this[of "rev xs" "rev ys"] show ?thesis by simp
qed

section \<open>The least number of edits\<close>

lemma edit_context: "edit xs ys \<Longrightarrow> edit (x # xs) (x # ys)"
proof (induction rule: edit.induct)
  case (edit_insert p s y)
  then show ?case using edit.edit_insert[of "x # p" s y] by simp
next
  case (edit_delete p y s)
  then show ?case using edit.edit_delete[of "x # p" y s] by simp
next
  case (edit_replace p y s z)
  then show ?case using edit.edit_replace[of "x # p" y s z] by simp
qed

lemma edits_context: "(edit ^^ n) xs ys \<Longrightarrow> (edit ^^ n) (x # xs) (x # ys)"
  by (induction n arbitrary: ys) (auto intro: relcomppI edit_context)

lemma edits_context_ex:
  "\<exists>m \<le> n. (edit ^^ m) xs ys \<Longrightarrow> \<exists>m \<le> n. (edit ^^ m) (x # xs) (x # ys)"
  by (erule ex_forward, erule conj_forward, assumption, rule edits_context)

lemma edit_first:
  assumes "edit xs ys" "\<exists>m \<le> n. (edit ^^ m) ys zs"
  shows "\<exists>m \<le> Suc n. (edit ^^ m) xs zs"
proof -
  obtain m where m: "m \<le> n" "(edit ^^ m) ys zs" using assms(2) by blast
  have "(edit ^^ Suc m) xs zs" using assms(1) m(2) by (rule relpowp_Suc_I2)
  moreover have "Suc m \<le> Suc n" using m(1) by simp
  ultimately show ?thesis
    by (intro exI[of "\<lambda>k. k \<le> Suc n \<and> (edit ^^ k) xs zs" "Suc m"] conjI)
qed

lemma align_edits: "align xs ys n \<Longrightarrow> \<exists>m \<le> n. (edit ^^ m) xs ys"
proof (induction rule: align.induct)
  case (align_Nil n)
  show ?case by (intro exI[of _ 0]) simp
next
  case (align_keep xs ys n x)
  from align_keep.IH show ?case by (rule edits_context_ex)
next
  case (align_replace xs ys n x y)
  from align_replace.IH have "\<exists>m \<le> n. (edit ^^ m) (y # xs) (y # ys)" by (rule edits_context_ex)
  moreover have "edit (x # xs) (y # xs)" using edit_replace[of "[]" x xs y] by simp
  ultimately show ?case by (rule edit_first[rotated])
next
  case (align_delete xs ys n x)
  have "edit (x # xs) xs" using edit_delete[of "[]" x xs] by simp
  then show ?case using align_delete.IH by (rule edit_first)
next
  case (align_insert xs ys n y)
  from align_insert.IH obtain m where m: "m \<le> n" "(edit ^^ m) xs ys" by (elim exE conjE)
  have "edit ys (y # ys)" using edit_insert[of "[]" ys y] by simp
  with m(2) have "(edit ^^ Suc m) xs (y # ys)" by (rule relpowp_Suc_I)
  moreover have "Suc m \<le> Suc n" using m(1) by simp
  ultimately show ?case
    by (intro exI[of "\<lambda>k. k \<le> Suc n \<and> (edit ^^ k) xs (y # ys)" "Suc m"] conjI)
qed

lemma align_retarget: "align c [x] i \<Longrightarrow> align c [y] (Suc i)"
proof (induction c "[x]" i rule: align.induct)
  case (align_keep xs n)
  then show ?case by (rule align.align_replace)
next
  case (align_replace xs n z)
  then show ?case by (auto intro: align.align_replace align_mono)
next
  case (align_delete xs n z)
  then show ?case by (auto intro: align.align_delete)
next
  case (align_insert xs n)
  then show ?case by (auto intro: align.align_insert align_mono)
qed

lemma align_edit_step:
  assumes "align xs ys n" "edit ys zs"
  shows "align xs zs (Suc n)"
  using assms(2,1)
proof cases
  case (edit_insert p s x)
  then obtain a b m k where 1: "xs = a @ b" "align a p m" "align b s k" "n = m + k"
    using align_split assms(1) by metis
  then have "align (a @ b) (p @ x # s) (m + Suc k)" by (intro align_append) (auto intro: align.intros)
  with 1 edit_insert show ?thesis by simp
next
  case (edit_delete p x s)
  then obtain a b m k where 1: "xs = a @ b" "align a p m" "align b ([x] @ s) k" "n = m + k"
    using align_split assms(1) by (metis append_Cons append_Nil)
  then obtain c d i j where 2: "b = c @ d" "align c [x] i" "align d s j" "k = i + j"
    using align_split by metis
  have "length c \<le> Suc i" using align_length[OF 2(2)] by simp
  then have "align c [] (Suc i)" by (simp add: align_to_Nil)
  with 1 2 have "align (a @ c @ d) (p @ [] @ s) (m + (Suc i + j))" by (intro align_append)
  with 1 2 edit_delete show ?thesis by simp
next
  case (edit_replace p x s y)
  then obtain a b m k where 1: "xs = a @ b" "align a p m" "align b ([x] @ s) k" "n = m + k"
    using align_split assms(1) by (metis append_Cons append_Nil)
  then obtain c d i j where 2: "b = c @ d" "align c [x] i" "align d s j" "k = i + j"
    using align_split by metis
  have "align c [y] (Suc i)" using align_retarget[OF 2(2)] .
  with 1 2 have "align (a @ c @ d) (p @ [y] @ s) (m + (Suc i + j))" by (intro align_append)
  with 1 2 edit_replace show ?thesis by simp
qed

lemma edits_align: "(edit ^^ n) xs ys \<Longrightarrow> align xs ys n"
proof (induction n arbitrary: ys)
  case 0
  then have "ys = xs" by simp
  moreover have "align xs xs 0" by (induction xs) (auto intro: align.intros)
  ultimately show ?case by simp
next
  case (Suc n)
  then show ?case by (auto intro: align_edit_step)
qed

theorem edit_distance_least:
  "(\<exists>m \<le> n. (edit ^^ m) xs ys) \<longleftrightarrow> edit_distance xs ys \<le> n"
  using align_edits edits_align align_mono by (metis align_edit_distance)

end
