(* ===== verification/Label_Laws.thy ===== *)
theory Label_Laws
  imports Effect_Labels
begin

text \<open>
  Labels as paths: a valid label is its list of segments, subsumption is the prefix order on
  these lists, and the ancestors are the proper prefixes. The registry is closed under it.
\<close>

section \<open>Subsumption\<close>

lemma dot_not_segment: "\<not> label_segment (p @ CHR ''.'' # q)"
  by (cases p) (auto simp: is_ascii_lowercase_def is_ascii_digit_def between_def)

lemma label_validE:
  assumes "label_valid l"
  shows "l \<noteq> []" and "\<And>p. p \<in> set (split_on CHR ''.'' l) \<Longrightarrow> label_segment p"
  using assms by (auto simp: label_valid_def list_all_iff)

lemma label_valid_extend:
  assumes "label_valid (p @ CHR ''.'' # q)"
  shows "label_valid p" and "label_valid q"
proof -
  have seg: "list_all label_segment (split_on CHR ''.'' p)" "list_all label_segment (split_on CHR ''.'' q)"
    using assms by (auto simp: label_valid_def split_on_extend)
  moreover have "p \<noteq> []" "q \<noteq> []" using seg by auto
  ultimately show "label_valid p" "label_valid q" by (auto simp: label_valid_def)
qed

lemma label_subsumes_iff:
  "label_subsumes b l \<longleftrightarrow> label_valid b \<and> label_valid l \<and> (b = l \<or> (\<exists>r. l = b @ CHR ''.'' # r))"
proof -
  have "length l > length b \<and> starts_with b l \<and> l ! length b = CHR ''.''
    \<longleftrightarrow> (\<exists>r. l = b @ CHR ''.'' # r)"
  proof
    assume l: "length l > length b \<and> starts_with b l \<and> l ! length b = CHR ''.''"
    then obtain r where "l = b @ r" by (auto simp: starts_with_iff)
    with l show "\<exists>r. l = b @ CHR ''.'' # r" by (cases r) (auto simp: nth_append)
  qed (auto simp: starts_with_iff)
  then show ?thesis by (auto simp: label_subsumes_def)
qed

lemma split_prefix_iff:
  "(\<exists>ts. split_on CHR ''.'' l = split_on CHR ''.'' b @ ts)
    \<longleftrightarrow> b = l \<or> (\<exists>r. l = b @ CHR ''.'' # r)"
proof
  assume "\<exists>ts. split_on CHR ''.'' l = split_on CHR ''.'' b @ ts"
  then obtain ts where ts: "split_on CHR ''.'' l = split_on CHR ''.'' b @ ts" by blast
  show "b = l \<or> (\<exists>r. l = b @ CHR ''.'' # r)"
  proof (cases "ts = []")
    case True
    then show ?thesis using ts split_on_inj by auto
  next
    case False
    have clean: "\<forall>p \<in> set ts. CHR ''.'' \<notin> set p"
      using ts split_on_clean[of _ "CHR ''.''" l] by auto
    have "split_on CHR ''.'' (b @ CHR ''.'' # join_str ''.'' ts) = split_on CHR ''.'' l"
      using ts split_join[OF False clean] by (simp add: split_on_extend)
    then show ?thesis using split_on_inj by blast
  qed
qed (auto simp: split_on_extend)

lemma label_subsumes_segments:
  "label_subsumes b l \<longleftrightarrow> label_valid b \<and> label_valid l
     \<and> (\<exists>ts. label_segments l = label_segments b @ ts)"
  unfolding label_subsumes_iff label_segments_def using split_prefix_iff by auto

lemma label_subsumes_refl: "label_subsumes l l \<longleftrightarrow> label_valid l"
  by (simp add: label_subsumes_def)

lemma label_subsumes_valid: "label_subsumes a b \<Longrightarrow> label_valid a \<and> label_valid b"
  by (simp add: label_subsumes_iff)

lemma label_subsumes_trans: "label_subsumes a b \<Longrightarrow> label_subsumes b c \<Longrightarrow> label_subsumes a c"
  by (auto simp: label_subsumes_iff)

lemma label_subsumes_antisym: "label_subsumes a b \<Longrightarrow> label_subsumes b a \<Longrightarrow> a = b"
  by (auto simp: label_subsumes_iff)

text \<open>The bounds of one label form a chain.\<close>

lemma label_subsumes_linear:
  assumes "label_subsumes a l" "label_subsumes b l"
  shows "label_subsumes a b \<or> label_subsumes b a"
proof -
  obtain s t where "label_segments a @ s = label_segments b @ t"
    using assms by (metis label_subsumes_segments)
  then have "(\<exists>u. label_segments b = label_segments a @ u) \<or> (\<exists>u. label_segments a = label_segments b @ u)"
    by (auto simp: append_eq_append_conv2) (metis)+
  with assms show ?thesis by (auto simp: label_subsumes_segments)
qed

section \<open>Ancestors\<close>

lemma set_match_indices:
  "set (match_indices i s) = {i + length p | p r. s = p @ CHR ''.'' # r}"
proof (induction s arbitrary: i)
  case (Cons c s)
  have "{i + length p | p r. c # s = p @ CHR ''.'' # r}
    = (if c = CHR ''.'' then {i} else {}) \<union> {i + 1 + length p | p r. s = p @ CHR ''.'' # r}"
    (is "?L = ?R")
  proof (intro set_eqI iffI)
    fix n assume "n \<in> ?L"
    then obtain p r where "n = i + length p" "c # s = p @ CHR ''.'' # r" by blast
    then show "n \<in> ?R" by (cases p) auto
  next
    fix n assume "n \<in> ?R"
    then consider "c = CHR ''.''" "n = i" | p r where "n = i + 1 + length p" "s = p @ CHR ''.'' # r"
      by (auto split: if_splits)
    then show "n \<in> ?L"
    proof cases
      case 1
      then have "n = i + length [] \<and> c # s = [] @ CHR ''.'' # s" by simp
      then show ?thesis by blast
    next
      case (2 p r)
      then have "n = i + length (c # p) \<and> c # s = (c # p) @ CHR ''.'' # r" by simp
      then show ?thesis by blast
    qed
  qed
  then show ?case using Cons by auto
qed simp

lemma sorted_match_indices: "sorted_wrt (<) (match_indices i s)"
proof (induction s arbitrary: i)
  case (Cons c s)
  then show ?case by (auto simp: set_match_indices)
qed simp

lemma single_segment: "length (split_on c l) \<le> 1 \<Longrightarrow> l \<noteq> a @ c # r"
  by (cases "split_on c a"; cases "split_on c r") (auto simp: split_on_extend)

lemma match_indices_single:
  assumes "length (split_on CHR ''.'' l) \<le> 1"
  shows "match_indices i l = []"
proof -
  have "set (match_indices i l) = {}"
    unfolding set_match_indices using single_segment[OF assms] by blast
  then show ?thesis by simp
qed

lemma label_ancestors_set: "set (label_ancestors l) = {a. label_subsumes a l \<and> a \<noteq> l}"
proof (cases "label_valid l")
  case False
  then show ?thesis by (auto simp: label_ancestors_def label_segments_def label_subsumes_iff)
next
  case True
  have sub: "(label_subsumes a l \<and> a \<noteq> l) = (\<exists>r. l = a @ CHR ''.'' # r)" for a
    using True by (auto simp: label_subsumes_iff dest: label_valid_extend)
  have "(\<lambda>index. take index l) ` set (match_indices 0 l) = {a. \<exists>r. l = a @ CHR ''.'' # r}"
    by (force simp: set_match_indices)
  moreover have "label_ancestors l = map (\<lambda>index. take index l) (match_indices 0 l)"
    using True match_indices_single
    by (simp add: label_ancestors_def label_segments_def Let_def)
  ultimately show ?thesis by (simp add: sub)
qed

lemma label_ancestors_sorted: "sorted_wrt (\<lambda>a b. length a < length b) (label_ancestors l)"
proof -
  have "sorted_wrt (\<lambda>i j. length (take i l) < length (take j l)) (match_indices 0 l)"
    by (rule sorted_wrt_mono_rel[OF _ sorted_match_indices]) (auto simp: set_match_indices)
  then show ?thesis by (simp add: label_ancestors_def Let_def sorted_wrt_map)
qed

lemma rfind_sep_last:
  "rfind_sep s = (if match_indices i s = [] then None else Some (last (match_indices i s) - i))"
proof (induction s arbitrary: i)
  case (Cons c s)
  have "match_indices (i + 1) s \<noteq> [] \<Longrightarrow> last (match_indices (i + 1) s) \<ge> i + 1"
    using set_match_indices[of "i + 1" s] last_in_set by fastforce
  then show ?case using Cons[of "i + 1"] by auto
qed simp

lemma label_parent_last:
  "label_parent l = (if label_ancestors l = [] then None else Some (last (label_ancestors l)))"
proof (cases "label_valid l")
  case True
  then show ?thesis using rfind_sep_last[of l 0] match_indices_single[of l 0]
    by (auto simp: label_parent_def label_ancestors_def label_segments_def Let_def last_map)
qed (simp add: label_parent_def label_ancestors_def label_segments_def)

section \<open>The registry\<close>

lemma build_known_set:
  "set (build_known ls) = set ls \<union> {a. \<exists>d \<in> set ls. label_subsumes a d}"
proof -
  have "set (fold (\<lambda>d known. fold insort_insert (label_ancestors d) known) ds known)
      = set known \<union> (\<Union>d \<in> set ds. set (label_ancestors d))" for ds known :: "string list"
  proof (induction ds arbitrary: known)
    case (Cons d ds)
    have "set (fold insort_insert xs ys) = set xs \<union> set ys" for xs ys :: "string list"
      by (induction xs arbitrary: ys) (auto simp: set_insort_insert)
    then show ?case using Cons by auto
  qed simp
  then show ?thesis by (auto simp: build_known_def label_ancestors_set)
qed

lemma build_known_sorted: "sorted (build_known ls) \<and> distinct (build_known ls)"
proof -
  have "sorted known \<Longrightarrow> distinct known \<Longrightarrow>
    sorted (fold (\<lambda>d known. fold insort_insert (label_ancestors d) known) ds known)
    \<and> distinct (fold (\<lambda>d known. fold insort_insert (label_ancestors d) known) ds known)"
    for ds known :: "string list"
    by (induction ds arbitrary: known) (use fold_insort_insert in auto)
  then show ?thesis by (simp add: build_known_def)
qed

lemma registry_known_iff:
  "registry_known (registry_new v ls re ds) k \<longleftrightarrow> k \<in> set ls \<or> (\<exists>d \<in> set ls. label_subsumes k d)"
  by (simp add: registry_known_def registry_new_def Let_def build_known_set)

lemma registry_roots_set:
  "set (roots (registry_new v ls re ds))
    = {k. registry_known (registry_new v ls re ds) k \<and> label_ancestors k = []}"
  by (auto simp: registry_known_def registry_new_def Let_def label_parent_last)

end
