(* ===== verification/Suggest_Laws.thy ===== *)
theory Suggest_Laws
  imports Edit_Distance Label_Laws
begin

text \<open>
  The two-row loop computes the edit distance up to its cap, and the search over the known
  labels returns a nearest one. The search is a client of a bounded distance: its laws hold
  for every distance that keeps the contract of the locale below.
\<close>

section \<open>The rows of the matrix\<close>

definition dist_row :: "'a list \<Rightarrow> 'a list \<Rightarrow> nat list" where
  "dist_row p to = map (\<lambda>j. edit_distance p (take j to)) [0 ..< length to + 1]"

lemma edit_distance_snoc:
  "edit_distance (xs @ [x]) (ys @ [y]) =
     min (min (edit_distance xs (ys @ [y]) + 1) (edit_distance (xs @ [x]) ys + 1))
         (edit_distance xs ys + (if x \<noteq> y then 1 else 0))"
proof -
  have "edit_distance (xs @ [x]) (ys @ [y]) = edit_distance (x # rev xs) (y # rev ys)"
    by (subst edit_distance_rev[symmetric]) simp
  moreover have "edit_distance (rev xs) (y # rev ys) = edit_distance xs (ys @ [y])"
    using edit_distance_rev[of xs "ys @ [y]"] by simp
  moreover have "edit_distance (x # rev xs) (rev ys) = edit_distance (xs @ [x]) ys"
    using edit_distance_rev[of "xs @ [x]" ys] by simp
  ultimately show ?thesis by (simp add: edit_distance_rev)
qed

lemma dist_row_start: "dist_row [] to = [0 ..< length to + 1]"
  unfolding dist_row_def by (rule map_idI) auto

lemma lev_row_correct:
  assumes "to = take column to @ rest" and "column \<le> length to"
    and "current = map (\<lambda>j. edit_distance (p @ [ch]) (take j to)) [0 ..< column + 1]"
  shows "lev_row ch (dist_row p to) current column rest = dist_row (p @ [ch]) to"
  using assms
proof (induction rest arbitrary: column current)
  case Nil
  then have "column = length to" by (metis append_Nil2 length_take min_absorb2)
  then show ?case using Nil by (simp add: dist_row_def)
next
  case (Cons other rest)
  have lt: "column < length to" using Cons.prems(1,2)
    by (metis append_Nil2 length_take list.distinct(1) min_absorb2 nat_less_le same_append_eq take_all_iff)
  have snoc: "take (column + 1) to = take column to @ [other]"
    using Cons.prems(1) lt by (metis nth_append_length length_take less_imp_le min_absorb2 take_Suc_conv_app_nth Suc_eq_plus1)
  let ?e = "min (min (current ! column + 1) (dist_row p to ! (column + 1) + 1))
    (dist_row p to ! column + (if ch \<noteq> other then 1 else 0))"
  have entry: "?e = edit_distance (p @ [ch]) (take (column + 1) to)"
    unfolding snoc edit_distance_snoc
    using lt snoc by (simp add: Cons.prems(3) dist_row_def nth_append min.commute del: upt_Suc)
  have "lev_row ch (dist_row p to) (current @ [?e]) (column + 1) rest = dist_row (p @ [ch]) to"
  proof (rule Cons.IH)
    show "to = take (column + 1) to @ rest" using Cons.prems(1) snoc by simp
  qed (use lt entry Cons.prems(3) in simp_all)
  then show ?case by (simp only: lev_row.simps Let_def)
qed

lemma dist_row_cutoff:
  assumes "Min (set (dist_row p to)) > cap"
  shows "edit_distance (p @ s) to > cap"
proof -
  have "align to (p @ s) (edit_distance (p @ s) to)"
    by (rule align_sym) (simp add: align_edit_distance)
  then obtain c d m k where cd: "to = c @ d" "align c p m" "edit_distance (p @ s) to = m + k"
    using align_split by metis
  have "edit_distance p (take (length c) to) \<in> set (dist_row p to)"
    unfolding dist_row_def set_map by (rule imageI) (use cd(1) in simp)
  then have "Min (set (dist_row p to)) \<le> edit_distance p (take (length c) to)" by (intro Min_le) simp_all
  then have "cap < edit_distance p (take (length c) to)" using assms by linarith
  also have "take (length c) to = c" using cd(1) by simp
  also have "edit_distance p c \<le> m" using align_sym[OF cd(2)] by (simp add: align_edit_distance)
  finally show ?thesis using cd(3) by simp
qed

lemma lev_rows_correct:
  "lev_rows cap to (length p) (dist_row p to) from =
     (if edit_distance (p @ from) to \<le> cap then edit_distance (p @ from) to else cap + 1)"
proof (induction "from" arbitrary: p)
  case Nil
  have "dist_row p to ! length to = edit_distance p to"
    by (simp add: dist_row_def nth_append del: upt_Suc)
  then show ?case by (simp add: Let_def)
next
  case (Cons ch "from")
  have row: "lev_row ch (dist_row p to) [length p + 1] 0 to = dist_row (p @ [ch]) to"
    by (rule lev_row_correct) simp_all
  show ?case
    using Cons[of "p @ [ch]"] dist_row_cutoff[of cap "p @ [ch]" to "from"]
    by (auto simp: row[simplified] Let_def not_le)
qed

theorem levenshtein_on_correct:
  "levenshtein_on from to cap =
     (if edit_distance from to \<le> cap then edit_distance from to else cap + 1)"
proof -
  have "length from \<le> length to + edit_distance from to \<and> length to \<le> length from + edit_distance from to"
    by (rule align_length) (simp add: align_edit_distance)
  then show ?thesis
    using lev_rows_correct[of cap to "[]" "from"]
    by (auto simp: levenshtein_on_def dist_row_start)
qed

section \<open>Searching with a bounded distance\<close>

locale bounded_distance =
  fixes dist :: "string \<Rightarrow> string \<Rightarrow> nat" and bounded :: "string \<Rightarrow> string \<Rightarrow> nat \<Rightarrow> nat"
  assumes bounded: "bounded a b cap = (if dist a b \<le> cap then dist a b else cap + 1)"
begin

lemma bounded_less: "bounded a b d < d \<longleftrightarrow> dist a b < d"
  by (auto simp: bounded)

lemma search:
  "suggest_loop bounded label cs best d =
     (if \<exists>c \<in> set cs. dist label c < d
      then Some (hd (filter (\<lambda>c. \<forall>k \<in> set cs. dist label c \<le> dist label k) cs)) else best)"
proof (induction cs arbitrary: best d)
  case (Cons c cs)
  show ?case
  proof (cases "dist label c < d")
    case True
    then have b: "bounded label c d = dist label c" by (simp add: bounded)
    show ?thesis
    proof (cases "\<exists>k \<in> set cs. dist label k < dist label c")
      case True
      then have "filter (\<lambda>x. \<forall>k \<in> set (c # cs). dist label x \<le> dist label k) (c # cs)
        = filter (\<lambda>x. \<forall>k \<in> set cs. dist label x \<le> dist label k) cs"
        by (force intro!: filter_cong)
      then show ?thesis using True \<open>dist label c < d\<close> by (auto simp: Cons b)
    next
      case False
      then show ?thesis using \<open>dist label c < d\<close> by (auto simp: Cons b not_less)
    qed
  next
    case False
    then have "\<not> bounded label c d < d" by (simp add: bounded_less)
    moreover have "filter (\<lambda>x. dist label x \<le> dist label c \<and> (\<forall>k \<in> set cs. dist label x \<le> dist label k)) cs
        = filter (\<lambda>x. \<forall>k \<in> set cs. dist label x \<le> dist label k) cs"
      if "k \<in> set cs" "dist label k < d" for k
      using that False by (force intro!: filter_cong)
    moreover have "\<not> (\<forall>k \<in> set cs. dist label c \<le> dist label k)"
      if "k \<in> set cs" "dist label k < d" for k
      using that False by force
    ultimately show ?thesis using False by (auto simp: Cons)
  qed
qed simp

lemma search_Some:
  assumes "suggest_loop bounded label cs None d = Some c"
  shows "c \<in> set cs" "dist label c < d" "\<forall>k \<in> set cs. dist label c \<le> dist label k"
proof -
  let ?best = "filter (\<lambda>c. \<forall>k \<in> set cs. dist label c \<le> dist label k) cs"
  from assms obtain k where k: "k \<in> set cs" "dist label k < d" and c: "c = hd ?best"
    by (auto simp: search split: if_splits)
  have "\<exists>x \<in> set cs. \<forall>k \<in> set cs. dist label x \<le> dist label k"
    using k(1) arg_min_if_finite[of "set cs" "dist label"] by (metis empty_iff List.finite_set not_less)
  then have "?best \<noteq> []" by (auto simp: filter_empty_conv)
  then have "c \<in> set ?best" unfolding c by (rule hd_in_set)
  then show "c \<in> set cs" "\<forall>k \<in> set cs. dist label c \<le> dist label k" by auto
  with k show "dist label c < d" by fastforce
qed

lemma search_None:
  "suggest_loop bounded label cs None d = None \<longleftrightarrow> (\<forall>c \<in> set cs. d \<le> dist label c)"
  by (auto simp: search dest: leD)

end

definition label_distance :: "string \<Rightarrow> string \<Rightarrow> nat" where
  "label_distance a b = edit_distance (utf8_chars a) (utf8_chars b)"

interpretation spelling: bounded_distance label_distance levenshtein
  by unfold_locales (simp add: label_distance_def levenshtein_def levenshtein_on_correct)

end
