(* ===== verification/Sha256.thy ===== *)
theory Sha256
  imports Prelude
begin

text \<open>
  The self-contained SHA-256 of \<open>rigor-effects/src/digest.rs\<close> on 32-bit words: the padding,
  the message schedule, the 64 rounds and the hexadecimal rendering.
\<close>

unbundle bit_operations_syntax

text \<open>A 32-bit constant as the source groups its digits, \<open>0x428a_2f98\<close>.\<close>

definition hx :: "u32 \<Rightarrow> u32 \<Rightarrow> u32" where
  "hx high low = push_bit 16 high OR low"

definition sha_K :: "u32 list" where
  "sha_K =
    [
     hx 0x428a 0x2f98, hx 0x7137 0x4491, hx 0xb5c0 0xfbcf, hx 0xe9b5 0xdba5,
     hx 0x3956 0xc25b, hx 0x59f1 0x11f1, hx 0x923f 0x82a4, hx 0xab1c 0x5ed5,
     hx 0xd807 0xaa98, hx 0x1283 0x5b01, hx 0x2431 0x85be, hx 0x550c 0x7dc3,
     hx 0x72be 0x5d74, hx 0x80de 0xb1fe, hx 0x9bdc 0x06a7, hx 0xc19b 0xf174,
     hx 0xe49b 0x69c1, hx 0xefbe 0x4786, hx 0x0fc1 0x9dc6, hx 0x240c 0xa1cc,
     hx 0x2de9 0x2c6f, hx 0x4a74 0x84aa, hx 0x5cb0 0xa9dc, hx 0x76f9 0x88da,
     hx 0x983e 0x5152, hx 0xa831 0xc66d, hx 0xb003 0x27c8, hx 0xbf59 0x7fc7,
     hx 0xc6e0 0x0bf3, hx 0xd5a7 0x9147, hx 0x06ca 0x6351, hx 0x1429 0x2967,
     hx 0x27b7 0x0a85, hx 0x2e1b 0x2138, hx 0x4d2c 0x6dfc, hx 0x5338 0x0d13,
     hx 0x650a 0x7354, hx 0x766a 0x0abb, hx 0x81c2 0xc92e, hx 0x9272 0x2c85,
     hx 0xa2bf 0xe8a1, hx 0xa81a 0x664b, hx 0xc24b 0x8b70, hx 0xc76c 0x51a3,
     hx 0xd192 0xe819, hx 0xd699 0x0624, hx 0xf40e 0x3585, hx 0x106a 0xa070,
     hx 0x19a4 0xc116, hx 0x1e37 0x6c08, hx 0x2748 0x774c, hx 0x34b0 0xbcb5,
     hx 0x391c 0x0cb3, hx 0x4ed8 0xaa4a, hx 0x5b9c 0xca4f, hx 0x682e 0x6ff3,
     hx 0x748f 0x82ee, hx 0x78a5 0x636f, hx 0x84c8 0x7814, hx 0x8cc7 0x0208,
     hx 0x90be 0xfffa, hx 0xa450 0x6ceb, hx 0xbef9 0xa3f7, hx 0xc671 0x78f2]"

definition sha_init :: "u32 list" where
  "sha_init = [
     hx 0x6a09 0xe667, hx 0xbb67 0xae85, hx 0x3c6e 0xf372, hx 0xa54f 0xf53a,
     hx 0x510e 0x527f, hx 0x9b05 0x688c, hx 0x1f83 0xd9ab, hx 0x5be0 0xcd19]"

text \<open>\<open>while msg.len() % 64 != 56 { msg.push(0) }\<close>\<close>

function pad_zeros :: "u8 list \<Rightarrow> u8 list" where
  "pad_zeros msg = (if length msg mod 64 \<noteq> 56 then pad_zeros (msg @ [0]) else msg)"
  by pat_completeness auto
termination
  by (relation "measure (\<lambda>msg. if length msg mod 64 \<le> 56 then 56 - length msg mod 64
       else 120 - length msg mod 64)") (auto simp: mod_Suc)

declare pad_zeros.simps [simp del]

definition be_bytes64 :: "u64 \<Rightarrow> u8 list" where
  "be_bytes64 w = map (\<lambda>k. ucast (drop_bit k w)) [56, 48, 40, 32, 24, 16, 8, 0]"

definition sha_pad :: "u8 list \<Rightarrow> u8 list" where
  "sha_pad data =
     pad_zeros (data @ [0x80]) @ be_bytes64 (word_of_nat (length data) * 8)"

fun be_u32 :: "u8 list \<Rightarrow> u32" where
  "be_u32 [a, b, c, d] =
     (push_bit 24 (ucast a) OR push_bit 16 (ucast b) OR push_bit 8 (ucast c) OR ucast d)"
| "be_u32 _ = 0"

fun be_words :: "nat \<Rightarrow> u8 list \<Rightarrow> u32 list" where
  "be_words 0 chunk = []"
| "be_words (Suc n) chunk = be_u32 (take 4 chunk) # be_words n (drop 4 chunk)"

definition rotr :: "nat \<Rightarrow> u32 \<Rightarrow> u32" where
  "rotr k x = drop_bit k x OR push_bit (32 - k) x"

text \<open>The schedule: \<open>w\<close> holds the entries below \<open>i\<close>, and the loop appends entry \<open>i\<close>.\<close>

definition schedule_entry :: "u32 list \<Rightarrow> nat \<Rightarrow> u32" where
  "schedule_entry w i =
     (let x = w ! (i - 15); y = w ! (i - 2);
          s0 = rotr 7 x XOR rotr 18 x XOR drop_bit 3 x;
          s1 = rotr 17 y XOR rotr 19 y XOR drop_bit 10 y
      in w ! (i - 16) + s0 + w ! (i - 7) + s1)"

fun schedule :: "nat \<Rightarrow> u32 list \<Rightarrow> u32 list" where
  "schedule 0 w = w"
| "schedule (Suc n) w = schedule n (w @ [schedule_entry w (length w)])"

text \<open>The eight working variables \<open>a .. hh\<close>.\<close>

fun sha_round :: "u32 \<Rightarrow> u32 \<Rightarrow> u32 list \<Rightarrow> u32 list" where
  "sha_round k w [a, b, c, d, e, f, g, hh] =
     (let s1 = rotr 6 e XOR rotr 11 e XOR rotr 25 e;
          ch = (e AND f) XOR (NOT e AND g);
          t1 = hh + s1 + ch + k + w;
          s0 = rotr 2 a XOR rotr 13 a XOR rotr 22 a;
          maj = (a AND b) XOR (a AND c) XOR (b AND c);
          t2 = s0 + maj
      in [t1 + t2, a, b, c, d + t1, e, f, g])"
| "sha_round k w s = s"

fun sha_rounds :: "u32 list \<Rightarrow> u32 list \<Rightarrow> u32 list \<Rightarrow> u32 list" where
  "sha_rounds (k # ks) (w # ws) s = sha_rounds ks ws (sha_round k w s)"
| "sha_rounds _ _ s = s"

definition sha_block :: "u8 list \<Rightarrow> u32 list \<Rightarrow> u32 list" where
  "sha_block chunk h = map2 (+) h (sha_rounds sha_K (schedule 48 (be_words 16 chunk)) h)"

text \<open>\<open>chunks_exact(64)\<close> drops a last partial chunk.\<close>

function sha_blocks :: "u8 list \<Rightarrow> u32 list \<Rightarrow> u32 list" where
  "sha_blocks msg h =
     (if length msg < 64 then h else sha_blocks (drop 64 msg) (sha_block (take 64 msg) h))"
  by pat_completeness auto
termination
  by (relation "measure (\<lambda>(msg, h). length msg)") auto

declare sha_blocks.simps [simp del]

text \<open>\<open>format!("{word:08x}")\<close>\<close>

definition hex_digit :: "nat \<Rightarrow> char" where
  "hex_digit n = ''0123456789abcdef'' ! n"

definition hex_word :: "u32 \<Rightarrow> string" where
  "hex_word w = map (\<lambda>k. hex_digit (unat (drop_bit k w AND 0xF))) [28, 24, 20, 16, 12, 8, 4, 0]"

definition sha256_hex :: "u8 list \<Rightarrow> string" where
  "sha256_hex data = concat (map hex_word (sha_blocks (sha_pad data) sha_init))"

end
