(* ===== verification/Effect_Catalog.thy ===== *)
theory Effect_Catalog
  imports Effect_Labels Sha256
begin

text \<open>
  The effect catalogue (\<open>rigor-effects/src/catalog.rs\<close>, \<open>mutators.rs\<close> and the error type of
  \<open>lib.rs\<close>): the raw shapes a YAML document spells, the checks at load time, and the lookup
  with its precedence. The YAML parser is an argument; the vendored mutator sets, a static the
  code parses on first use, are the argument \<open>ms\<close>.
\<close>

section \<open>Errors and shapes\<close>

datatype LoadError =
    Yaml string
  | InvalidLabel string string
  | UnknownPosture string string
  | UnknownMutatorSet string string
  | UnknownNarrowingHandler string string
  | MissingWhy string

definition NARROWING_HANDLERS :: "string list" where
  "NARROWING_HANDLERS = [''kernel_open'', ''file_open'', ''pathname_open'', ''time_new'',
     ''random_new'', ''uri_open'', ''sql_verb'']"

definition MUTATOR_SETS :: "string list" where
  "MUTATOR_SETS = [''array'', ''hash'', ''string'']"

record RawRow =
  raw_effects :: "string list option"
  raw_narrow :: "string option"
  raw_mutates :: "string option"
  raw_row_why :: "string option"

record RawClass =
  raw_posture :: "string option"
  raw_singleton_posture :: "string option"
  raw_kind :: "string option"
  raw_mutators :: "string option"
  raw_why :: "string option"
  raw_methods :: "RawRow option btree_map option"
  raw_singleton_methods :: "RawRow option btree_map option"

record RawCatalog =
  raw_schema :: u32
  raw_vocabulary :: "u32 option"
  raw_defaults :: "string list option btree_map"
  raw_universal :: "string list"
  raw_classes :: "RawClass option btree_map"

record Entry =
  entry_labels :: "string list"
  mutates_receiver :: bool
  from_posture :: bool

record Row =
  row_narrow :: "string option"
  row_why :: string
  row_entry :: Entry

record ClassEntry =
  instance_methods :: "Row btree_map"
  singleton_methods :: "Row btree_map"
  class_posture :: "string option"
  posture_labels :: "string list"
  singleton_posture_labels :: "string list"
  class_mutators :: "string option"
  mutator_selectors :: "string list"
  object_kind :: bool
  class_why :: string
  posture_entry :: Entry
  mutating_posture_entry :: Entry
  singleton_posture_entry :: Entry

record Catalog =
  schema :: u32
  vocabulary :: "u32 option"
  digest :: string
  postures :: "string list btree_map"
  universal :: "string list"
  classes :: "ClassEntry btree_map"
  object_constants :: "string list"

section \<open>Mutator sets\<close>

record Mutators =
  mutators_schema :: u32
  mutator_sets :: "string list btree_map"

text \<open>\<open>Mutators::from_yaml_str\<close> after the parse; \<open>raw\<close> are the sets with their selectors.\<close>

definition mutators_build :: "u32 \<Rightarrow> string list btree_map \<Rightarrow> LoadError + Mutators" where
  "mutators_build sc raw =
     res_bind
       (res_map_entries (\<lambda>name selectors.
          if name \<notin> set MUTATOR_SETS
          then Inl (UnknownMutatorSet ''vendor/effects/mutators.yml'' name)
          else Inr (btree_of selectors)) raw)
       (\<lambda>sets. Inr \<lparr> mutators_schema = sc, mutator_sets = sets \<rparr>)"

definition mutators_set :: "Mutators \<Rightarrow> string option \<Rightarrow> string list" where
  "mutators_set ms name =
     (case name of None \<Rightarrow> [] | Some n \<Rightarrow>
        (case map_of (mutator_sets ms) n of Some s \<Rightarrow> s | None \<Rightarrow> []))"

section \<open>Building\<close>

definition raw_class_empty :: RawClass where
  "raw_class_empty = \<lparr> raw_posture = None, raw_singleton_posture = None, raw_kind = None,
     raw_mutators = None, raw_why = None, raw_methods = None, raw_singleton_methods = None \<rparr>"

definition raw_row_empty :: RawRow where
  "raw_row_empty =
     \<lparr> raw_effects = None, raw_narrow = None, raw_mutates = None, raw_row_why = None \<rparr>"

definition unwrap_or :: "'a \<Rightarrow> 'a option \<Rightarrow> 'a" where
  "unwrap_or d r = (case r of Some x \<Rightarrow> x | None \<Rightarrow> d)"

definition label_set :: "string \<Rightarrow> string list option \<Rightarrow> LoadError + string list" where
  "label_set ctxt ls =
     (let ls = unwrap_or [] ls in
      case find (\<lambda>candidate. \<not> label_valid candidate) ls of
        Some candidate \<Rightarrow> Inl (InvalidLabel ctxt candidate)
      | None \<Rightarrow> Inr (btree_of ls))"

definition resolve_posture ::
  "string \<Rightarrow> string option \<Rightarrow> string list btree_map \<Rightarrow> LoadError + string list" where
  "resolve_posture class_name posture ps =
     (case posture of None \<Rightarrow> Inr []
      | Some p \<Rightarrow> (case map_of ps p of
            Some ls \<Rightarrow> Inr ls | None \<Rightarrow> Inl (UnknownPosture class_name p)))"

definition build_row :: "string \<Rightarrow> RawRow \<Rightarrow> bool \<Rightarrow> LoadError + Row" where
  "build_row rkey body in_mutator_set =
     (case (case raw_narrow body of
              Some handler \<Rightarrow>
                if handler \<notin> set NARROWING_HANDLERS
                then Some (UnknownNarrowingHandler rkey handler) else None
            | None \<Rightarrow> None) of
        Some e \<Rightarrow> Inl e
      | None \<Rightarrow>
          if unwrap_or [] (raw_row_why body) = [] then Inl (MissingWhy rkey)
          else
            res_bind (label_set rkey (raw_effects body)) (\<lambda>ls.
              Inr \<lparr> row_narrow = raw_narrow body, row_why = unwrap_or [] (raw_row_why body),
                    row_entry = \<lparr> entry_labels = ls,
                      mutates_receiver = (raw_mutates body = Some ''receiver'' \<or> in_mutator_set),
                      from_posture = False \<rparr> \<rparr>))"

definition build_rows ::
  "string \<Rightarrow> string \<Rightarrow> RawRow option btree_map option \<Rightarrow> string list \<Rightarrow> LoadError + Row btree_map" where
  "build_rows class_name joiner rows mutators =
     res_map_entries (\<lambda>selector body.
         build_row (class_name @ joiner @ selector) (unwrap_or raw_row_empty body)
           (selector \<in> set mutators))
       (unwrap_or [] rows)"

definition build_class ::
  "Mutators \<Rightarrow> string \<Rightarrow> RawClass \<Rightarrow> string list btree_map \<Rightarrow> LoadError + ClassEntry" where
  "build_class ms name body ps =
     res_bind
       (case raw_mutators body of
          None \<Rightarrow> Inr None
        | Some s \<Rightarrow> if s \<in> set MUTATOR_SETS then Inr (Some s) else Inl (UnknownMutatorSet name s))
       (\<lambda>mutators.
     let selectors = mutators_set ms mutators in
     res_bind (resolve_posture name (raw_posture body) ps) (\<lambda>p_labels.
     res_bind
       (resolve_posture name
          (case raw_singleton_posture body of Some p \<Rightarrow> Some p | None \<Rightarrow> raw_posture body) ps)
       (\<lambda>sp_labels.
     res_bind (build_rows name ''#'' (raw_methods body) selectors) (\<lambda>im.
     res_bind (build_rows name ''.'' (raw_singleton_methods body) []) (\<lambda>sm.
       Inr \<lparr> instance_methods = im, singleton_methods = sm, class_posture = raw_posture body,
             posture_labels = p_labels, singleton_posture_labels = sp_labels,
             class_mutators = mutators, mutator_selectors = selectors,
             object_kind = (raw_kind body = Some ''object''),
             class_why = unwrap_or [] (raw_why body),
             posture_entry =
               \<lparr> entry_labels = p_labels, mutates_receiver = False, from_posture = True \<rparr>,
             mutating_posture_entry =
               \<lparr> entry_labels = p_labels, mutates_receiver = True, from_posture = True \<rparr>,
             singleton_posture_entry =
               \<lparr> entry_labels = sp_labels, mutates_receiver = False, from_posture = True \<rparr> \<rparr>)))))"

definition catalog_build :: "Mutators \<Rightarrow> RawCatalog \<Rightarrow> string \<Rightarrow> LoadError + Catalog" where
  "catalog_build ms raw dg =
     res_bind (res_map_entries (\<lambda>name ls. label_set (''defaults.'' @ name) ls) (raw_defaults raw))
       (\<lambda>ps.
     res_bind
       (res_map_entries (\<lambda>name body. build_class ms name (unwrap_or raw_class_empty body) ps)
          (raw_classes raw))
       (\<lambda>cs.
       Inr \<lparr> schema = raw_schema raw, vocabulary = raw_vocabulary raw, digest = dg,
             postures = ps, universal = btree_of (raw_universal raw), classes = cs,
             object_constants = map fst (filter (\<lambda>(_, entry). object_kind entry) cs) \<rparr>))"

definition catalog_from_yaml ::
  "(string \<Rightarrow> LoadError + RawCatalog) \<Rightarrow> Mutators \<Rightarrow> string \<Rightarrow> LoadError + Catalog" where
  "catalog_from_yaml parse ms source =
     res_bind (parse source) (\<lambda>raw. catalog_build ms raw (sha256_hex (map of_char source)))"

definition catalog_identity :: "Catalog \<Rightarrow> string" where
  "catalog_identity c = show_u32 (schema c) @ '':'' @ digest c"

section \<open>Lookup\<close>

datatype Resolution = ResRow Row | ResUniversal Entry | ResPosture Entry

definition UNIVERSAL_ENTRY :: Entry where
  "UNIVERSAL_ENTRY = \<lparr> entry_labels = [], mutates_receiver = False, from_posture = False \<rparr>"

definition in_mutator_set :: "ClassEntry \<Rightarrow> string \<Rightarrow> bool" where
  "in_mutator_set c selector = (selector \<in> set (mutator_selectors c))"

definition resolve :: "Catalog \<Rightarrow> string \<Rightarrow> string \<Rightarrow> bool \<Rightarrow> bool \<Rightarrow> Resolution option" where
  "resolve cat owner selector singleton posture =
     (case map_of (classes cat) owner of None \<Rightarrow> None
      | Some entry \<Rightarrow>
          let bucket = (if singleton then singleton_methods entry else instance_methods entry) in
          (case map_of bucket selector of
             Some row \<Rightarrow> Some (ResRow row)
           | None \<Rightarrow>
               if selector \<in> set (universal cat) then Some (ResUniversal UNIVERSAL_ENTRY)
               else if \<not> posture then None
               else Some (ResPosture
                 (if singleton then singleton_posture_entry entry
                  else if in_mutator_set entry selector then mutating_posture_entry entry
                  else posture_entry entry))))"

fun resolution_entry :: "Resolution \<Rightarrow> Entry" where
  "resolution_entry (ResRow row) = row_entry row"
| "resolution_entry (ResUniversal entry) = entry"
| "resolution_entry (ResPosture entry) = entry"

definition lookup_with :: "Catalog \<Rightarrow> string \<Rightarrow> string \<Rightarrow> bool \<Rightarrow> bool \<Rightarrow> Entry option" where
  "lookup_with cat owner selector singleton posture =
     map_option resolution_entry (resolve cat owner selector singleton posture)"

definition catalog_lookup :: "Catalog \<Rightarrow> string \<Rightarrow> string \<Rightarrow> Entry option" where
  "catalog_lookup cat owner selector = lookup_with cat owner selector False True"

definition object_constant :: "Catalog \<Rightarrow> string \<Rightarrow> bool" where
  "object_constant cat name = (name \<in> set (object_constants cat))"

end
