(* ===== verification/Catalog_Laws.thy ===== *)
theory Catalog_Laws
  imports Effect_Catalog Label_Laws
begin

text \<open>
  The catalogue against its data: which documents load, what a loaded catalogue is made of,
  and what a lookup answers in terms of the rows, the universal list and the postures that
  the document spells.
\<close>

section \<open>Loading as a decision on the data\<close>

lemma res_fold_success:
  "(\<exists>r. res_fold (\<lambda>(k, v) out. res_bind (f k v) (\<lambda>w. Inr (btree_put k w out))) m out = Inr r)
    \<longleftrightarrow> (\<forall>(k, v) \<in> set m. \<exists>w. f k v = Inr w)"
  by (induction m arbitrary: out) fastforce+

lemma res_map_entries_success:
  "(\<exists>r. res_map_entries f m = Inr r) \<longleftrightarrow> (\<forall>(k, v) \<in> set m. \<exists>w. f k v = Inr w)"
  unfolding res_map_entries_def by (rule res_fold_success)

definition labels_ok :: "string list option \<Rightarrow> bool" where
  "labels_ok ls = list_all label_valid (unwrap_or [] ls)"

definition raw_row_ok :: "RawRow \<Rightarrow> bool" where
  "raw_row_ok r =
     ((case raw_narrow r of Some h \<Rightarrow> h \<in> set NARROWING_HANDLERS | None \<Rightarrow> True)
      \<and> unwrap_or [] (raw_row_why r) \<noteq> [] \<and> labels_ok (raw_effects r))"

definition raw_class_ok :: "string list \<Rightarrow> RawClass \<Rightarrow> bool" where
  "raw_class_ok posture_names c =
     ((case raw_mutators c of Some s \<Rightarrow> s \<in> set MUTATOR_SETS | None \<Rightarrow> True)
      \<and> (case raw_posture c of Some p \<Rightarrow> p \<in> set posture_names | None \<Rightarrow> True)
      \<and> (case raw_singleton_posture c of Some p \<Rightarrow> p \<in> set posture_names | None \<Rightarrow> True)
      \<and> list_all (\<lambda>(_, r). raw_row_ok (unwrap_or raw_row_empty r)) (unwrap_or [] (raw_methods c))
      \<and> list_all (\<lambda>(_, r). raw_row_ok (unwrap_or raw_row_empty r))
          (unwrap_or [] (raw_singleton_methods c)))"

definition raw_catalog_ok :: "RawCatalog \<Rightarrow> bool" where
  "raw_catalog_ok raw =
     (list_all (\<lambda>(_, ls). labels_ok ls) (raw_defaults raw)
      \<and> list_all (\<lambda>(_, c). raw_class_ok (map fst (raw_defaults raw)) (unwrap_or raw_class_empty c))
          (raw_classes raw))"

text \<open>A parsed YAML mapping is a \<open>BTreeMap\<close>: its keys are distinct.\<close>

definition raw_maps_distinct :: "RawCatalog \<Rightarrow> bool" where
  "raw_maps_distinct raw =
     (distinct (map fst (raw_defaults raw)) \<and> distinct (map fst (raw_classes raw))
      \<and> list_all (\<lambda>(_, c). let c = unwrap_or raw_class_empty c in
          distinct (map fst (unwrap_or [] (raw_methods c)))
          \<and> distinct (map fst (unwrap_or [] (raw_singleton_methods c)))) (raw_classes raw))"

lemma label_set_Inr:
  "label_set ctxt ls = Inr r \<longleftrightarrow> labels_ok ls \<and> r = btree_of (unwrap_or [] ls)"
  by (auto simp: label_set_def labels_ok_def Let_def list_all_iff find_None_iff find_Some_iff
      split: option.splits)

lemma resolve_posture_Inr:
  "resolve_posture n p ps = Inr r \<longleftrightarrow>
     (case p of None \<Rightarrow> r = [] | Some q \<Rightarrow> map_of ps q = Some r)"
  by (auto simp: resolve_posture_def split: option.splits)

lemma build_row_Inr:
  "build_row k b mut = Inr r \<longleftrightarrow> raw_row_ok b \<and>
     r = \<lparr> row_narrow = raw_narrow b, row_why = unwrap_or [] (raw_row_why b),
           row_entry = \<lparr> entry_labels = btree_of (unwrap_or [] (raw_effects b)),
             mutates_receiver = (raw_mutates b = Some ''receiver'' \<or> mut), from_posture = False \<rparr> \<rparr>"
  by (auto simp: build_row_def raw_row_ok_def label_set_Inr split: option.splits)

lemma build_rows_success:
  "(\<exists>r. build_rows n j rows mut = Inr r) \<longleftrightarrow>
     list_all (\<lambda>(_, b). raw_row_ok (unwrap_or raw_row_empty b)) (unwrap_or [] rows)"
  by (auto simp: build_rows_def res_map_entries_success build_row_Inr list_all_iff)

lemma build_class_success:
  assumes "set ks = fst ` set ps"
  shows "(\<exists>c. build_class ms n b ps = Inr c) \<longleftrightarrow> raw_class_ok ks b"
proof -
  have post: "(\<exists>r. resolve_posture n p ps = Inr r) \<longleftrightarrow> (case p of Some q \<Rightarrow> q \<in> set ks | None \<Rightarrow> True)" for p
    unfolding resolve_posture_Inr assms by (auto simp: map_of_eq_Some_iff split: option.splits)
      (metis fst_conv image_eqI map_of_SomeD, metis map_of_eq_None_iff not_None_eq set_map image_eqI fst_conv)
  have "(\<exists>c. build_class ms n b ps = Inr c) \<longleftrightarrow>
      (case raw_mutators b of Some s \<Rightarrow> s \<in> set MUTATOR_SETS | None \<Rightarrow> True)
      \<and> (\<exists>r. resolve_posture n (raw_posture b) ps = Inr r)
      \<and> (\<exists>r. resolve_posture n (case raw_singleton_posture b of Some p \<Rightarrow> Some p
            | None \<Rightarrow> raw_posture b) ps = Inr r)
      \<and> (\<exists>r. build_rows n ''#'' (raw_methods b) (mutators_set ms (raw_mutators b)) = Inr r)
      \<and> (\<exists>r. build_rows n ''.'' (raw_singleton_methods b) [] = Inr r)"
    by (auto simp: build_class_def Let_def split: option.splits if_splits)
  then show ?thesis unfolding post build_rows_success raw_class_ok_def
    by (auto split: option.splits)
qed


lemma res_map_entries_keys:
  assumes "res_map_entries f m = Inr r" "distinct (map fst m)"
  shows "fst ` set r = fst ` set m"
proof -
  have "map_of r k = None \<longleftrightarrow> map_of m k = None" for k
    using res_map_entries_Inr(2,3)[OF assms, of k] by (cases "map_of m k") auto
  then show ?thesis by (auto simp: map_of_eq_None_iff set_eq_iff)
qed

lemma catalog_build_success:
  assumes "raw_maps_distinct raw"
  shows "(\<exists>cat. catalog_build ms raw dg = Inr cat) \<longleftrightarrow> raw_catalog_ok raw"
proof -
  let ?D = "res_map_entries (\<lambda>name ls. label_set (''defaults.'' @ name) ls) (raw_defaults raw)"
  let ?C = "\<lambda>ps. res_map_entries (\<lambda>name body. build_class ms name (unwrap_or raw_class_empty body) ps)
    (raw_classes raw)"
  have "(\<exists>cat. catalog_build ms raw dg = Inr cat) \<longleftrightarrow> (\<exists>ps. ?D = Inr ps \<and> (\<exists>cs. ?C ps = Inr cs))"
    by (auto simp: catalog_build_def)
  also have "\<dots> \<longleftrightarrow> (\<exists>ps. ?D = Inr ps) \<and> list_all (\<lambda>(_, c). raw_class_ok
      (map fst (raw_defaults raw)) (unwrap_or raw_class_empty c)) (raw_classes raw)"
  proof -
    have "(\<exists>cs. ?C ps = Inr cs) \<longleftrightarrow> list_all (\<lambda>(_, c). raw_class_ok
        (map fst (raw_defaults raw)) (unwrap_or raw_class_empty c)) (raw_classes raw)"
      if "?D = Inr ps" for ps
      using res_map_entries_keys[OF that] assms
      by (simp add: res_map_entries_success raw_maps_distinct_def list_all_iff
          build_class_success[of "map fst (raw_defaults raw)"])
    then show ?thesis by blast
  qed
  also have "(\<exists>ps. ?D = Inr ps) \<longleftrightarrow> list_all (\<lambda>(_, ls). labels_ok ls) (raw_defaults raw)"
    by (auto simp: res_map_entries_success label_set_Inr list_all_iff)
  finally show ?thesis by (simp add: raw_catalog_ok_def)
qed

section \<open>What a lookup answers\<close>

text \<open>The answer the data file means: contributed labels, receiver mutation, from a posture.\<close>

type_synonym Answer = "string set \<times> bool \<times> bool"

definition entry_answer :: "Entry \<Rightarrow> Answer" where
  "entry_answer e = (set (entry_labels e), mutates_receiver e, from_posture e)"

definition data_posture :: "RawCatalog \<Rightarrow> RawClass \<Rightarrow> bool \<Rightarrow> string set" where
  "data_posture raw c singleton =
     (case (if singleton then (case raw_singleton_posture c of Some p \<Rightarrow> Some p
             | None \<Rightarrow> raw_posture c) else raw_posture c) of
        None \<Rightarrow> {}
      | Some p \<Rightarrow> (case map_of (raw_defaults raw) p of
            Some ls \<Rightarrow> set (unwrap_or [] ls) | None \<Rightarrow> {}))"

definition data_answer ::
  "Mutators \<Rightarrow> RawCatalog \<Rightarrow> string \<Rightarrow> string \<Rightarrow> bool \<Rightarrow> bool \<Rightarrow> Answer option" where
  "data_answer ms raw owner selector singleton posture =
     (case map_of (raw_classes raw) owner of None \<Rightarrow> None
      | Some body \<Rightarrow>
          let c = unwrap_or raw_class_empty body;
              rows = unwrap_or [] (if singleton then raw_singleton_methods c else raw_methods c);
              mut = (\<not> singleton \<and> selector \<in> set (mutators_set ms (raw_mutators c)))
          in (case map_of rows selector of
                Some r \<Rightarrow>
                  let r = unwrap_or raw_row_empty r in
                  Some (set (unwrap_or [] (raw_effects r)),
                        raw_mutates r = Some ''receiver'' \<or> mut, False)
              | None \<Rightarrow>
                  if selector \<in> set (raw_universal raw) then Some ({}, False, False)
                  else if posture then Some (data_posture raw c singleton, mut, True)
                  else None))"

lemma build_rows_lookup:
  assumes "build_rows n j rows mut = Inr rs" "distinct (map fst (unwrap_or [] rows))"
  shows "map_of rs selector = map_option (\<lambda>b. let b = unwrap_or raw_row_empty b in
     \<lparr> row_narrow = raw_narrow b, row_why = unwrap_or [] (raw_row_why b),
       row_entry = \<lparr> entry_labels = btree_of (unwrap_or [] (raw_effects b)),
         mutates_receiver = (raw_mutates b = Some ''receiver'' \<or> selector \<in> set mut),
         from_posture = False \<rparr> \<rparr>) (map_of (unwrap_or [] rows) selector)"
  using res_map_entries_Inr(2,3)[OF assms(1)[unfolded build_rows_def] assms(2), of selector]
  by (cases "map_of (unwrap_or [] rows) selector") (auto simp: build_row_Inr Let_def)

lemma catalog_buildE:
  assumes "catalog_build ms raw dg = Inr cat"
  obtains "res_map_entries (\<lambda>name ls. label_set (''defaults.'' @ name) ls) (raw_defaults raw)
      = Inr (postures cat)"
    and "res_map_entries (\<lambda>name body. build_class ms name (unwrap_or raw_class_empty body)
      (postures cat)) (raw_classes raw) = Inr (classes cat)"
    and "universal cat = btree_of (raw_universal raw)"
    and "object_constants cat = map fst (filter (\<lambda>(_, e). object_kind e) (classes cat))"
  using assms by (auto simp: catalog_build_def)

lemma build_classE:
  assumes "build_class ms n b ps = Inr c"
  obtains "resolve_posture n (raw_posture b) ps = Inr (posture_labels c)"
    and "resolve_posture n (case raw_singleton_posture b of Some p \<Rightarrow> Some p | None \<Rightarrow> raw_posture b) ps
      = Inr (singleton_posture_labels c)"
    and "build_rows n ''#'' (raw_methods b) (mutator_selectors c) = Inr (instance_methods c)"
    and "build_rows n ''.'' (raw_singleton_methods b) [] = Inr (singleton_methods c)"
    and "mutator_selectors c = mutators_set ms (raw_mutators b)"
    and "posture_entry c =
      \<lparr> entry_labels = posture_labels c, mutates_receiver = False, from_posture = True \<rparr>"
    and "mutating_posture_entry c =
      \<lparr> entry_labels = posture_labels c, mutates_receiver = True, from_posture = True \<rparr>"
    and "singleton_posture_entry c =
      \<lparr> entry_labels = singleton_posture_labels c, mutates_receiver = False, from_posture = True \<rparr>"
    and "class_mutators c = raw_mutators b"
    and "object_kind c = (raw_kind b = Some ''object'')"
  using assms by (auto simp: build_class_def Let_def split: option.splits if_splits)


lemma resolve_posture_data:
  assumes D: "res_map_entries (\<lambda>name ls. label_set (''defaults.'' @ name) ls) ds = Inr ps"
    and "distinct (map fst ds)" and "resolve_posture n p ps = Inr r"
  shows "set r = (case p of None \<Rightarrow> {} | Some q \<Rightarrow>
      (case map_of ds q of Some ls \<Rightarrow> set (unwrap_or [] ls) | None \<Rightarrow> {}))"
    and "sorted r \<and> distinct r \<and> list_all label_valid r"
proof -
  have q: "(\<exists>ls. map_of ds q = Some ls \<and> labels_ok ls \<and> s = btree_of (unwrap_or [] ls))"
    if "map_of ps q = Some s" for q s
    using res_map_entries_Inr(2,3)[OF D assms(2), of q] that
    by (cases "map_of ds q") (auto simp: label_set_Inr)
  show "set r = (case p of None \<Rightarrow> {} | Some q \<Rightarrow>
      (case map_of ds q of Some ls \<Rightarrow> set (unwrap_or [] ls) | None \<Rightarrow> {}))"
    and "sorted r \<and> distinct r \<and> list_all label_valid r"
    using assms(3) q by (cases p; fastforce simp: resolve_posture_Inr labels_ok_def list_all_iff)+
qed

lemma catalog_classes:
  assumes "catalog_build ms raw dg = Inr cat" "raw_maps_distinct raw"
  shows "map_of (raw_classes raw) owner = None \<Longrightarrow> map_of (classes cat) owner = None"
    and "map_of (raw_classes raw) owner = Some body \<Longrightarrow>
      \<exists>c. map_of (classes cat) owner = Some c
        \<and> build_class ms owner (unwrap_or raw_class_empty body) (postures cat) = Inr c"
proof -
  from assms(1) have C: "res_map_entries (\<lambda>name body. build_class ms name
      (unwrap_or raw_class_empty body) (postures cat)) (raw_classes raw) = Inr (classes cat)"
    by (rule catalog_buildE)
  have dist: "distinct (map fst (raw_classes raw))" using assms(2) by (simp add: raw_maps_distinct_def)
  from res_map_entries_Inr(2,3)[OF C dist]
  show "map_of (raw_classes raw) owner = None \<Longrightarrow> map_of (classes cat) owner = None"
    and "map_of (raw_classes raw) owner = Some body \<Longrightarrow>
      \<exists>c. map_of (classes cat) owner = Some c
        \<and> build_class ms owner (unwrap_or raw_class_empty body) (postures cat) = Inr c"
    by blast+
qed

lemma class_maps_distinct:
  assumes "raw_maps_distinct raw" "map_of (raw_classes raw) owner = Some body"
  shows "distinct (map fst (unwrap_or [] (raw_methods (unwrap_or raw_class_empty body))))"
    and "distinct (map fst (unwrap_or [] (raw_singleton_methods (unwrap_or raw_class_empty body))))"
  using assms(1) map_of_SomeD[OF assms(2)]
  by (auto simp: raw_maps_distinct_def list_all_iff Let_def)

section \<open>Well-formed catalogues\<close>

definition labels_normal :: "string list \<Rightarrow> bool" where
  "labels_normal ls = (sorted ls \<and> distinct ls \<and> list_all label_valid ls)"

definition row_normal :: "Row \<Rightarrow> bool" where
  "row_normal r =
     (labels_normal (entry_labels (row_entry r)) \<and> \<not> from_posture (row_entry r)
      \<and> row_why r \<noteq> []
      \<and> (case row_narrow r of Some h \<Rightarrow> h \<in> set NARROWING_HANDLERS | None \<Rightarrow> True))"

definition class_normal :: "ClassEntry \<Rightarrow> bool" where
  "class_normal c =
     (key_sorted (instance_methods c) \<and> key_sorted (singleton_methods c)
      \<and> list_all row_normal (map snd (instance_methods c) @ map snd (singleton_methods c))
      \<and> list_all (\<lambda>e. labels_normal (entry_labels e) \<and> from_posture e)
          [posture_entry c, mutating_posture_entry c, singleton_posture_entry c]
      \<and> mutates_receiver (mutating_posture_entry c)
      \<and> \<not> mutates_receiver (posture_entry c) \<and> \<not> mutates_receiver (singleton_posture_entry c)
      \<and> (case class_mutators c of Some s \<Rightarrow> s \<in> set MUTATOR_SETS | None \<Rightarrow> True))"

lemma key_sorted_distinct: "key_sorted m \<Longrightarrow> distinct (map fst m)"
  by (simp add: key_sorted_def strict_sorted_iff)

lemma entries_all:
  assumes "key_sorted m" "\<And>k v. map_of m k = Some v \<Longrightarrow> P v"
  shows "list_all P (map snd m)"
  unfolding list_all_iff using assms(2) key_sorted_distinct[OF assms(1)] by force

lemma build_rows_normal:
  assumes "build_rows n j rows mut = Inr rs" "distinct (map fst (unwrap_or [] rows))"
  shows "key_sorted rs" and "list_all row_normal (map snd rs)"
proof -
  note r = assms(1)[unfolded build_rows_def]
  show sorted: "key_sorted rs" by (rule res_map_entries_Inr(1)[OF r assms(2)])
  have "row_normal v" if rs: "map_of rs k = Some v" for k v
  proof -
    obtain b where b: "map_of (unwrap_or [] rows) k = Some b"
      using build_rows_lookup[OF assms, of k] rs
      by (cases "map_of (unwrap_or [] rows) k") auto
    then have "raw_row_ok (unwrap_or raw_row_empty b)"
      using res_map_entries_Inr(2)[OF r assms(2)] by (auto simp: build_row_Inr)
    then show ?thesis using build_rows_lookup[OF assms, of k] rs b
      by (auto simp: row_normal_def labels_normal_def raw_row_ok_def labels_ok_def list_all_iff Let_def)
  qed
  then show "list_all row_normal (map snd rs)" by (rule entries_all[OF sorted])
qed

lemma class_normalI:
  assumes cat: "catalog_build ms raw dg = Inr cat" and dist: "raw_maps_distinct raw"
    and c: "map_of (classes cat) owner = Some c"
  shows "class_normal c"
proof -
  obtain body where body: "map_of (raw_classes raw) owner = Some body"
    using catalog_classes(1)[OF cat dist, of owner] c by fastforce
  then have bc: "build_class ms owner (unwrap_or raw_class_empty body) (postures cat) = Inr c"
    using catalog_classes(2)[OF cat dist body] c by simp
  have D: "res_map_entries (\<lambda>name ls. label_set (''defaults.'' @ name) ls) (raw_defaults raw)
      = Inr (postures cat)" using cat by (rule catalog_buildE)
  have dd: "distinct (map fst (raw_defaults raw))" using dist by (simp add: raw_maps_distinct_def)
  have mutset: "case class_mutators c of Some s \<Rightarrow> s \<in> set MUTATOR_SETS | None \<Rightarrow> True"
    using bc by (auto simp: build_class_def Let_def split: option.splits if_splits)
  from bc show ?thesis
  proof (rule build_classE)
    assume p: "resolve_posture owner (raw_posture (unwrap_or raw_class_empty body)) (postures cat)
        = Inr (posture_labels c)"
      and sp: "resolve_posture owner (case raw_singleton_posture (unwrap_or raw_class_empty body) of
          Some p \<Rightarrow> Some p | None \<Rightarrow> raw_posture (unwrap_or raw_class_empty body)) (postures cat)
        = Inr (singleton_posture_labels c)"
      and im: "build_rows owner ''#'' (raw_methods (unwrap_or raw_class_empty body))
        (mutator_selectors c) = Inr (instance_methods c)"
      and sm: "build_rows owner ''.'' (raw_singleton_methods (unwrap_or raw_class_empty body)) []
        = Inr (singleton_methods c)"
      and es: "posture_entry c =
          \<lparr> entry_labels = posture_labels c, mutates_receiver = False, from_posture = True \<rparr>"
        "mutating_posture_entry c =
          \<lparr> entry_labels = posture_labels c, mutates_receiver = True, from_posture = True \<rparr>"
        "singleton_posture_entry c =
          \<lparr> entry_labels = singleton_posture_labels c, mutates_receiver = False, from_posture = True \<rparr>"
    note rows = build_rows_normal[OF im class_maps_distinct(1)[OF dist body]]
      build_rows_normal[OF sm class_maps_distinct(2)[OF dist body]]
    note labels = resolve_posture_data(2)[OF D dd p] resolve_posture_data(2)[OF D dd sp]
    show ?thesis using rows labels mutset by (simp add: class_normal_def labels_normal_def es)
  qed
qed

end
