(* ===== verification/Sha256_Laws.thy ===== *)
theory Sha256_Laws
  imports Sha256
begin

text \<open>
  What the digest promises whatever its rounds compute: the padded message is whole blocks and
  determines the message, every byte of it is consumed, and the rendering is 64 hexadecimal
  digits.
\<close>

lemma pad_zeros_form:
  "\<exists>k. pad_zeros msg = msg @ replicate k 0 \<and> k < 64 \<and> (length msg + k) mod 64 = 56"
proof -
  have "\<exists>k. pad_zeros msg = msg @ replicate k 0 \<and> (length msg + k) mod 64 = 56
    \<and> k \<le> (if length msg mod 64 \<le> 56 then 56 - length msg mod 64 else 120 - length msg mod 64)"
  proof (induction msg rule: pad_zeros.induct)
    case (1 msg)
    show ?case
    proof (cases "length msg mod 64 = 56")
      case True
      then show ?thesis by (intro exI[of _ 0]) (simp add: pad_zeros.simps)
    next
      case False
      with 1 obtain k where k: "pad_zeros (msg @ [0]) = (msg @ [0]) @ replicate k 0"
        "(length (msg @ [0 :: u8]) + k) mod 64 = 56"
        "k \<le> (if length (msg @ [0 :: u8]) mod 64 \<le> 56 then 56 - length (msg @ [0 :: u8]) mod 64
          else 120 - length (msg @ [0 :: u8]) mod 64)" by blast
      from False k show ?thesis
        by (intro exI[of _ "Suc k"]) (auto simp: pad_zeros.simps[of msg] mod_Suc split: if_splits)
    qed
  qed
  then obtain k where "pad_zeros msg = msg @ replicate k 0" "(length msg + k) mod 64 = 56"
    "k \<le> (if length msg mod 64 \<le> 56 then 56 - length msg mod 64 else 120 - length msg mod 64)"
    by blast
  then show ?thesis by (intro exI[of _ k]) (auto split: if_splits)
qed

lemma length_be_bytes64 [simp]: "length (be_bytes64 w) = 8"
  by (simp add: be_bytes64_def)

lemma sha_pad_form:
  obtains k where "sha_pad data = data @ 0x80 # replicate k 0 @ be_bytes64 (word_of_nat (length data) * 8)"
    "k < 64" "length (sha_pad data) mod 64 = 0"
proof -
  obtain k where k: "pad_zeros (data @ [0x80]) = (data @ [0x80]) @ replicate k 0" "k < 64"
    "(length (data @ [0x80 :: u8]) + k) mod 64 = 56"
    using pad_zeros_form by blast
  have "length (sha_pad data) mod 64 = ((length (data @ [0x80 :: u8]) + k) mod 64 + 8) mod 64"
    using k(1) by (simp add: sha_pad_def mod_simps add_ac)
  then show ?thesis using k that[of k] by (simp add: sha_pad_def)
qed

lemma be_bytes64_inj: "be_bytes64 v = be_bytes64 w \<longleftrightarrow> v = w"
proof
  assume eq: "be_bytes64 v = be_bytes64 w"
  show "v = w"
  proof (rule bit_word_eqI)
    fix n assume n: "n < LENGTH(64)"
    have byte: "(ucast (drop_bit k v) :: u8) = ucast (drop_bit k w)"
      if "k \<in> set [56, 48, 40, 32, 24, 16, 8, 0]" for k
      using eq that by (auto simp: be_bytes64_def)
    have "n - n mod 8 = 8 * (n div 8)" by (simp add: minus_mod_eq_mult_div)
    moreover have "n div 8 \<in> {0, 1, 2, 3, 4, 5, 6, 7}" using n by auto
    ultimately have "n - n mod 8 \<in> set [56, 48, 40, 32, 24, 16, 8, 0]" by auto
    from arg_cong[OF byte[OF this], of "\<lambda>x. bit x (n mod 8)"]
    show "bit v n = bit w n" by (simp add: bit_ucast_iff bit_drop_bit_eq)
  qed
qed simp

lemma equal_suffix: "length u = length v \<Longrightarrow> p @ u = q @ v \<Longrightarrow> p = q \<and> u = v"
  by simp

lemma sha_pad_inj:
  assumes "length a < 2 ^ 61" "length b < 2 ^ 61"
  shows "sha_pad a = sha_pad b \<longleftrightarrow> a = b"
proof
  assume eq: "sha_pad a = sha_pad b"
  obtain k where k: "sha_pad a = (a @ 0x80 # replicate k 0) @ be_bytes64 (word_of_nat (length a) * 8)"
    using sha_pad_form[of a] by (metis append.assoc append_Cons)
  obtain j where j: "sha_pad b = (b @ 0x80 # replicate j 0) @ be_bytes64 (word_of_nat (length b) * 8)"
    using sha_pad_form[of b] by (metis append.assoc append_Cons)
  have "(a @ 0x80 # replicate k 0) @ be_bytes64 (word_of_nat (length a) * 8)
      = (b @ 0x80 # replicate j 0) @ be_bytes64 (word_of_nat (length b) * 8)"
    using eq unfolding k j .
  then have "a @ 0x80 # replicate k 0 = b @ 0x80 # replicate j 0 \<and>
    be_bytes64 (word_of_nat (length a) * 8) = be_bytes64 (word_of_nat (length b) * 8)"
    by (rule equal_suffix[rotated]) (simp only: length_be_bytes64)
  note parts = conjunct1[OF this] conjunct2[OF this]
  have len8: "unat (word_of_nat n * 8 :: u64) = n * 8" if "n < 2 ^ 61" for n :: nat
  proof -
    have "(word_of_nat n * 8 :: u64) = word_of_nat (n * 8)" by simp
    then show ?thesis using that by (simp only: unat_of_nat) simp
  qed
  have "(word_of_nat (length a) * 8 :: u64) = word_of_nat (length b) * 8"
    using parts(2) unfolding be_bytes64_inj .
  from arg_cong[OF this, of unat] have "length a * 8 = length b * 8"
    unfolding len8[OF assms(1)] len8[OF assms(2)] .
  then have "length a = length b" by simp
  with arg_cong[OF parts(1), of "take (length a)"] show "a = b" by simp
qed simp

lemma length_sha_round [simp]: "length (sha_round k w s) = length s"
  by (cases "(k, w, s)" rule: sha_round.cases) (simp_all add: Let_def)

lemma length_sha_rounds [simp]: "length (sha_rounds ks ws s) = length s"
  by (induction ks ws s rule: sha_rounds.induct) simp_all

lemma length_sha_blocks [simp]: "length h = 8 \<Longrightarrow> length (sha_blocks msg h) = 8"
proof (induction msg h rule: sha_blocks.induct)
  case (1 msg h)
  then show ?case by (subst sha_blocks.simps) (simp add: sha_block_def)
qed

lemma sha_blocks_append:
  "length p mod 64 = 0 \<Longrightarrow> sha_blocks (p @ s) h = sha_blocks s (sha_blocks p h)"
proof (induction p h rule: sha_blocks.induct)
  case (1 p h)
  show ?case
  proof (cases "p = []")
    case True
    then show ?thesis by (simp add: sha_blocks.simps[of "[]"])
  next
    case False
    then have "\<not> length p < 64" using 1(2) by (metis length_0_conv mod_less)
    moreover from this have "length (drop 64 p) mod 64 = 0" using 1(2) by (simp add: le_mod_geq)
    ultimately show ?thesis using 1(1)
      by (simp add: sha_blocks.simps[of p] sha_blocks.simps[of "p @ s"])
  qed
qed

lemma length_hex_word [simp]: "length (hex_word w) = 8"
  by (simp add: hex_word_def)

lemma hex_digit_set: "n < 16 \<Longrightarrow> hex_digit n \<in> set ''0123456789abcdef''"
  unfolding hex_digit_def by (rule nth_mem) simp

lemma hex_word_digits: "set (hex_word w) \<subseteq> set ''0123456789abcdef''"
proof -
  have "unat (v AND 0xF :: u32) < 16" for v :: u32
  proof -
    have "v AND 0xF \<le> 0xF" by (rule word_and_le1)
    then show ?thesis by (simp add: word_le_nat_alt)
  qed
  then show ?thesis unfolding hex_word_def set_map by (intro image_subsetI hex_digit_set)
qed

text \<open>The digest of the empty input, as FIPS 180-4 publishes it.\<close>

lemma sha256_empty:
  "sha256_hex [] = ''e3b0c44298fc1c149afbf4c8996fb92427ae41e4649b934ca495991b7852b855''"
  by code_simp

end
