(* ===== verification/Effects_Properties.thy ===== *)
theory Effects_Properties
  imports Suggest_Laws Catalog_Laws Sha256_Laws
begin

text \<open>The properties of the effect vocabulary, the catalogue and its digest.\<close>

text \<open>Subsumption of effect labels is the prefix order on their segments: it holds exactly
  between valid labels whose segments are a prefix, is a partial order on the valid labels, and
  the ancestors the code lists are exactly the proper bounds, shortest first, the last of them
  the parent.\<close>

theorem subsumption_is_prefix_order:
  "(label_subsumes b l \<longleftrightarrow> label_valid b \<and> label_valid l
      \<and> (\<exists>ts. label_segments l = label_segments b @ ts))
   \<and> (label_subsumes l l \<longleftrightarrow> label_valid l)
   \<and> \<not> (label_subsumes b l \<and> label_subsumes l b \<and> b \<noteq> l)
   \<and> \<not> (label_subsumes a b \<and> label_subsumes b l \<and> \<not> label_subsumes a l)
   \<and> set (label_ancestors l) = {x. label_subsumes x l \<and> x \<noteq> l}
   \<and> sorted_wrt (\<lambda>x y. length x < length y) (label_ancestors l)
   \<and> label_parent l = (if label_ancestors l = [] then None else Some (last (label_ancestors l)))"
proof (intro conjI)
  show "label_subsumes b l \<longleftrightarrow> label_valid b \<and> label_valid l
      \<and> (\<exists>ts. label_segments l = label_segments b @ ts)" by (rule label_subsumes_segments)
  show "label_subsumes l l \<longleftrightarrow> label_valid l" by (rule label_subsumes_refl)
  show "\<not> (label_subsumes b l \<and> label_subsumes l b \<and> b \<noteq> l)"
    using label_subsumes_antisym[of b l] by blast
  show "\<not> (label_subsumes a b \<and> label_subsumes b l \<and> \<not> label_subsumes a l)"
    using label_subsumes_trans[of a b l] by simp
qed (rule label_ancestors_set label_ancestors_sorted label_parent_last)+

text \<open>The registry knows exactly the declared rows and every bound of a declared row; what it
  knows is closed under bounds, its roots are the known labels without a proper bound, and a root
  is the outermost segment of each valid label below it.\<close>

theorem registry_closed:
  assumes "r = registry_new v ls re ds"
  shows "(registry_known r k \<longleftrightarrow> k \<in> set ls \<or> (\<exists>d \<in> set ls. label_subsumes k d))
    \<and> (registry_known r d \<and> label_subsumes k d \<longrightarrow> registry_known r k)
    \<and> set (roots r) = {k. registry_known r k \<and> \<not> (\<exists>b. label_subsumes b k \<and> b \<noteq> k)}
    \<and> sorted (known_labels r) \<and> distinct (known_labels r)"
proof (intro conjI)
  show iff: "registry_known r k \<longleftrightarrow> k \<in> set ls \<or> (\<exists>d \<in> set ls. label_subsumes k d)" for k
    by (simp add: assms registry_known_iff)
  show "registry_known r d \<and> label_subsumes k d \<longrightarrow> registry_known r k"
    unfolding iff using label_subsumes_trans by blast
  have "label_ancestors k = [] \<longleftrightarrow> \<not> (\<exists>b. label_subsumes b k \<and> b \<noteq> k)" for k
    unfolding set_empty[symmetric] label_ancestors_set by blast
  then show "set (roots r) = {k. registry_known r k \<and> \<not> (\<exists>b. label_subsumes b k \<and> b \<noteq> k)}"
    unfolding assms registry_roots_set by simp
  show "sorted (known_labels r)" and "distinct (known_labels r)"
    using build_known_sorted by (auto simp: assms registry_new_def Let_def)
qed

theorem registry_closed_witness:
  "registry_known (registry_new 1 [''io.net.http''] [] []) ''io.net''
   \<and> set (roots (registry_new 1 [''io.net.http''] [] []))
     = {k. registry_known (registry_new 1 [''io.net.http''] [] []) k
        \<and> \<not> (\<exists>b. label_subsumes b k \<and> b \<noteq> k)}"
proof -
  have "label_subsumes ''io.net'' ''io.net.http''" by code_simp
  then show ?thesis
    using registry_closed[OF refl, of 1 "[''io.net.http'']" "[]" "[]" "''io.net''" "[]"] by simp
qed

text \<open>C32: The bounded two-row loop answers the least number of single-character insertions,
  deletions and replacements that turn one spelling into the other when that is within the cap,
  and one more than the cap otherwise.\<close>

theorem levenshtein_is_edit_distance:
  "levenshtein a b cap =
     (if \<exists>n \<le> cap. (edit ^^ n) (utf8_chars a) (utf8_chars b)
      then LEAST n. (edit ^^ n) (utf8_chars a) (utf8_chars b) else cap + 1)"
proof -
  let ?d = "edit_distance (utf8_chars a) (utf8_chars b)"
  obtain m where m: "m \<le> ?d" "(edit ^^ m) (utf8_chars a) (utf8_chars b)"
    using edit_distance_least[of ?d] by blast
  have low: "?d \<le> n" if "(edit ^^ n) (utf8_chars a) (utf8_chars b)" for n
    using edit_distance_least[of n] that by blast
  then have "(LEAST n. (edit ^^ n) (utf8_chars a) (utf8_chars b)) = ?d"
    using m by (metis (mono_tags, lifting) Least_equality dual_order.antisym)
  moreover have "(\<exists>n \<le> cap. (edit ^^ n) (utf8_chars a) (utf8_chars b)) \<longleftrightarrow> ?d \<le> cap"
    by (rule edit_distance_least)
  ultimately show ?thesis by (simp add: levenshtein_def levenshtein_on_correct)
qed

text \<open>A suggestion for a misspelt label is a known label within two edits, no known label is
  nearer, and the registry declines exactly when the spelling is malformed, known, or more than
  two edits from every known label.\<close>

theorem suggestion_is_nearest:
  "(suggest r label = Some c \<longrightarrow> registry_known r c \<and> label_distance label c \<le> 2
      \<and> (\<forall>k. registry_known r k \<longrightarrow> label_distance label c \<le> label_distance label k))
   \<and> (suggest r label = None \<longleftrightarrow> \<not> label_valid label \<or> registry_known r label
      \<or> (\<forall>k. registry_known r k \<longrightarrow> 2 < label_distance label k))"
  using spelling.search_Some[of label "known_labels r" 3 c]
    spelling.search_None[of label "known_labels r" 3]
  by (auto simp: suggest_def registry_known_def SUGGESTION_DISTANCE_CAP_def Suc_le_eq numeral_3_eq_3
      numeral_2_eq_2)

theorem suggestion_is_nearest_witness:
  "suggest (registry_new 1 [''io.net'', ''nondet.time''] [] []) ''nondt.time'' = Some ''nondet.time''
   \<and> label_distance ''nondt.time'' ''nondet.time'' \<le> 2"
proof -
  have "suggest (registry_new 1 [''io.net'', ''nondet.time''] [] []) ''nondt.time'' = Some ''nondet.time''"
    by code_simp
  then show ?thesis
    using suggestion_is_nearest[of "registry_new 1 [''io.net'', ''nondet.time''] [] []"
        "''nondt.time''" "''nondet.time''"] by simp
qed

text \<open>C40: A catalogue loads exactly when its data is in order: every label well formed, every
  posture and mutator set it names declared, every narrowing handler known and every row
  justified; any other document is refused with an error.\<close>

theorem catalog_loads_iff:
  assumes "raw_maps_distinct raw"
  shows "(\<exists>cat. catalog_build ms raw dg = Inr cat) \<longleftrightarrow> raw_catalog_ok raw"
  by (rule catalog_build_success[OF assms])

definition sample_row :: RawRow where
  "sample_row = \<lparr> raw_effects = Some [''io.fs''], raw_narrow = Some ''file_open'',
     raw_mutates = None, raw_row_why = Some ''opens a file'' \<rparr>"

definition sample_class :: RawClass where
  "sample_class = \<lparr> raw_posture = Some ''value'', raw_singleton_posture = Some ''world'',
     raw_kind = None, raw_mutators = Some ''array'', raw_why = None,
     raw_methods = Some [(''open'', Some sample_row)], raw_singleton_methods = None \<rparr>"

definition sample_catalog :: RawCatalog where
  "sample_catalog = \<lparr> raw_schema = 1, raw_vocabulary = Some 1,
     raw_defaults = [(''value'', None), (''world'', Some [''nondet'', ''io''])],
     raw_universal = [''hash''], raw_classes = [(''File'', Some sample_class)] \<rparr>"

definition sample_mutators :: Mutators where
  "sample_mutators = \<lparr> mutators_schema = 1, mutator_sets = [(''array'', [''pop'', ''push''])] \<rparr>"

theorem catalog_loads_iff_witness:
  "(\<exists>cat. catalog_build sample_mutators sample_catalog [] = Inr cat)
   \<and> \<not> (\<exists>cat. catalog_build sample_mutators
        (sample_catalog \<lparr> raw_classes := [(''File'', Some (sample_class \<lparr> raw_mutators := Some ''set'' \<rparr>))] \<rparr>)
        [] = Inr cat)"
proof -
  have "raw_maps_distinct sample_catalog" "raw_catalog_ok sample_catalog"
    "raw_maps_distinct (sample_catalog \<lparr> raw_classes :=
      [(''File'', Some (sample_class \<lparr> raw_mutators := Some ''set'' \<rparr>))] \<rparr>)"
    "\<not> raw_catalog_ok (sample_catalog \<lparr> raw_classes :=
      [(''File'', Some (sample_class \<lparr> raw_mutators := Some ''set'' \<rparr>))] \<rparr>)"
    by code_simp+
  then show ?thesis using catalog_loads_iff by blast
qed

text \<open>C20: A lookup in a loaded catalogue answers what the data file spells for the call: the
  class's own row first, then the universal list, then, if asked for, the posture of the side the
  call is on; a class the data does not list has no answer. A row or instance posture mutates the
  receiver exactly when the row says so or the selector is in the class's mutator set.\<close>

theorem catalog_answers_data:
  assumes cat: "catalog_build ms raw dg = Inr cat" and dist: "raw_maps_distinct raw"
  shows "map_option entry_answer (lookup_with cat owner selector singleton posture)
    = data_answer ms raw owner selector singleton posture"
proof (cases "map_of (raw_classes raw) owner")
  case None
  then show ?thesis using catalog_classes(1)[OF cat dist None]
    by (simp add: lookup_with_def resolve_def data_answer_def)
next
  case (Some body)
  let ?b = "unwrap_or raw_class_empty body"
  obtain c where c: "map_of (classes cat) owner = Some c"
    and bc: "build_class ms owner ?b (postures cat) = Inr c"
    using catalog_classes(2)[OF cat dist Some] by blast
  have D: "res_map_entries (\<lambda>name ls. label_set (''defaults.'' @ name) ls) (raw_defaults raw)
      = Inr (postures cat)" and univ: "universal cat = btree_of (raw_universal raw)"
    using cat by (auto elim: catalog_buildE)
  have dd: "distinct (map fst (raw_defaults raw))" using dist by (simp add: raw_maps_distinct_def)
  from bc show ?thesis
  proof (rule build_classE)
    assume p: "resolve_posture owner (raw_posture ?b) (postures cat) = Inr (posture_labels c)"
      and sp: "resolve_posture owner (case raw_singleton_posture ?b of Some p \<Rightarrow> Some p
          | None \<Rightarrow> raw_posture ?b) (postures cat) = Inr (singleton_posture_labels c)"
      and im: "build_rows owner ''#'' (raw_methods ?b) (mutator_selectors c) = Inr (instance_methods c)"
      and sm: "build_rows owner ''.'' (raw_singleton_methods ?b) [] = Inr (singleton_methods c)"
      and fields: "mutator_selectors c = mutators_set ms (raw_mutators ?b)"
        "posture_entry c =
          \<lparr> entry_labels = posture_labels c, mutates_receiver = False, from_posture = True \<rparr>"
        "mutating_posture_entry c =
          \<lparr> entry_labels = posture_labels c, mutates_receiver = True, from_posture = True \<rparr>"
        "singleton_posture_entry c =
          \<lparr> entry_labels = singleton_posture_labels c, mutates_receiver = False, from_posture = True \<rparr>"
    note rows = build_rows_lookup[OF im class_maps_distinct(1)[OF dist Some], of selector]
      build_rows_lookup[OF sm class_maps_distinct(2)[OF dist Some], of selector]
    note labels = resolve_posture_data(1)[OF D dd p] resolve_posture_data(1)[OF D dd sp]
    show ?thesis
      by (auto simp: lookup_with_def resolve_def data_answer_def data_posture_def entry_answer_def
          UNIVERSAL_ENTRY_def in_mutator_set_def Some c univ rows fields labels Let_def
          split: option.splits)
  qed
qed

theorem catalog_answers_data_witness:
  "\<exists>cat. catalog_build sample_mutators sample_catalog [] = Inr cat
   \<and> map_option entry_answer (lookup_with cat ''File'' ''push'' False True) = Some ({}, True, True)
   \<and> map_option entry_answer (lookup_with cat ''File'' ''hash'' False True) = Some ({}, False, False)
   \<and> map_option entry_answer (lookup_with cat ''File'' ''open'' False True) = Some ({''io.fs''}, False, False)
   \<and> map_option entry_answer (lookup_with cat ''File'' ''open'' True True) = Some ({''nondet'', ''io''}, False, True)"
proof -
  have ok: "raw_maps_distinct sample_catalog" "raw_catalog_ok sample_catalog" by code_simp+
  then obtain cat where cat: "catalog_build sample_mutators sample_catalog [] = Inr cat"
    using catalog_build_success by blast
  note answer = catalog_answers_data[OF cat ok(1)]
  have "map_option entry_answer (lookup_with cat ''File'' ''push'' False True) = Some ({}, True, True)"
    "map_option entry_answer (lookup_with cat ''File'' ''hash'' False True) = Some ({}, False, False)"
    "map_option entry_answer (lookup_with cat ''File'' ''open'' False True) = Some ({''io.fs''}, False, False)"
    "map_option entry_answer (lookup_with cat ''File'' ''open'' True True) = Some ({''nondet'', ''io''}, False, True)"
    unfolding answer by (simp_all add: data_answer_def sample_catalog_def sample_class_def
      sample_row_def sample_mutators_def mutators_set_def data_posture_def unwrap_or_def)
  with cat show ?thesis by blast
qed

text \<open>A loaded catalogue is well formed: its classes are in key order, every row carries
  sorted, distinct, well-formed labels, a justification and a known handler, every posture entry
  is marked as one, and only the mutating instance entry mutates; the object constants are
  exactly the classes of that kind.\<close>

theorem catalog_well_formed:
  assumes "catalog_build ms raw dg = Inr cat" and "raw_maps_distinct raw"
  shows "key_sorted (classes cat) \<and> list_all class_normal (map snd (classes cat))
    \<and> (object_constant cat name \<longleftrightarrow> (\<exists>c. map_of (classes cat) name = Some c \<and> object_kind c))"
proof -
  have C: "res_map_entries (\<lambda>name body. build_class ms name (unwrap_or raw_class_empty body)
      (postures cat)) (raw_classes raw) = Inr (classes cat)"
    and O: "object_constants cat = map fst (filter (\<lambda>(_, e). object_kind e) (classes cat))"
    using assms(1) by (auto elim: catalog_buildE)
  have sorted: "key_sorted (classes cat)"
    using res_map_entries_Inr(1)[OF C] assms(2) by (simp add: raw_maps_distinct_def)
  have "list_all class_normal (map snd (classes cat))"
    by (rule entries_all[OF sorted]) (rule class_normalI[OF assms])
  moreover have "object_constant cat name \<longleftrightarrow> (\<exists>c. map_of (classes cat) name = Some c \<and> object_kind c)"
    using key_sorted_distinct[OF sorted] by (force simp: object_constant_def O)
  ultimately show ?thesis using sorted by blast
qed

theorem catalog_well_formed_witness:
  "\<exists>cat. catalog_build sample_mutators sample_catalog [] = Inr cat
    \<and> list_all class_normal (map snd (classes cat)) \<and> \<not> object_constant cat ''Random''"
proof -
  have ok: "raw_maps_distinct sample_catalog" "raw_catalog_ok sample_catalog" by code_simp+
  then obtain cat where cat: "catalog_build sample_mutators sample_catalog [] = Inr cat"
    using catalog_build_success by blast
  have "map_of (raw_classes sample_catalog) ''Random'' = None" by (simp add: sample_catalog_def)
  then have "map_of (classes cat) ''Random'' = None" by (rule catalog_classes(1)[OF cat ok(1)])
  then show ?thesis using cat catalog_well_formed[OF cat ok(1), of "''Random''"] by auto
qed

text \<open>The digest of any input is 64 lower-case hexadecimal digits; the padded message is a
  whole number of blocks, consumed to its last byte, and determines the message for inputs below
  the 2 to the 61 bytes whose bit length the trailer can hold.\<close>

theorem digest_shape:
  assumes "length a < 2 ^ 61" and "length b < 2 ^ 61"
  shows "length (sha256_hex a) = 64 \<and> set (sha256_hex a) \<subseteq> set ''0123456789abcdef''
    \<and> length (sha_pad a) mod 64 = 0
    \<and> sha_blocks (sha_pad a @ s) h = sha_blocks s (sha_blocks (sha_pad a) h)
    \<and> (sha_pad a = sha_pad b \<longleftrightarrow> a = b)"
proof -
  have blocks: "length (sha_pad a) mod 64 = 0" using sha_pad_form[of a] by blast
  have eight: "length (sha_blocks (sha_pad a) sha_init) = 8" by (simp add: sha_init_def)
  have "length (concat (map hex_word ws)) = 8 * length ws" for ws by (induction ws) simp_all
  with eight have "length (sha256_hex a) = 64" by (simp add: sha256_hex_def)
  moreover have "set (sha256_hex a) \<subseteq> set ''0123456789abcdef''"
    unfolding sha256_hex_def set_concat set_map using hex_word_digits by blast
  ultimately show ?thesis
    using blocks sha_blocks_append[OF blocks] sha_pad_inj[OF assms] by blast
qed

theorem digest_shape_witness: "length (sha256_hex [1, 2]) = 64 \<and> sha_pad [1, 2] \<noteq> sha_pad [1]"
  using digest_shape[of "[1, 2]" "[1]" "[]" "[]"] by simp

end
