(* ===== verification/Suppression.thy ===== *)
theory Suppression
  imports Collections Ruby_Text
begin

text \<open>
  In-source suppression (\<open>rigor-rules/src/suppression.rs\<close>) and the diagnostics it filters
  (\<open>diagnostic.rs\<close>): the vocabulary of rule tokens, the expansion of a token into a set, the
  directive scanner and the filter. A hash set is a \<open>set\<close>, a hash map a partial function; a
  comment is its line, its offset and its text, as the parser's \<open>comment_lines\<close> delivers it.
\<close>

section \<open>Diagnostics\<close>

datatype Severity = Error | Warning | Info

fun severity_as_str :: "Severity \<Rightarrow> string" where
  "severity_as_str Error = ''error''"
| "severity_as_str Warning = ''warning''"
| "severity_as_str Info = ''info''"

record Diagnostic =
  rule_id :: string
  start_offset :: nat
  end_offset :: nat
  diag_message :: string
  diag_severity :: Severity
  source_family :: string
  receiver_type :: "string option"
  method_name :: "string option"

definition NO_RULE :: string where
  "NO_RULE = []"

definition qualified_rule :: "Diagnostic \<Rightarrow> string option" where
  "qualified_rule d = (if rule_id d \<noteq> NO_RULE then Some (rule_id d) else None)"

section \<open>Rule tokens\<close>

definition CALL_UNDEFINED_METHOD :: string where
  "CALL_UNDEFINED_METHOD = ''call.undefined-method''"

definition CALL_WRONG_ARITY :: string where
  "CALL_WRONG_ARITY = ''call.wrong-arity''"

definition CALL_ARGUMENT_TYPE_MISMATCH :: string where
  "CALL_ARGUMENT_TYPE_MISMATCH = ''call.argument-type-mismatch''"

definition CALL_POSSIBLE_NIL_RECEIVER :: string where
  "CALL_POSSIBLE_NIL_RECEIVER = ''call.possible-nil-receiver''"

definition CALL_UNRESOLVED_TOPLEVEL :: string where
  "CALL_UNRESOLVED_TOPLEVEL = ''call.unresolved-toplevel''"

definition FLOW_DEAD_ASSIGNMENT :: string where
  "FLOW_DEAD_ASSIGNMENT = ''flow.dead-assignment''"

definition DEF_OVERRIDE_VISIBILITY_REDUCED :: string where
  "DEF_OVERRIDE_VISIBILITY_REDUCED = ''def.override-visibility-reduced''"

definition FLOW_ALWAYS_RAISES :: string where
  "FLOW_ALWAYS_RAISES = ''flow.always-raises''"

definition FLOW_UNREACHABLE_BRANCH :: string where
  "FLOW_UNREACHABLE_BRANCH = ''flow.unreachable-branch''"

definition FLOW_ALWAYS_TRUTHY_CONDITION :: string where
  "FLOW_ALWAYS_TRUTHY_CONDITION = ''flow.always-truthy-condition''"

definition FLOW_DUPLICATE_HASH_KEY :: string where
  "FLOW_DUPLICATE_HASH_KEY = ''flow.duplicate-hash-key''"

definition FLOW_RETURN_IN_ENSURE :: string where
  "FLOW_RETURN_IN_ENSURE = ''flow.return-in-ensure''"

definition CALL_RAISE_NON_EXCEPTION :: string where
  "CALL_RAISE_NON_EXCEPTION = ''call.raise-non-exception''"

definition FLOW_SHADOWED_RESCUE_CLAUSE :: string where
  "FLOW_SHADOWED_RESCUE_CLAUSE = ''flow.shadowed-rescue-clause''"

definition SUPPRESSION_UNKNOWN_RULE :: string where
  "SUPPRESSION_UNKNOWN_RULE = ''suppression.unknown-rule''"

definition SUPPRESSION_EMPTY :: string where
  "SUPPRESSION_EMPTY = ''suppression.empty''"

definition SUPPRESSION_UNKNOWN_MARKER :: string where
  "SUPPRESSION_UNKNOWN_MARKER = ''suppression.unknown-marker''"

definition DEF_IVAR_WRITE_MISMATCH :: string where
  "DEF_IVAR_WRITE_MISMATCH = ''def.ivar-write-mismatch''"

definition STATIC_VALUE_USE_VOID :: string where
  "STATIC_VALUE_USE_VOID = ''static.value-use.void''"

definition INTERNAL_ERROR_RULE :: string where
  "INTERNAL_ERROR_RULE = ''internal-error''"

definition RULE_FAMILIES :: "string list" where
  "RULE_FAMILIES =
    [''call'', ''flow'', ''assert'', ''dump'', ''def'', ''global'', ''suppression'',
     ''static'', ''effect'']"

definition IMPLEMENTED_RULES :: "string list" where
  "IMPLEMENTED_RULES =
    [CALL_UNDEFINED_METHOD, CALL_WRONG_ARITY, CALL_ARGUMENT_TYPE_MISMATCH,
     CALL_POSSIBLE_NIL_RECEIVER, CALL_UNRESOLVED_TOPLEVEL, FLOW_DEAD_ASSIGNMENT,
     DEF_OVERRIDE_VISIBILITY_REDUCED, FLOW_ALWAYS_RAISES, FLOW_UNREACHABLE_BRANCH,
     FLOW_ALWAYS_TRUTHY_CONDITION, FLOW_DUPLICATE_HASH_KEY, FLOW_RETURN_IN_ENSURE,
     CALL_RAISE_NON_EXCEPTION, FLOW_SHADOWED_RESCUE_CLAUSE, SUPPRESSION_UNKNOWN_RULE,
     SUPPRESSION_EMPTY, SUPPRESSION_UNKNOWN_MARKER, DEF_IVAR_WRITE_MISMATCH,
     STATIC_VALUE_USE_VOID]"

definition ALL_CANONICAL_RULES :: "string list" where
  "ALL_CANONICAL_RULES =
    [''call.undefined-method'', ''call.self-undefined-method'',
     ''call.unresolved-toplevel'', ''call.wrong-arity'', ''call.argument-type-mismatch'',
     ''call.possible-nil-receiver'', ''call.raise-non-exception'', ''dump.type'',
     ''assert.type-mismatch'', ''flow.always-raises'', ''flow.unreachable-branch'',
     ''def.return-type-mismatch'', ''def.method-visibility-mismatch'',
     ''def.override-visibility-reduced'', ''def.override-return-widened'',
     ''def.override-param-narrowed'', ''def.ivar-write-mismatch'', ''flow.dead-assignment'',
     ''flow.always-truthy-condition'', ''flow.unreachable-clause'',
     ''flow.duplicate-hash-key'', ''flow.return-in-ensure'',
     ''flow.shadowed-rescue-clause'', ''suppression.unknown-rule'', ''suppression.empty'',
     ''suppression.unknown-marker'', ''static.value-use.void'',
     ''effect.envelope-exceeded'', ''effect.liskov-widened'', ''effect.unknown-label'',
     ''effect.annotations-unchecked'', ''rbs.contradicting-signature'',
     ''global.write-type-mismatch'', ''global.readonly-write'',
     ''call.deprecated-ruby2-keywords'']"

definition PRE_EVAL_RULES :: "string list" where
  "PRE_EVAL_RULES =
    [''pre-eval.parse-error'', ''pre-eval.file-not-found'',
     ''pre-eval.duplicate-declaration'']"

definition NON_CHECK_DIAGNOSTIC_FAMILIES :: "string list" where
  "NON_CHECK_DIAGNOSTIC_FAMILIES =
    [''rbs_extended'', ''dynamic'', ''rbs'', ''pre-eval'', ''plugin'', ''plugin_trust'']"

definition NON_CHECK_DIAGNOSTIC_IDS :: "string list" where
  "NON_CHECK_DIAGNOSTIC_IDS =
    [''configuration-error'', ''load-error'', ''pool-degraded'', ''runtime-error'',
     ''source-rbs-synthesis-failed'', ''source-rbs-annotation-not-honoured'']"

text \<open>The arms of the \<open>match\<close>, in order.\<close>

definition LEGACY_ARMS :: "(string \<times> string) list" where
  "LEGACY_ARMS =
    [(''undefined-method'', CALL_UNDEFINED_METHOD),
     (''self-undefined-method'', ''call.self-undefined-method''),
     (''wrong-arity'', CALL_WRONG_ARITY),
     (''argument-type-mismatch'', ''call.argument-type-mismatch''),
     (''possible-nil-receiver'', CALL_POSSIBLE_NIL_RECEIVER),
     (''dump-type'', ''dump.type''),
     (''assert-type'', ''assert.type-mismatch''),
     (''always-raises'', ''flow.always-raises''),
     (''unreachable-branch'', ''flow.unreachable-branch''),
     (''method-visibility-mismatch'', ''def.method-visibility-mismatch''),
     (''ivar-write-mismatch'', ''def.ivar-write-mismatch''),
     (''dead-assignment'', ''flow.dead-assignment''),
     (''always-truthy-condition'', ''flow.always-truthy-condition''),
     (''unreachable-clause'', ''flow.unreachable-clause''),
     (''raise-non-exception'', ''call.raise-non-exception''),
     (''duplicate-hash-key'', FLOW_DUPLICATE_HASH_KEY),
     (''return-in-ensure'', FLOW_RETURN_IN_ENSURE),
     (''shadowed-rescue-clause'', ''flow.shadowed-rescue-clause'')]"

definition legacy_alias :: "string \<Rightarrow> string option" where
  "legacy_alias token = map_of LEGACY_ARMS token"

text \<open>\<open>split('.').next()\<close>: the text before the first dot.\<close>

definition first_segment :: "string \<Rightarrow> string" where
  "first_segment token = hd (split_on CHR ''.'' token)"

definition is_inert_builtin_token :: "string \<Rightarrow> bool" where
  "is_inert_builtin_token token =
     (let fam = first_segment token in
      if fam \<notin> set RULE_FAMILIES then False
      else if token = fam then False
      else token \<notin> set ALL_CANONICAL_RULES)"

definition config_disables_pre_eval :: "string list \<Rightarrow> string \<Rightarrow> bool" where
  "config_disables_pre_eval disable rule =
     list_ex (\<lambda>token. token = ''all'' \<or> token = rule
       \<or> (token = ''pre-eval'' \<and> rule \<in> set PRE_EVAL_RULES)) disable"

definition config_disables_plugin_row :: "string list \<Rightarrow> string \<Rightarrow> string \<Rightarrow> bool" where
  "config_disables_plugin_row disable src_family rid =
     (starts_with ''plugin.'' src_family
      \<and> list_ex (\<lambda>token. token = src_family \<or> token = rid) disable)"

definition is_effective_disable_token :: "string \<Rightarrow> bool" where
  "is_effective_disable_token token =
     (token = ''all'' \<or> token = ''pre-eval'' \<or> legacy_alias token \<noteq> None
      \<or> token \<in> set RULE_FAMILIES \<or> token \<in> set ALL_CANONICAL_RULES)"

definition is_non_check_engine_token :: "string \<Rightarrow> bool" where
  "is_non_check_engine_token token =
     (token \<in> set NON_CHECK_DIAGNOSTIC_IDS
      \<or> first_segment token \<in> set NON_CHECK_DIAGNOSTIC_FAMILIES)"

definition known_suppression_token :: "string \<Rightarrow> bool" where
  "known_suppression_token token =
     (if token = ''all'' then True
      else if token \<in> set ALL_CANONICAL_RULES \<or> legacy_alias token \<noteq> None
        \<or> token \<in> set RULE_FAMILIES \<or> token \<in> set NON_CHECK_DIAGNOSTIC_IDS then True
      else CHR ''.'' \<in> set token \<and> first_segment token \<in> set NON_CHECK_DIAGNOSTIC_FAMILIES)"

section \<open>Suppression sets\<close>

record SuppressSet =
  suppress_all :: bool
  suppress_rules :: "string set"

definition suppress_empty :: SuppressSet where
  "suppress_empty = \<lparr> suppress_all = False, suppress_rules = {} \<rparr>"

definition absorb_token :: "string \<Rightarrow> SuppressSet \<Rightarrow> SuppressSet" where
  "absorb_token token s =
     (if token = ''all'' then s\<lparr> suppress_all := True \<rparr>
      else (case legacy_alias token of
          Some canonical \<Rightarrow> s\<lparr> suppress_rules := insert canonical (suppress_rules s) \<rparr>
        | None \<Rightarrow>
            if token \<in> set RULE_FAMILIES
            then fold (\<lambda>rule s. if starts_with (token @ ''.'') rule
                   then s\<lparr> suppress_rules := insert rule (suppress_rules s) \<rparr> else s)
                 IMPLEMENTED_RULES s
            else s\<lparr> suppress_rules := insert token (suppress_rules s) \<rparr>))"

definition from_tokens :: "string list \<Rightarrow> SuppressSet" where
  "from_tokens tokens = fold absorb_token tokens suppress_empty"

definition suppresses :: "SuppressSet \<Rightarrow> string \<Rightarrow> bool" where
  "suppresses s rule =
     (if rule = INTERNAL_ERROR_RULE then False else suppress_all s \<or> rule \<in> suppress_rules s)"

section \<open>Directives\<close>

type_synonym Comment = "nat \<times> nat \<times> string"

definition is_blank :: "char \<Rightarrow> bool" where
  "is_blank c \<longleftrightarrow> c = CHR '' '' \<or> c = CHR 0x09"

text \<open>The tail after the first \<open>#\<close>, as \<open>find\<close> and the slice produce it.\<close>

fun after_hash :: "string \<Rightarrow> string option" where
  "after_hash [] = None"
| "after_hash (c # s) = (if c = CHR ''#'' then Some s else after_hash s)"

definition match_directive :: "string \<Rightarrow> string \<Rightarrow> string option" where
  "match_directive text keyword =
     (case after_hash text of None \<Rightarrow> None
      | Some rest \<Rightarrow>
          (case strip_prefix keyword (dropWhile is_blank rest) of None \<Rightarrow> None
           | Some after_kw \<Rightarrow>
               let trimmed = dropWhile is_blank after_kw in
               if length trimmed = length after_kw then None else Some trimmed))"

fun split_any :: "(char \<Rightarrow> bool) \<Rightarrow> string \<Rightarrow> string list" where
  "split_any p [] = [[]]"
| "split_any p (x # xs) =
     (if p x then [] # split_any p xs
      else (case split_any p xs of [] \<Rightarrow> [[x]] | s # ss \<Rightarrow> (x # s) # ss))"

definition is_token_sep :: "char \<Rightarrow> bool" where
  "is_token_sep c \<longleftrightarrow> is_blank c \<or> c = CHR '',''"

definition tail_tokens :: "string \<Rightarrow> string list" where
  "tail_tokens tail = filter (\<lambda>t. t \<noteq> []) (split_any is_token_sep tail)"

definition absorb_tokens :: "string \<Rightarrow> SuppressSet \<Rightarrow> SuppressSet" where
  "absorb_tokens tail target = fold absorb_token (tail_tokens tail) target"

fun parse_suppression_loop ::
  "Comment list \<Rightarrow> (nat \<rightharpoonup> SuppressSet) \<Rightarrow> SuppressSet \<Rightarrow> (nat \<rightharpoonup> SuppressSet) \<times> SuppressSet" where
  "parse_suppression_loop [] lines file = (lines, file)"
| "parse_suppression_loop ((line, offset, text) # cs) lines file =
     (case match_directive text ''rigor:disable-file'' of
        Some rules \<Rightarrow> parse_suppression_loop cs lines (absorb_tokens rules file)
      | None \<Rightarrow>
          (case match_directive text ''rigor:disable'' of
             Some rules \<Rightarrow>
               let entry = (case lines line of Some s \<Rightarrow> s | None \<Rightarrow> suppress_empty) in
               parse_suppression_loop cs (lines(line \<mapsto> absorb_tokens rules entry)) file
           | None \<Rightarrow> parse_suppression_loop cs lines file))"

definition parse_suppression_comments ::
  "Comment list \<Rightarrow> (nat \<rightharpoonup> SuppressSet) \<times> SuppressSet" where
  "parse_suppression_comments comments =
     parse_suppression_loop comments (\<lambda>_. None) suppress_empty"

definition filter_suppressed ::
  "(nat \<times> Diagnostic) list \<Rightarrow> Comment list \<Rightarrow> (nat \<times> Diagnostic) list" where
  "filter_suppressed diagnostics comments =
     (let (lines, file) = parse_suppression_comments comments in
      filter (\<lambda>(line, diag).
          if rule_id diag = INTERNAL_ERROR_RULE then True
          else if suppresses file (rule_id diag) then False
          else (case lines line of Some s \<Rightarrow> \<not> suppresses s (rule_id diag) | None \<Rightarrow> True))
        diagnostics)"

end
