(* ===== verification/Suppression_Markers.thy ===== *)
theory Suppression_Markers
  imports Suppression
begin

text \<open>
  The \<open>suppression.*\<close> rules (\<open>rigor-rules/src/suppression_markers.rs\<close>): what the surveillance
  of the markers themselves reports for each comment. An iterator of string slices is the list
  of its items; the scanners work on bytes, as the code does, since every character they compare
  with is ASCII.
\<close>

definition is_word_or_hyphen_byte :: "char \<Rightarrow> bool" where
  "is_word_or_hyphen_byte b \<longleftrightarrow> is_ascii_alphanumeric b \<or> b = CHR ''_'' \<or> b = CHR ''-''"

definition starts_word_or_hyphen :: "string \<Rightarrow> bool" where
  "starts_word_or_hyphen s = (case s of b # _ \<Rightarrow> is_word_or_hyphen_byte b | [] \<Rightarrow> False)"

definition word_or_hyphen_run_len :: "string \<Rightarrow> nat" where
  "word_or_hyphen_run_len s = length (takeWhile is_word_or_hyphen_byte s)"

definition is_suppression_ws_or_comma :: "char \<Rightarrow> bool" where
  "is_suppression_ws_or_comma c \<longleftrightarrow>
     c \<in> {CHR '' '', CHR 0x09, CHR 0x0D, CHR 0x0A, CHR 0x0C, CHR 0x0B, CHR '',''}"

definition match_bare_disable :: "string \<Rightarrow> (bool \<times> string) option" where
  "match_bare_disable after_disable =
     (case (case strip_prefix ''-file'' after_disable of
              Some after_file \<Rightarrow> if \<not> starts_word_or_hyphen after_file then Some after_file else None
            | None \<Rightarrow> None) of
        Some after_file \<Rightarrow> Some (True, after_file)
      | None \<Rightarrow> if \<not> starts_word_or_hyphen after_disable then Some (False, after_disable) else None)"

definition split_at_len :: "nat \<Rightarrow> string \<Rightarrow> string \<times> string" where
  "split_at_len n s = (take n s, drop n s)"

definition parse_unknown_marker :: "string \<Rightarrow> (string \<times> string) option" where
  "parse_unknown_marker after_rigor =
     (case strip_prefix ''disable-'' after_rigor of
        Some rem \<Rightarrow>
          if (case strip_prefix ''file'' rem of
                Some after_file \<Rightarrow> \<not> starts_word_or_hyphen after_file | None \<Rightarrow> False) then None
          else
            let suffix = word_or_hyphen_run_len rem in
            if suffix = 0 then None
            else Some (split_at_len (length ''disable-'' + suffix) after_rigor)
      | None \<Rightarrow>
          (case strip_prefix ''enable'' after_rigor of
             Some rem \<Rightarrow>
               (case strip_prefix ''-'' rem of
                  Some after_dash \<Rightarrow>
                    let suffix = word_or_hyphen_run_len after_dash in
                    if suffix = 0 then None
                    else Some (split_at_len (length ''enable'' + 1 + suffix) after_rigor)
                | None \<Rightarrow>
                    if starts_word_or_hyphen rem then None
                    else Some (split_at_len (length ''enable'') after_rigor))
           | None \<Rightarrow> None))"

definition is_rule_list_shaped :: "string \<Rightarrow> bool" where
  "is_rule_list_shaped rest =
     (case rest of [] \<Rightarrow> False
      | c # cs \<Rightarrow>
          if \<not> is_suppression_ws_or_comma c then False
          else if list_all (\<lambda>c. is_ascii_alphanumeric c \<or> c \<in> {CHR ''_'', CHR ''.'', CHR '','', CHR ''-''}
                 \<or> is_suppression_ws_or_comma c) cs
          then 1 + length cs \<ge> 2 else False)"

fun rigor_marker_tails :: "string \<Rightarrow> string list" where
  "rigor_marker_tails [] = []"
| "rigor_marker_tails (c # s) =
     (if c \<noteq> CHR ''#'' then rigor_marker_tails s
      else (case strip_prefix ''rigor:'' (dropWhile is_blank s) of
              Some tail \<Rightarrow> tail # rigor_marker_tails s
            | None \<Rightarrow> rigor_marker_tails s))"

section \<open>The reports\<close>

definition em_dash :: string where
  "em_dash = [CHR 0xE2, CHR 0x80, CHR 0x94]"

definition marker_diagnostic :: "string \<Rightarrow> nat \<Rightarrow> string \<Rightarrow> Diagnostic" where
  "marker_diagnostic rule offset msg =
     \<lparr> rule_id = rule, start_offset = offset, end_offset = offset, diag_message = msg,
       diag_severity = Warning, source_family = ''builtin'', receiver_type = None,
       method_name = None \<rparr>"

definition unknown_suppression_rule_diagnostic :: "string \<Rightarrow> string \<Rightarrow> nat \<Rightarrow> Diagnostic" where
  "unknown_suppression_rule_diagnostic marker token offset =
     marker_diagnostic SUPPRESSION_UNKNOWN_RULE offset
       (''unknown rule `'' @ token @ ''` in `# '' @ marker @ ''` '' @ em_dash
        @ '' the token matches no known rule, alias, or family, so this suppression has no effect.''
        @ '' Likely a typo; `rigor explain <rule>` lists the canonical ids.'')"

definition unknown_suppression_marker_diagnostic :: "string \<Rightarrow> nat \<Rightarrow> Diagnostic" where
  "unknown_suppression_marker_diagnostic marker offset =
     marker_diagnostic SUPPRESSION_UNKNOWN_MARKER offset
       (''unrecognised suppression marker `rigor:'' @ marker @ ''` '' @ em_dash @ '' Rigor''
        @ [CHR 0x27] @ ''s markers are `# rigor:disable <rules>` (suppresses on its own line) and ''
        @ ''`# rigor:disable-file <rules>`, so this comment suppresses nothing.'')"

definition empty_suppression_diagnostic :: "string \<Rightarrow> nat \<Rightarrow> Diagnostic" where
  "empty_suppression_diagnostic marker offset =
     marker_diagnostic SUPPRESSION_EMPTY offset
       (''`# '' @ marker @ ''` lists no rules, so this suppression has no effect. Name the rules ''
        @ ''to suppress (`# '' @ marker @ '' call.undefined-method`) or use `# '' @ marker @ '' all`.'')"

definition validate_suppression_tokens :: "string \<Rightarrow> string \<Rightarrow> nat \<Rightarrow> Diagnostic list" where
  "validate_suppression_tokens raw marker offset =
     (let tokens = tail_tokens raw in
      if tokens = [] then [empty_suppression_diagnostic marker offset]
      else map (\<lambda>token. unknown_suppression_rule_diagnostic marker token offset)
             (filter (\<lambda>token. \<not> known_suppression_token token) tokens))"

text \<open>The first pass; \<open>None\<close> is falling through to the second, \<open>Some\<close> the early \<open>return\<close>.\<close>

fun bare_pass :: "nat \<Rightarrow> string list \<Rightarrow> Diagnostic list option" where
  "bare_pass offset [] = None"
| "bare_pass offset (after_rigor # ts) =
     (case strip_prefix ''disable'' after_rigor of None \<Rightarrow> bare_pass offset ts
      | Some after_disable \<Rightarrow>
          (case match_bare_disable after_disable of None \<Rightarrow> bare_pass offset ts
           | Some (is_file, rest) \<Rightarrow>
               Some (if list_all is_suppression_ws_or_comma rest
                     then [empty_suppression_diagnostic
                             (if is_file then ''rigor:disable-file'' else ''rigor:disable'') offset]
                     else [])))"

fun unknown_pass :: "nat \<Rightarrow> string list \<Rightarrow> Diagnostic list" where
  "unknown_pass offset [] = []"
| "unknown_pass offset (after_rigor # ts) =
     (case parse_unknown_marker after_rigor of None \<Rightarrow> unknown_pass offset ts
      | Some (marker, rest) \<Rightarrow>
          if list_all is_suppression_ws_or_comma rest \<or> is_rule_list_shaped rest
          then [unknown_suppression_marker_diagnostic marker offset] else [])"

definition diagnose_bare_suppression_marker :: "string \<Rightarrow> nat \<Rightarrow> Diagnostic list" where
  "diagnose_bare_suppression_marker text offset =
     (case bare_pass offset (rigor_marker_tails text) of
        Some out \<Rightarrow> out
      | None \<Rightarrow> unknown_pass offset (rigor_marker_tails text))"

fun suppression_marker_diagnostics :: "Comment list \<Rightarrow> Diagnostic list" where
  "suppression_marker_diagnostics [] = []"
| "suppression_marker_diagnostics ((line, offset, text) # cs) =
     (case match_directive text ''rigor:disable-file'' of
        Some rules \<Rightarrow> validate_suppression_tokens rules ''rigor:disable-file'' offset
      | None \<Rightarrow>
          (case match_directive text ''rigor:disable'' of
             Some rules \<Rightarrow> validate_suppression_tokens rules ''rigor:disable'' offset
           | None \<Rightarrow> diagnose_bare_suppression_marker text offset))
     @ suppression_marker_diagnostics cs"

end
