(* ===== verification/Severity_Profile.thy ===== *)
theory Severity_Profile
  imports Collections
begin

text \<open>
  Severity profiles (\<open>rigor-cli/src/severity.rs\<close>): the three tables and the resolution of a
  rule's effective severity. The constructors of \<open>ResolvedSeverity\<close> carry the prefix \<open>R\<close>.
\<close>

datatype Profile = Lenient | Balanced | Strict

definition profile_from_str :: "string \<Rightarrow> Profile option" where
  "profile_from_str s =
     (if s = ''lenient'' then Some Lenient
      else if s = ''balanced'' then Some Balanced
      else if s = ''strict'' then Some Strict
      else None)"

fun profile_as_str :: "Profile \<Rightarrow> string" where
  "profile_as_str Lenient = ''lenient''"
| "profile_as_str Balanced = ''balanced''"
| "profile_as_str Strict = ''strict''"

datatype ResolvedSeverity = RError | RWarning | RInfo | ROff

definition severity_from_str :: "string \<Rightarrow> ResolvedSeverity option" where
  "severity_from_str s =
     (if s = ''error'' then Some RError
      else if s = ''warning'' then Some RWarning
      else if s = ''info'' then Some RInfo
      else if s = ''off'' then Some ROff
      else None)"

fun resolved_as_str :: "ResolvedSeverity \<Rightarrow> string" where
  "resolved_as_str RError = ''error''"
| "resolved_as_str RWarning = ''warning''"
| "resolved_as_str RInfo = ''info''"
| "resolved_as_str ROff = ''off''"

definition LENIENT :: "(string \<times> ResolvedSeverity) list" where
  "LENIENT =
    [(''assert.type-mismatch'', RError),
     (''call.argument-type-mismatch'', RWarning),
     (''call.possible-nil-receiver'', RWarning),
     (''call.raise-non-exception'', RWarning),
     (''call.self-undefined-method'', ROff),
     (''call.undefined-method'', RError),
     (''call.unresolved-toplevel'', ROff),
     (''call.wrong-arity'', RError),
     (''def.ivar-write-mismatch'', RWarning),
     (''def.method-visibility-mismatch'', RWarning),
     (''def.override-param-narrowed'', ROff),
     (''def.override-return-widened'', ROff),
     (''def.override-visibility-reduced'', ROff),
     (''def.return-type-mismatch'', RWarning),
     (''dump.type'', RInfo),
     (''flow.always-raises'', RWarning),
     (''flow.always-truthy-condition'', RInfo),
     (''flow.dead-assignment'', RInfo),
     (''flow.duplicate-hash-key'', RInfo),
     (''flow.return-in-ensure'', RInfo),
     (''flow.shadowed-rescue-clause'', RInfo),
     (''flow.unreachable-branch'', RInfo),
     (''flow.unreachable-clause'', RInfo),
     (''rbs_extended.unsatisfied-conformance'', RWarning),
     (''static.value-use.void'', ROff),
     (''suppression.empty'', RWarning),
     (''suppression.unknown-marker'', RWarning),
     (''suppression.unknown-rule'', RWarning)]"

definition BALANCED :: "(string \<times> ResolvedSeverity) list" where
  "BALANCED =
    [(''assert.type-mismatch'', RError),
     (''call.argument-type-mismatch'', RError),
     (''call.possible-nil-receiver'', RError),
     (''call.raise-non-exception'', RError),
     (''call.self-undefined-method'', ROff),
     (''call.undefined-method'', RError),
     (''call.unresolved-toplevel'', RWarning),
     (''call.wrong-arity'', RError),
     (''def.ivar-write-mismatch'', RWarning),
     (''def.method-visibility-mismatch'', RError),
     (''def.override-param-narrowed'', RWarning),
     (''def.override-return-widened'', RWarning),
     (''def.override-visibility-reduced'', RWarning),
     (''def.return-type-mismatch'', RWarning),
     (''dump.type'', RInfo),
     (''flow.always-raises'', RError),
     (''flow.always-truthy-condition'', RWarning),
     (''flow.dead-assignment'', RWarning),
     (''flow.duplicate-hash-key'', RWarning),
     (''flow.return-in-ensure'', RWarning),
     (''flow.shadowed-rescue-clause'', RWarning),
     (''flow.unreachable-branch'', RWarning),
     (''flow.unreachable-clause'', RInfo),
     (''rbs_extended.unsatisfied-conformance'', RWarning),
     (''static.value-use.void'', ROff),
     (''suppression.empty'', RWarning),
     (''suppression.unknown-marker'', RWarning),
     (''suppression.unknown-rule'', RWarning)]"

definition STRICT :: "(string \<times> ResolvedSeverity) list" where
  "STRICT =
    [(''assert.type-mismatch'', RError),
     (''call.argument-type-mismatch'', RError),
     (''call.possible-nil-receiver'', RError),
     (''call.raise-non-exception'', RError),
     (''call.self-undefined-method'', ROff),
     (''call.undefined-method'', RError),
     (''call.unresolved-toplevel'', RError),
     (''call.wrong-arity'', RError),
     (''def.ivar-write-mismatch'', RError),
     (''def.method-visibility-mismatch'', RError),
     (''def.override-param-narrowed'', RError),
     (''def.override-return-widened'', RError),
     (''def.override-visibility-reduced'', RError),
     (''def.return-type-mismatch'', RError),
     (''dump.type'', RError),
     (''flow.always-raises'', RError),
     (''flow.always-truthy-condition'', RError),
     (''flow.dead-assignment'', RError),
     (''flow.duplicate-hash-key'', RError),
     (''flow.return-in-ensure'', RError),
     (''flow.shadowed-rescue-clause'', RError),
     (''flow.unreachable-branch'', RError),
     (''flow.unreachable-clause'', RWarning),
     (''rbs_extended.unsatisfied-conformance'', RError),
     (''static.value-use.void'', ROff),
     (''suppression.empty'', RWarning),
     (''suppression.unknown-marker'', RWarning),
     (''suppression.unknown-rule'', RWarning)]"

fun profile_table :: "Profile \<Rightarrow> (string \<times> ResolvedSeverity) list" where
  "profile_table Lenient = LENIENT"
| "profile_table Balanced = BALANCED"
| "profile_table Strict = STRICT"

definition rule_family :: "string \<Rightarrow> string option" where
  "rule_family rule =
     (let s = hd (split_on CHR ''.'' rule) in if s \<noteq> [] then Some s else None)"

text \<open>\<open>iter().find(|(k, _)| k == ...)\<close> and its second component is the first entry with the
  key: \<open>map_of\<close>.\<close>

definition lookup_override ::
  "string \<Rightarrow> (string \<times> ResolvedSeverity) list \<Rightarrow> ResolvedSeverity option" where
  "lookup_override rule overrides =
     (case map_of overrides rule of
        Some sev \<Rightarrow> Some sev
      | None \<Rightarrow>
          (case rule_family rule of None \<Rightarrow> None | Some fam \<Rightarrow> map_of overrides fam))"

definition resolve_severity ::
  "string \<Rightarrow> ResolvedSeverity \<Rightarrow> Profile \<Rightarrow> (string \<times> ResolvedSeverity) list \<Rightarrow>
   (string \<times> ResolvedSeverity) list \<Rightarrow> ResolvedSeverity" where
  "resolve_severity rule authored profile overrides bleeding_edge_overrides =
     (case lookup_override rule overrides of
        Some sev \<Rightarrow> sev
      | None \<Rightarrow>
          (case map_of bleeding_edge_overrides rule of
             Some sev \<Rightarrow> sev
           | None \<Rightarrow>
               (case map_of (profile_table profile) rule of
                  Some sev \<Rightarrow> sev
                | None \<Rightarrow> authored)))"

end
