(* ===== verification/Reporting_Properties.thy ===== *)
theory Reporting_Properties
  imports Suppression_Markers Severity_Profile
begin

text \<open>
  The properties of the reporting stage: which diagnostics the in-source directives drop, what
  the surveillance of the markers reports, and how a severity is resolved.
\<close>

section \<open>Tokens and sets\<close>

text \<open>What one token of a directive or of a \<open>disable:\<close> list drops.\<close>

definition covers :: "string \<Rightarrow> string \<Rightarrow> bool" where
  "covers token rule =
     (token = ''all'' \<or> (case legacy_alias token of
        Some canonical \<Rightarrow> rule = canonical
      | None \<Rightarrow> if token \<in> set RULE_FAMILIES
          then rule \<in> set IMPLEMENTED_RULES \<and> starts_with (token @ ''.'') rule else rule = token))"

lemma fold_prefix_rules:
  "fold (\<lambda>rule s. if P rule then s\<lparr> suppress_rules := insert rule (suppress_rules s) \<rparr> else s) rs s
     = s\<lparr> suppress_rules := suppress_rules s \<union> set (filter P rs) \<rparr>"
  by (induction rs arbitrary: s) auto

lemma suppresses_absorb:
  "suppresses (absorb_token token s) rule \<longleftrightarrow>
     suppresses s rule \<or> (rule \<noteq> INTERNAL_ERROR_RULE \<and> covers token rule)"
  unfolding absorb_token_def covers_def suppresses_def fold_prefix_rules
  by (cases "token = ''all''"; cases "legacy_alias token") (simp_all add: disj_ac)

lemma suppresses_tokens:
  "suppresses (fold absorb_token tokens s) rule \<longleftrightarrow>
     suppresses s rule \<or> (rule \<noteq> INTERNAL_ERROR_RULE \<and> (\<exists>t \<in> set tokens. covers t rule))"
  by (induction tokens arbitrary: s) (auto simp: suppresses_absorb)

lemma suppresses_empty [simp]: "\<not> suppresses suppress_empty rule"
  by (simp add: suppresses_def suppress_empty_def)

section \<open>Directives\<close>

definition file_directive :: "string \<Rightarrow> string option" where
  "file_directive text = match_directive text ''rigor:disable-file''"

definition line_directive :: "string \<Rightarrow> string option" where
  "line_directive text =
     (case file_directive text of Some _ \<Rightarrow> None | None \<Rightarrow> match_directive text ''rigor:disable'')"

definition tail_covers :: "string option \<Rightarrow> string \<Rightarrow> bool" where
  "tail_covers tail rule =
     (case tail of None \<Rightarrow> False | Some raw \<Rightarrow> \<exists>t \<in> set (tail_tokens raw). covers t rule)"

text \<open>A diagnostic is silenced when some comment of the file, or of its own line, names it.\<close>

definition silenced :: "Comment list \<Rightarrow> nat \<Rightarrow> string \<Rightarrow> bool" where
  "silenced comments line rule =
     (rule \<noteq> INTERNAL_ERROR_RULE \<and> (\<exists>(l, _, text) \<in> set comments.
        tail_covers (file_directive text) rule \<or> (l = line \<and> tail_covers (line_directive text) rule)))"

lemma suppresses_absorb_tail:
  "suppresses (absorb_tokens tail s) rule \<longleftrightarrow>
     suppresses s rule \<or> (rule \<noteq> INTERNAL_ERROR_RULE \<and> tail_covers (Some tail) rule)"
  by (simp add: absorb_tokens_def suppresses_tokens tail_covers_def)

definition line_suppresses :: "(nat \<rightharpoonup> SuppressSet) \<Rightarrow> nat \<Rightarrow> string \<Rightarrow> bool" where
  "line_suppresses lines line rule =
     (case lines line of Some s \<Rightarrow> suppresses s rule | None \<Rightarrow> False)"

lemma silenced_Cons:
  "silenced ((l, pos, comment) # cs) line rule \<longleftrightarrow>
     (rule \<noteq> INTERNAL_ERROR_RULE \<and> (tail_covers (file_directive comment) rule
       \<or> (l = line \<and> tail_covers (line_directive comment) rule))) \<or> silenced cs line rule"
  by (auto simp: silenced_def)

lemma tail_covers_None [simp]: "\<not> tail_covers None rule"
  by (simp add: tail_covers_def)

lemma parse_loop_spec:
  assumes "parse_suppression_loop cs lines whole = (lines', whole')"
  shows "(line_suppresses lines' line rule \<or> suppresses whole' rule) \<longleftrightarrow>
    line_suppresses lines line rule \<or> suppresses whole rule \<or> silenced cs line rule"
  using assms
proof (induction cs lines whole rule: parse_suppression_loop.induct)
  case (2 lno pos comment cs lm wh)
  show ?case
  proof (cases "match_directive comment ''rigor:disable-file''")
    case (Some rules)
    then have "file_directive comment = Some rules" "line_directive comment = None"
      by (simp_all add: file_directive_def line_directive_def)
    with 2 Some show ?thesis by (simp add: silenced_Cons suppresses_absorb_tail)
  next
    case no_file: None
    show ?thesis
    proof (cases "match_directive comment ''rigor:disable''")
      case (Some rules)
      let ?entry = "case lm lno of Some s \<Rightarrow> s | None \<Rightarrow> suppress_empty"
      have "line_suppresses (lm(lno \<mapsto> absorb_tokens rules ?entry)) line rule \<longleftrightarrow>
          line_suppresses lm line rule \<or>
          (lno = line \<and> rule \<noteq> INTERNAL_ERROR_RULE \<and> tail_covers (Some rules) rule)"
        by (auto simp: line_suppresses_def suppresses_absorb_tail split: option.splits)
      moreover have "file_directive comment = None" "line_directive comment = Some rules"
        using no_file Some by (simp_all add: file_directive_def line_directive_def)
      moreover have "parse_suppression_loop cs (lm(lno \<mapsto> absorb_tokens rules ?entry)) wh = (lines', whole')"
        using "2.prems" no_file Some by (simp add: Let_def)
      note "2.IH"(2)[OF no_file Some refl this]
      ultimately show ?thesis unfolding silenced_Cons
        by (simp only: tail_covers_None simp_thms) argo
    next
      case None
      then have "file_directive comment = None" "line_directive comment = None"
        using no_file by (simp_all add: file_directive_def line_directive_def)
      with 2 no_file None show ?thesis by (simp add: silenced_Cons)
    qed
  qed
qed (simp add: silenced_def)

lemma filter_suppressed_silenced:
  "filter_suppressed diagnostics comments =
     filter (\<lambda>(line, diag). \<not> silenced comments line (rule_id diag)) diagnostics"
proof -
  obtain lines whole where p: "parse_suppression_comments comments = (lines, whole)" by force
  have silenced: "silenced comments line rule \<longleftrightarrow>
      (case lines line of Some s \<Rightarrow> suppresses s rule | None \<Rightarrow> False) \<or> suppresses whole rule" for line rule
    using parse_loop_spec[OF p[unfolded parse_suppression_comments_def], of line rule]
    by (simp add: line_suppresses_def)
  have "\<not> suppresses s INTERNAL_ERROR_RULE" for s by (simp add: suppresses_def)
  then show ?thesis
    unfolding filter_suppressed_def p
    by (auto simp: silenced intro!: filter_cong split: option.splits prod.splits)
qed

text \<open>C12: The filter drops exactly the silenced diagnostics, keeping the others in order: a
  diagnostic goes when some file-level directive, or a line-level directive of its own line, has a
  token that is \<open>all\<close>, an alias of its rule, the family of its rule or its rule; an internal error
  never goes.\<close>

theorem suppression_exact:
  "filter_suppressed diagnostics comments =
     filter (\<lambda>(line, diag). \<not> silenced comments line (rule_id diag)) diagnostics"
  by (rule filter_suppressed_silenced)

section \<open>The vocabulary\<close>

lemma implemented_canonical:
  "list_all (\<lambda>r. r \<in> set ALL_CANONICAL_RULES \<and> legacy_alias r = None \<and> r \<notin> set RULE_FAMILIES
     \<and> first_segment r \<in> set RULE_FAMILIES \<and> starts_with (first_segment r @ ''.'') r
     \<and> legacy_alias (first_segment r) = None) IMPLEMENTED_RULES"
  by code_simp

lemma alias_no_family: "list_all (\<lambda>(a, _). first_segment a \<notin> set RULE_FAMILIES) LEGACY_ARMS"
  by code_simp

lemma families_atomic:
  "list_all (\<lambda>f. first_segment f = f \<and> f \<notin> set NON_CHECK_DIAGNOSTIC_FAMILIES) RULE_FAMILIES"
  by code_simp

lemma ids_no_family: "list_all (\<lambda>f. first_segment f \<notin> set RULE_FAMILIES) (''all'' # NON_CHECK_DIAGNOSTIC_IDS)"
  by code_simp

lemma legacy_alias_no_family:
  assumes "legacy_alias t = Some c"
  shows "first_segment t \<notin> set RULE_FAMILIES"
  using map_of_SomeD[OF assms[unfolded legacy_alias_def]] alias_no_family
  by (auto simp: list_all_iff)

lemma inert_iff_unknown:
  "is_inert_builtin_token t \<longleftrightarrow> first_segment t \<in> set RULE_FAMILIES \<and> \<not> known_suppression_token t"
proof (cases "first_segment t \<in> set RULE_FAMILIES")
  case True
  have "t \<noteq> ''all''" "t \<notin> set NON_CHECK_DIAGNOSTIC_IDS"
    using True ids_no_family by (auto simp: list_all_iff)
  moreover have "legacy_alias t = None" using legacy_alias_no_family True by (cases "legacy_alias t") auto
  moreover have "first_segment t \<notin> set NON_CHECK_DIAGNOSTIC_FAMILIES"
    using True families_atomic by (auto simp: list_all_iff)
  moreover have "t = first_segment t \<longleftrightarrow> t \<in> set RULE_FAMILIES"
    using True families_atomic by (auto simp: list_all_iff)
  ultimately show ?thesis using True
    by (simp add: is_inert_builtin_token_def known_suppression_token_def Let_def)
qed (simp add: is_inert_builtin_token_def Let_def)

lemma covers_known:
  assumes "rule \<in> set IMPLEMENTED_RULES" "covers t rule"
  shows "known_suppression_token t"
  using assms implemented_canonical
  by (cases "t = ''all''"; cases "legacy_alias t"; cases "t \<in> set RULE_FAMILIES")
    (simp_all add: covers_def known_suppression_token_def list_all_iff)

lemma covers_self:
  assumes "rule \<in> set IMPLEMENTED_RULES"
  shows "covers rule rule \<and> covers (first_segment rule) rule
    \<and> known_suppression_token rule \<and> known_suppression_token (first_segment rule)"
  using assms implemented_canonical
  by (simp add: covers_def known_suppression_token_def list_all_iff)

text \<open>The vocabulary of tokens is consistent: a token the surveillance calls unknown drops no
  rule the tool emits; every emitted rule answers to its own id and to its family, and both are
  known; the configuration audit warns about exactly the unknown tokens of the built-in families.\<close>

theorem token_vocabulary:
  "\<not> (\<not> known_suppression_token t \<and> list_ex (covers t) IMPLEMENTED_RULES)
   \<and> list_all (\<lambda>rule. covers rule rule \<and> covers (first_segment rule) rule
       \<and> known_suppression_token rule \<and> known_suppression_token (first_segment rule)) IMPLEMENTED_RULES
   \<and> (is_inert_builtin_token t \<longleftrightarrow>
        first_segment t \<in> set RULE_FAMILIES \<and> \<not> known_suppression_token t)"
  using covers_known covers_self inert_iff_unknown unfolding list_ex_iff list_all_iff by blast

section \<open>The markers\<close>

definition any_directive :: "string \<Rightarrow> string option" where
  "any_directive text =
     (case file_directive text of Some r \<Rightarrow> Some r | None \<Rightarrow> match_directive text ''rigor:disable'')"

definition marker_report :: "nat \<Rightarrow> Diagnostic \<Rightarrow> bool" where
  "marker_report pos d =
     (start_offset d = pos \<and> end_offset d = pos \<and> diag_severity d = Warning \<and>
      rule_id d \<in> {SUPPRESSION_UNKNOWN_RULE, SUPPRESSION_EMPTY, SUPPRESSION_UNKNOWN_MARKER})"

lemma marker_report_make [simp]:
  "marker_report pos (unknown_suppression_rule_diagnostic mk tok pos)"
  "marker_report pos (unknown_suppression_marker_diagnostic mk pos)"
  "marker_report pos (empty_suppression_diagnostic mk pos)"
  by (simp_all add: marker_report_def unknown_suppression_rule_diagnostic_def marker_diagnostic_def
      unknown_suppression_marker_diagnostic_def empty_suppression_diagnostic_def)

lemma bare_pass_bound:
  "bare_pass pos ts = Some ds \<Longrightarrow> length ds \<le> 1 \<and> list_all (marker_report pos) ds"
  by (induction pos ts rule: bare_pass.induct) (auto split: option.splits if_splits)

lemma unknown_pass_bound: "length (unknown_pass pos ts) \<le> 1 \<and> list_all (marker_report pos) (unknown_pass pos ts)"
  by (induction pos ts rule: unknown_pass.induct) (auto split: option.splits)

lemma bare_marker_bound:
  "length (diagnose_bare_suppression_marker comment pos) \<le> 1
   \<and> list_all (marker_report pos) (diagnose_bare_suppression_marker comment pos)"
  using bare_pass_bound unknown_pass_bound
  by (auto simp: diagnose_bare_suppression_marker_def split: option.splits)

lemma validate_report:
  "list_all (marker_report pos) (validate_suppression_tokens tail mk pos)
   \<and> (validate_suppression_tokens tail mk pos = []
      \<longleftrightarrow> tail_tokens tail \<noteq> [] \<and> list_all known_suppression_token (tail_tokens tail))"
  by (auto simp: validate_suppression_tokens_def Let_def list_all_iff filter_empty_conv)

lemma markers_append:
  "suppression_marker_diagnostics (cs @ cs') =
     suppression_marker_diagnostics cs @ suppression_marker_diagnostics cs'"
  by (induction cs rule: suppression_marker_diagnostics.induct) simp_all

text \<open>C39: The surveillance reports each comment on its own, as warnings at its offset under the
  three suppression rules. A directive is quiet exactly when it lists tokens and all are known, any
  other comment gets at most one report, none if it has no marker, and the filter then drops the
  reports of a comment that its own directive names.\<close>

theorem marker_reports:
  "suppression_marker_diagnostics (cs @ (line, pos, comment) # cs') =
     suppression_marker_diagnostics cs @ suppression_marker_diagnostics [(line, pos, comment)]
       @ suppression_marker_diagnostics cs'
   \<and> list_all (marker_report pos) (suppression_marker_diagnostics [(line, pos, comment)])
   \<and> (case any_directive comment of
        Some tail \<Rightarrow> suppression_marker_diagnostics [(line, pos, comment)] = [] \<longleftrightarrow>
          tail_tokens tail \<noteq> [] \<and> list_all known_suppression_token (tail_tokens tail)
      | None \<Rightarrow> length (suppression_marker_diagnostics [(line, pos, comment)])
          \<le> (if rigor_marker_tails comment = [] then 0 else 1))
   \<and> filter_suppressed (map (Pair line) (suppression_marker_diagnostics [(line, pos, comment)]))
        [(line, pos, comment)]
      = filter (\<lambda>(_, d). \<not> tail_covers (any_directive comment) (rule_id d))
          (map (Pair line) (suppression_marker_diagnostics [(line, pos, comment)]))"
proof (intro conjI)
  let ?ds = "suppression_marker_diagnostics [(line, pos, comment)]"
  show "suppression_marker_diagnostics (cs @ (line, pos, comment) # cs') =
      suppression_marker_diagnostics cs @ ?ds @ suppression_marker_diagnostics cs'"
    using markers_append[of "[(line, pos, comment)]" cs'] by (simp add: markers_append)
  show reports: "list_all (marker_report pos) ?ds"
    using validate_report bare_marker_bound by (auto split: option.splits)
  show "case any_directive comment of
        Some tail \<Rightarrow> ?ds = [] \<longleftrightarrow> tail_tokens tail \<noteq> [] \<and> list_all known_suppression_token (tail_tokens tail)
      | None \<Rightarrow> length ?ds \<le> (if rigor_marker_tails comment = [] then 0 else 1)"
    using validate_report bare_marker_bound
    by (auto simp: any_directive_def file_directive_def diagnose_bare_suppression_marker_def
        split: option.splits)
  have "silenced [(line, pos, comment)] line rule \<longleftrightarrow>
      rule \<noteq> INTERNAL_ERROR_RULE \<and> tail_covers (any_directive comment) rule" for rule
    by (auto simp: silenced_def any_directive_def line_directive_def tail_covers_def split: option.splits)
  moreover have "rule_id d \<noteq> INTERNAL_ERROR_RULE" if "d \<in> set ?ds" for d
    using reports that by (auto simp: list_all_iff marker_report_def INTERNAL_ERROR_RULE_def
        SUPPRESSION_UNKNOWN_RULE_def SUPPRESSION_EMPTY_def SUPPRESSION_UNKNOWN_MARKER_def)
  ultimately show "filter_suppressed (map (Pair line) ?ds) [(line, pos, comment)]
      = filter (\<lambda>(_, d). \<not> tail_covers (any_directive comment) (rule_id d)) (map (Pair line) ?ds)"
    unfolding filter_suppressed_silenced by (intro filter_cong) auto
qed

text \<open>Inputs on which the scanners depart from the patterns their comments quote: a directive
  after a second hash mark is not read; a word after a character outside the token class is read
  as a token, so that a trailing remark can silence every rule; and a comma counts as the
  whitespace a rule list starts with.\<close>

theorem directive_departures:
  "match_directive ''# see # rigor:disable call'' ''rigor:disable'' = None
   \<and> suppression_marker_diagnostics [(1, 0, ''# see # rigor:disable call'')] = []
   \<and> silenced [(1, 0, ''# rigor:disable call.wrong-arity: all good'')] 1 FLOW_DEAD_ASSIGNMENT
   \<and> is_rule_list_shaped '',x''
   \<and> map rule_id (suppression_marker_diagnostics [(1, 0, ''# rigor:enable,x'')])
      = [SUPPRESSION_UNKNOWN_MARKER]"
  by code_simp

section \<open>Severities\<close>

fun severity_rank :: "ResolvedSeverity \<Rightarrow> nat" where
  "severity_rank ROff = 0"
| "severity_rank RInfo = 1"
| "severity_rank RWarning = 2"
| "severity_rank RError = 3"

lemma tables_monotone:
  "map fst LENIENT = map fst BALANCED \<and> map fst BALANCED = map fst STRICT
   \<and> list_all2 (\<lambda>(_, a) (_, b). severity_rank a \<le> severity_rank b) LENIENT BALANCED
   \<and> list_all2 (\<lambda>(_, a) (_, b). severity_rank a \<le> severity_rank b) BALANCED STRICT"
  by code_simp

lemma map_of_pointwise:
  assumes "map fst xs = map fst ys" "list_all2 (\<lambda>(_, a) (_, b). R a b) xs ys" "R d d"
  shows "R (case map_of xs k of Some a \<Rightarrow> a | None \<Rightarrow> d) (case map_of ys k of Some b \<Rightarrow> b | None \<Rightarrow> d)"
  using assms(2,1,3) by (induction rule: list_all2_induct) auto

lemma lookup_override_Some:
  "lookup_override rule ((rule, sev) # overrides) = Some sev"
  by (simp add: lookup_override_def)

text \<open>The profiles are ordered: whatever the overrides, a rule is never more severe under
  \<open>lenient\<close> than under \<open>balanced\<close>, nor there than under \<open>strict\<close>; a severity resolved by an
  override is the same under all three; and \<open>strict\<close> leaves exactly six rules below error.\<close>

theorem profiles_ordered:
  "severity_rank (resolve_severity rule authored Lenient ov be)
      \<le> severity_rank (resolve_severity rule authored Balanced ov be)
   \<and> severity_rank (resolve_severity rule authored Balanced ov be)
      \<le> severity_rank (resolve_severity rule authored Strict ov be)
   \<and> resolve_severity rule authored p ((rule, sev) # ov) be = sev
   \<and> map fst (filter (\<lambda>(_, s). s \<noteq> RError) STRICT)
      = [''call.self-undefined-method'', ''flow.unreachable-clause'', ''static.value-use.void'',
         SUPPRESSION_EMPTY, SUPPRESSION_UNKNOWN_MARKER, SUPPRESSION_UNKNOWN_RULE]"
proof (intro conjI)
  note mono = map_of_pointwise[where R = "\<lambda>a b. severity_rank a \<le> severity_rank b", of _ _ authored rule]
  show "severity_rank (resolve_severity rule authored Lenient ov be)
      \<le> severity_rank (resolve_severity rule authored Balanced ov be)"
    using mono[of LENIENT BALANCED] tables_monotone
    by (auto simp: resolve_severity_def split: option.splits)
  show "severity_rank (resolve_severity rule authored Balanced ov be)
      \<le> severity_rank (resolve_severity rule authored Strict ov be)"
    using mono[of BALANCED STRICT] tables_monotone
    by (auto simp: resolve_severity_def split: option.splits)
  show "resolve_severity rule authored p ((rule, sev) # ov) be = sev"
    by (simp add: resolve_severity_def lookup_override_Some)
  show "map fst (filter (\<lambda>(_, s). s \<noteq> RError) STRICT)
      = [''call.self-undefined-method'', ''flow.unreachable-clause'', ''static.value-use.void'',
         SUPPRESSION_EMPTY, SUPPRESSION_UNKNOWN_MARKER, SUPPRESSION_UNKNOWN_RULE]" by code_simp
qed

end
