(* ===== verification/Baseline.thy ===== *)
theory Baseline
  imports Suppression
begin

text \<open>
  The baseline (\<open>rigor-cli/src/baseline.rs\<close>): recording a run's diagnostics as buckets,
  filtering a later run through them, and auditing the drift. The regular-expression engine is a
  third-party crate: \<open>re\<close> compiles a pattern to its unanchored search, \<open>None\<close> when the pattern
  is invalid. An entry pairs a diagnostic with its project-relative path.
\<close>

type_synonym Regexes = "string \<Rightarrow> (string \<Rightarrow> bool) option"

type_synonym DiagEntry = "string \<times> Diagnostic"

datatype MatchMode = MatchRule | MatchMessage

record Bucket =
  bucket_file :: string
  bucket_rule :: string
  bucket_message :: "string option"
  bucket_regex :: "(string \<Rightarrow> bool) option"
  bucket_count :: nat

definition rule_row :: "string \<Rightarrow> string \<Rightarrow> nat \<Rightarrow> Bucket" where
  "rule_row f rule count = \<lparr> bucket_file = f, bucket_rule = rule, bucket_message = None,
     bucket_regex = None, bucket_count = count \<rparr>"

definition message_row :: "Regexes \<Rightarrow> string \<Rightarrow> string \<Rightarrow> string \<Rightarrow> nat \<Rightarrow> Bucket" where
  "message_row re f rule msg count = \<lparr> bucket_file = f, bucket_rule = rule,
     bucket_message = Some msg, bucket_regex = re msg, bucket_count = count \<rparr>"

type_synonym Baseline = "Bucket list"

type_synonym BucketKey = "string \<times> string \<times> string option"

definition bucket_key :: "Bucket \<Rightarrow> BucketKey" where
  "bucket_key b = (bucket_file b, bucket_rule b, bucket_message b)"

section \<open>Recording\<close>

definition escape_char :: "char \<Rightarrow> string" where
  "escape_char c =
     (if c = CHR 0x09 then [backslash, CHR ''t'']
      else if c = CHR 0x0A then [backslash, CHR ''n'']
      else if c = CHR 0x0B then [backslash, CHR ''v'']
      else if c = CHR 0x0C then [backslash, CHR ''f'']
      else if c = CHR 0x0D then [backslash, CHR ''r'']
      else if c \<in> set '' #$()*+-.?[]^{|}'' \<or> c = backslash then [backslash, c]
      else [c])"

definition regexp_escape :: "string \<Rightarrow> string" where
  "regexp_escape s = concat (map escape_char s)"

fun count_loop ::
  "MatchMode \<Rightarrow> DiagEntry list \<Rightarrow> BucketKey list \<Rightarrow> (BucketKey \<rightharpoonup> nat) \<Rightarrow>
   BucketKey list \<times> (BucketKey \<rightharpoonup> nat)" where
  "count_loop mode [] order counts = (order, counts)"
| "count_loop mode ((rel, diag) # es) order counts =
     (case qualified_rule diag of None \<Rightarrow> count_loop mode es order counts
      | Some rule \<Rightarrow>
          let msg = (case mode of MatchRule \<Rightarrow> None
                     | MatchMessage \<Rightarrow> Some (regexp_escape (diag_message diag)));
              bkey = (rel, rule, msg);
              order' = (if counts bkey = None then order @ [bkey] else order);
              n = (case counts bkey of Some n \<Rightarrow> n | None \<Rightarrow> 0)
          in count_loop mode es order' (counts(bkey \<mapsto> n + 1)))"

definition from_diagnostics :: "Regexes \<Rightarrow> DiagEntry list \<Rightarrow> MatchMode \<Rightarrow> Baseline" where
  "from_diagnostics re es mode =
     (let (order, counts) = count_loop mode es [] (\<lambda>_. None) in
      map (\<lambda>(f, rule, msg).
          let count = the (counts (f, rule, msg)) in
          (case msg of None \<Rightarrow> rule_row f rule count | Some m \<Rightarrow> message_row re f rule m count))
        order)"

section \<open>Claiming\<close>

fun claim_loop :: "string \<Rightarrow> string \<Rightarrow> string \<Rightarrow> nat \<Rightarrow> Bucket list \<Rightarrow> nat option \<Rightarrow> nat option" where
  "claim_loop rel rule msg i [] fallback = fallback"
| "claim_loop rel rule msg i (b # bs) fallback =
     (if bucket_file b \<noteq> rel \<or> bucket_rule b \<noteq> rule then claim_loop rel rule msg (i + 1) bs fallback
      else (case (bucket_message b, bucket_regex b) of
          (Some _, Some p) \<Rightarrow> if p msg then Some i else claim_loop rel rule msg (i + 1) bs fallback
        | (Some _, None) \<Rightarrow> claim_loop rel rule msg (i + 1) bs fallback
        | (None, _) \<Rightarrow> claim_loop rel rule msg (i + 1) bs
            (case fallback of None \<Rightarrow> Some i | Some j \<Rightarrow> Some j)))"

definition claim_bucket :: "Baseline \<Rightarrow> DiagEntry \<Rightarrow> nat option" where
  "claim_bucket bl e =
     (case qualified_rule (snd e) of None \<Rightarrow> None
      | Some rule \<Rightarrow> claim_loop (fst e) rule (diag_message (snd e)) 0 bl None)"

section \<open>Filtering\<close>

datatype BinKey = Claimed BucketKey | NoBucket string string

record Bin =
  bin_bucket :: "nat option"
  bin_members :: "nat list"

definition bin_key :: "Baseline \<Rightarrow> DiagEntry \<Rightarrow> string \<Rightarrow> BinKey" where
  "bin_key bl e rule =
     (case claim_bucket bl e of
        Some bi \<Rightarrow> Claimed (bucket_key (bl ! bi))
      | None \<Rightarrow> NoBucket (fst e) rule)"

definition bin_push :: "nat \<Rightarrow> Bin \<Rightarrow> Bin" where
  "bin_push i b = b\<lparr> bin_members := bin_members b @ [i] \<rparr>"

fun bin_loop ::
  "Baseline \<Rightarrow> nat \<Rightarrow> DiagEntry list \<Rightarrow> Bin list \<Rightarrow> (BinKey \<rightharpoonup> nat) \<Rightarrow> nat list \<Rightarrow>
   Bin list \<times> nat list" where
  "bin_loop bl i [] bins slot_of unkeyable = (bins, unkeyable)"
| "bin_loop bl i (e # es) bins slot_of unkeyable =
     (case qualified_rule (snd e) of
        None \<Rightarrow> bin_loop bl (i + 1) es bins slot_of (unkeyable @ [i])
      | Some rule \<Rightarrow>
          let bk = bin_key bl e rule in
          (case slot_of bk of
             Some p \<Rightarrow> bin_loop bl (i + 1) es (bins[p := bin_push i (bins ! p)]) slot_of unkeyable
           | None \<Rightarrow>
               let p = length bins;
                   bins' = bins @ [\<lparr> bin_bucket = claim_bucket bl e, bin_members = [] \<rparr>]
               in bin_loop bl (i + 1) es (bins'[p := bin_push i (bins' ! p)])
                    (slot_of(bk \<mapsto> p)) unkeyable))"

definition bin_silenced :: "Baseline \<Rightarrow> Bin \<Rightarrow> bool" where
  "bin_silenced bl b =
     (case bin_bucket b of
        Some bi \<Rightarrow> length (bin_members b) \<le> bucket_count (bl ! bi)
      | None \<Rightarrow> False)"

fun surface_loop :: "Baseline \<Rightarrow> Bin list \<Rightarrow> nat list \<Rightarrow> nat \<Rightarrow> nat list \<times> nat" where
  "surface_loop bl [] surfaced silenced = (surfaced, silenced)"
| "surface_loop bl (b # bs) surfaced silenced =
     (if bin_silenced bl b then surface_loop bl bs surfaced (silenced + length (bin_members b))
      else surface_loop bl bs (surfaced @ bin_members b) silenced)"

definition baseline_filter :: "Baseline \<Rightarrow> DiagEntry list \<Rightarrow> nat list \<times> nat" where
  "baseline_filter bl es =
     (if bl = [] then ([0 ..< length es], 0)
      else
        let (bins, unkeyable) = bin_loop bl 0 es [] (\<lambda>_. None) [];
            (surfaced, silenced) = surface_loop bl bins [] 0
        in (surfaced @ unkeyable, silenced))"

section \<open>Auditing\<close>

datatype DriftStatus = Over | Cleared | Reducible | Within

record DriftRow =
  drift_bucket :: Bucket
  drift_actual :: nat
  drift_status :: DriftStatus
  drift_delta :: i64

definition status_for :: "nat \<Rightarrow> nat \<Rightarrow> DriftStatus" where
  "status_for actual count =
     (if actual = 0 then Cleared
      else if actual > count then Over
      else if actual = count then Within
      else Reducible)"

fun audit_counts :: "Baseline \<Rightarrow> DiagEntry list \<Rightarrow> (BucketKey \<rightharpoonup> nat) \<Rightarrow> (BucketKey \<rightharpoonup> nat)" where
  "audit_counts bl [] counts = counts"
| "audit_counts bl (e # es) counts =
     (case claim_bucket bl e of None \<Rightarrow> audit_counts bl es counts
      | Some bi \<Rightarrow>
          let bkey = bucket_key (bl ! bi); n = (case counts bkey of Some n \<Rightarrow> n | None \<Rightarrow> 0)
          in audit_counts bl es (counts(bkey \<mapsto> n + 1)))"

definition baseline_audit :: "Baseline \<Rightarrow> DiagEntry list \<Rightarrow> DriftRow list" where
  "baseline_audit bl es =
     (let counts = audit_counts bl es (\<lambda>_. None) in
      map (\<lambda>b. let actual = (case counts (bucket_key b) of Some n \<Rightarrow> n | None \<Rightarrow> 0) in
          \<lparr> drift_bucket = b, drift_actual = actual,
            drift_status = status_for actual (bucket_count b),
            drift_delta = word_of_nat actual - word_of_nat (bucket_count b) \<rparr>) bl)"

definition bucket_eq :: "Bucket \<Rightarrow> Bucket \<Rightarrow> bool" where
  "bucket_eq a b =
     (bucket_file a = bucket_file b \<and> bucket_rule a = bucket_rule b
      \<and> bucket_message a = bucket_message b \<and> bucket_count a = bucket_count b)"

definition baseline_without :: "Baseline \<Rightarrow> Bucket list \<Rightarrow> Baseline" where
  "baseline_without bl remove = filter (\<lambda>b. \<not> list_ex (\<lambda>r. bucket_eq b r) remove) bl"

end
