(* ===== verification/Baseline_Laws.thy ===== *)
theory Baseline_Laws
  imports Baseline
begin

text \<open>
  The grouping loops of the baseline in closed form: the keys in order of first appearance, for
  each key the positions that carry it, and the first bucket that can claim it.
\<close>

section \<open>Order of first appearance\<close>

definition first_seen :: "'a list \<Rightarrow> 'a list" where
  "first_seen xs = rev (remdups (rev xs))"

lemma first_seen_Nil [simp]: "first_seen [] = []"
  by (simp add: first_seen_def)

lemma first_seen_snoc [simp]:
  "first_seen (xs @ [x]) = (if x \<in> set xs then first_seen xs else first_seen xs @ [x])"
  by (simp add: first_seen_def)

lemma set_first_seen [simp]: "set (first_seen xs) = set xs"
  and distinct_first_seen [simp]: "distinct (first_seen xs)"
  by (simp_all add: first_seen_def)

definition first_index :: "('a \<Rightarrow> bool) \<Rightarrow> 'a list \<Rightarrow> nat option" where
  "first_index P xs = (if \<exists>x \<in> set xs. P x then Some (length (takeWhile (\<lambda>x. \<not> P x) xs)) else None)"

lemma first_index_simps [simp]:
  "first_index P [] = None"
  "first_index P (x # xs) = (if P x then Some 0 else map_option Suc (first_index P xs))"
  by (auto simp: first_index_def)

lemma first_index_Some:
  "first_index P xs = Some j \<longleftrightarrow> j < length xs \<and> P (xs ! j) \<and> (\<forall>k < j. \<not> P (xs ! k))"
proof (induction xs arbitrary: j)
  case (Cons x xs)
  show ?case by (cases j) (auto simp: Cons All_less_Suc2 nth_Cons split: nat.splits)
qed simp

lemma first_index_None: "first_index P xs = None \<longleftrightarrow> (\<forall>x \<in> set xs. \<not> P x)"
  by (simp add: first_index_def)

section \<open>Claims\<close>

definition row_for :: "DiagEntry \<Rightarrow> Bucket \<Rightarrow> bool" where
  "row_for e b = (bucket_file b = fst e \<and> qualified_rule (snd e) = Some (bucket_rule b))"

definition message_match :: "DiagEntry \<Rightarrow> Bucket \<Rightarrow> bool" where
  "message_match e b = (row_for e b \<and> bucket_message b \<noteq> None
     \<and> (case bucket_regex b of Some p \<Rightarrow> p (diag_message (snd e)) | None \<Rightarrow> False))"

definition rule_match :: "DiagEntry \<Rightarrow> Bucket \<Rightarrow> bool" where
  "rule_match e b = (row_for e b \<and> bucket_message b = None)"

lemma claim_loop_step:
  assumes "qualified_rule (snd e) = Some rule"
  shows "claim_loop (fst e) rule (diag_message (snd e)) i (b # bs) fallback =
    (if message_match e b then Some i
     else claim_loop (fst e) rule (diag_message (snd e)) (i + 1) bs
       (if rule_match e b \<and> fallback = None then Some i else fallback))"
  using assms
  by (cases "bucket_message b"; cases "bucket_regex b"; cases fallback)
    (auto simp: message_match_def rule_match_def row_for_def)

lemma claim_loop_first:
  assumes "qualified_rule (snd e) = Some rule"
  shows "claim_loop (fst e) rule (diag_message (snd e)) i bs fallback =
    (case first_index (message_match e) bs of
       Some j \<Rightarrow> Some (i + j)
     | None \<Rightarrow> (case fallback of Some f \<Rightarrow> Some f
         | None \<Rightarrow> map_option ((+) i) (first_index (rule_match e) bs)))"
proof (induction bs arbitrary: i fallback)
  case (Cons b bs)
  show ?case
  proof (cases "message_match e b")
    case False
    then show ?thesis
      by (cases "first_index (message_match e) bs"; cases "rule_match e b"; cases fallback;
          cases "first_index (rule_match e) bs")
        (simp_all add: claim_loop_step[OF assms] Cons del: claim_loop.simps(2))
  qed (simp add: claim_loop_step[OF assms] del: claim_loop.simps(2))
qed (auto split: option.splits)

lemma claim_bucket_first:
  "claim_bucket bl e = (case first_index (message_match e) bl of
     Some j \<Rightarrow> Some j | None \<Rightarrow> first_index (rule_match e) bl)"
proof (cases "qualified_rule (snd e)")
  case None
  then have "\<not> message_match e b" "\<not> rule_match e b" for b
    by (simp_all add: message_match_def rule_match_def row_for_def)
  then have "first_index (message_match e) bl = None" "first_index (rule_match e) bl = None"
    by (simp_all add: first_index_None)
  then show ?thesis using None by (simp add: claim_bucket_def)
next
  case (Some rule)
  have "map_option ((+) 0) x = x" for x :: "nat option" by (cases x) simp_all
  then show ?thesis using Some claim_loop_first[OF Some, of 0 bl None]
    by (simp add: claim_bucket_def split: option.splits)
qed

text \<open>What the constructors and the loader establish: the compiled form belongs to the message.\<close>

definition rows_compiled :: "Regexes \<Rightarrow> Baseline \<Rightarrow> bool" where
  "rows_compiled re bl =
     list_all (\<lambda>b. bucket_regex b = (case bucket_message b of Some m \<Rightarrow> re m | None \<Rightarrow> None)) bl"

definition key_owner :: "Baseline \<Rightarrow> BinKey \<Rightarrow> nat option" where
  "key_owner bl k = (case k of Claimed bk \<Rightarrow> first_index (\<lambda>b. bucket_key b = bk) bl | NoBucket _ _ \<Rightarrow> None)"

lemma claim_bucket_lt: "claim_bucket bl e = Some j \<Longrightarrow> j < length bl"
  by (auto simp: claim_bucket_first first_index_Some split: option.splits)

lemma claim_is_owner:
  assumes "rows_compiled re bl"
  shows "claim_bucket bl e = key_owner bl (bin_key bl e rule)"
proof (cases "claim_bucket bl e")
  case None
  then show ?thesis by (simp add: bin_key_def key_owner_def)
next
  case (Some j)
  have "\<forall>k < j. bucket_key (bl ! k) \<noteq> bucket_key (bl ! j)"
  proof (intro allI impI notI)
    fix k assume k: "k < j" and same: "bucket_key (bl ! k) = bucket_key (bl ! j)"
    have j: "j < length bl" using Some by (rule claim_bucket_lt)
    then have "bucket_regex (bl ! k) = bucket_regex (bl ! j)"
      using assms same k by (auto simp: rows_compiled_def list_all_length bucket_key_def)
    with same have "message_match e (bl ! k) = message_match e (bl ! j)"
      "rule_match e (bl ! k) = rule_match e (bl ! j)"
      by (auto simp: message_match_def rule_match_def row_for_def bucket_key_def)
    with Some k show False
      by (auto simp: claim_bucket_first first_index_Some split: option.splits)
  qed
  then have "first_index (\<lambda>b. bucket_key b = bucket_key (bl ! j)) bl = Some j"
    using claim_bucket_lt[OF Some] by (simp add: first_index_Some)
  then show ?thesis using Some by (simp add: bin_key_def key_owner_def)
qed

section \<open>The bins\<close>

definition entry_key :: "Baseline \<Rightarrow> DiagEntry \<Rightarrow> BinKey option" where
  "entry_key bl e = map_option (bin_key bl e) (qualified_rule (snd e))"

definition keys_of :: "Baseline \<Rightarrow> DiagEntry list \<Rightarrow> BinKey list" where
  "keys_of bl es = List.map_filter (entry_key bl) es"

definition positions :: "Baseline \<Rightarrow> DiagEntry list \<Rightarrow> BinKey option \<Rightarrow> nat list" where
  "positions bl es k = filter (\<lambda>i. entry_key bl (es ! i) = k) [0 ..< length es]"

lemma keys_of_snoc:
  "keys_of bl (es @ [e]) = keys_of bl es @ (case entry_key bl e of Some k \<Rightarrow> [k] | None \<Rightarrow> [])"
  by (simp add: keys_of_def List.map_filter_def split: option.splits)

lemma keys_of_Nil [simp]: "keys_of bl [] = []"
  by (simp add: keys_of_def List.map_filter_def)

lemma set_keys_of: "k \<in> set (keys_of bl es) \<longleftrightarrow> (\<exists>e \<in> set es. entry_key bl e = Some k)"
  by (induction es) (auto simp: keys_of_def List.map_filter_def split: option.splits)

lemma positions_snoc:
  "positions bl (es @ [e]) k = positions bl es k @ (if entry_key bl e = k then [length es] else [])"
proof -
  have "filter (\<lambda>i. entry_key bl ((es @ [e]) ! i) = k) [0 ..< length es] = positions bl es k"
    unfolding positions_def by (rule filter_cong) (auto simp: nth_append)
  then show ?thesis by (simp add: positions_def)
qed

lemma positions_fresh: "k \<notin> set (keys_of bl es) \<Longrightarrow> positions bl es (Some k) = []"
  by (auto simp: positions_def filter_empty_conv set_keys_of)

definition bins_of :: "Baseline \<Rightarrow> DiagEntry list \<Rightarrow> Bin list" where
  "bins_of bl es = map (\<lambda>k. \<lparr> bin_bucket = key_owner bl k, bin_members = positions bl es (Some k) \<rparr>)
     (first_seen (keys_of bl es))"

definition slots_ok :: "(BinKey \<rightharpoonup> nat) \<Rightarrow> BinKey list \<Rightarrow> bool" where
  "slots_ok slot ks = (\<forall>k p. slot k = Some p \<longleftrightarrow> p < length ks \<and> ks ! p = k)"

lemma slots_ok_None: "slots_ok slot ks \<Longrightarrow> slot k = None \<longleftrightarrow> k \<notin> set ks"
  unfolding slots_ok_def in_set_conv_nth by (metis not_None_eq)

lemma slots_ok_add:
  assumes "slots_ok slot ks" "k \<notin> set ks"
  shows "slots_ok (slot(k \<mapsto> length ks)) (ks @ [k])"
  using assms unfolding slots_ok_def
  by (auto simp: nth_append less_Suc_eq in_set_conv_nth split: if_splits)

lemma bin_loop_spec:
  assumes re: "rows_compiled re bl"
    and "slots_ok slot (first_seen (keys_of bl ds))"
  shows "bin_loop bl (length ds) es (bins_of bl ds) slot (positions bl ds None)
    = (bins_of bl (ds @ es), positions bl (ds @ es) None)"
  using assms(2)
proof (induction es arbitrary: ds slot)
  case (Cons e es)
  let ?ks = "first_seen (keys_of bl ds)"
  note IH = Cons.IH[where ds = "ds @ [e]",
      unfolded append_assoc append_Cons append_Nil length_append_singleton]
  show ?case
  proof (cases "qualified_rule (snd e)")
    case None
    then have key: "entry_key bl e = None" by (simp add: entry_key_def)
    then have "bins_of bl (ds @ [e]) = bins_of bl ds"
      by (simp add: bins_of_def keys_of_snoc positions_snoc)
    then show ?thesis using IH[where slot = slot] Cons.prems None key
      by (simp add: keys_of_snoc positions_snoc)
  next
    case (Some rule)
    let ?k = "bin_key bl e rule"
    have key: "entry_key bl e = Some ?k" using Some by (simp add: entry_key_def)
    have none: "positions bl (ds @ [e]) None = positions bl ds None"
      using key by (simp add: positions_snoc)
    show ?thesis
    proof (cases "slot ?k")
      case (Some p)
      then have p: "p < length ?ks" "?ks ! p = ?k" using Cons.prems by (auto simp: slots_ok_def)
      then have mem: "?k \<in> set (keys_of bl ds)" by (metis nth_mem set_first_seen)
      have "bins_of bl (ds @ [e]) = (bins_of bl ds)[p := bin_push (length ds) (bins_of bl ds ! p)]"
      proof (rule nth_equalityI)
        fix i assume "i < length (bins_of bl (ds @ [e]))"
        then have i: "i < length ?ks" using mem key by (simp add: bins_of_def keys_of_snoc)
        then have "?ks ! i = ?k \<longleftrightarrow> i = p" using p by (simp add: nth_eq_iff_index_eq flip: p(2))
        then show "bins_of bl (ds @ [e]) ! i
            = (bins_of bl ds)[p := bin_push (length ds) (bins_of bl ds ! p)] ! i"
          using i p mem key
          by (auto simp: bins_of_def keys_of_snoc positions_snoc bin_push_def nth_list_update)
      qed (use mem key in \<open>simp add: bins_of_def keys_of_snoc\<close>)
      then show ?thesis using IH[where slot = slot] Cons.prems Some \<open>qualified_rule (snd e) = Some rule\<close> none mem key
        by (simp add: keys_of_snoc Let_def)
    next
      case None
      then have new: "?k \<notin> set (keys_of bl ds)" using slots_ok_None[OF Cons.prems] by simp
      have len: "length (bins_of bl ds) = length ?ks" by (simp add: bins_of_def)
      have "bins_of bl (ds @ [e]) = bins_of bl ds @
          [\<lparr> bin_bucket = claim_bucket bl e, bin_members = [length ds] \<rparr>]"
        using new key claim_is_owner[OF re, of e rule]
        by (auto simp: bins_of_def keys_of_snoc positions_snoc positions_fresh intro!: map_cong)
      moreover have "slots_ok (slot(?k \<mapsto> length ?ks)) (first_seen (keys_of bl (ds @ [e])))"
        using slots_ok_add[OF Cons.prems, of ?k] new key by (simp add: keys_of_snoc)
      note rest = IH[OF this]
      ultimately show ?thesis
        using rest None \<open>qualified_rule (snd e) = Some rule\<close> none
        by (simp add: Let_def bin_push_def fun_upd_def flip: len)
    qed
  qed
qed simp


section \<open>The filter in closed form\<close>

definition bin_quiet :: "Baseline \<Rightarrow> DiagEntry list \<Rightarrow> BinKey \<Rightarrow> bool" where
  "bin_quiet bl es k =
     (case key_owner bl k of
        Some bi \<Rightarrow> length (positions bl es (Some k)) \<le> bucket_count (bl ! bi)
      | None \<Rightarrow> False)"

lemma surface_loop_spec:
  "surface_loop bl bins surfaced silenced =
     (surfaced @ concat (map bin_members (filter (\<lambda>b. \<not> bin_silenced bl b) bins)),
      silenced + sum_list (map (\<lambda>b. length (bin_members b)) (filter (bin_silenced bl) bins)))"
  by (induction bins arbitrary: surfaced silenced) simp_all

lemma baseline_filter_closed:
  assumes "rows_compiled re bl" "bl \<noteq> []"
  shows "baseline_filter bl es =
    (concat (map (\<lambda>k. positions bl es (Some k))
        (filter (\<lambda>k. \<not> bin_quiet bl es k) (first_seen (keys_of bl es)))) @ positions bl es None,
     sum_list (map (\<lambda>k. length (positions bl es (Some k)))
        (filter (bin_quiet bl es) (first_seen (keys_of bl es)))))"
proof -
  have "bin_loop bl 0 es [] (\<lambda>_. None) [] = (bins_of bl es, positions bl es None)"
    using bin_loop_spec[OF assms(1), of "\<lambda>_. None" "[]" es]
    by (simp add: slots_ok_def bins_of_def positions_def)
  moreover have "bin_silenced bl \<lparr> bin_bucket = key_owner bl k, bin_members = positions bl es (Some k) \<rparr>
      = bin_quiet bl es k" for k
    by (auto simp: bin_silenced_def bin_quiet_def split: option.splits)
  ultimately show ?thesis using assms(2)
    by (simp add: baseline_filter_def surface_loop_spec bins_of_def filter_map comp_def)
qed

lemma sum_list_indicator:
  "distinct ks \<Longrightarrow> sum_list (map (\<lambda>k. f k + (if k = k0 then 1 else 0)) ks)
     = sum_list (map f ks) + (if k0 \<in> set ks then 1 else 0 :: nat)"
  by (induction ks) auto

lemma positions_total:
  "sum_list (map (\<lambda>k. length (positions bl es (Some k))) (first_seen (keys_of bl es)))
     + length (positions bl es None) = length es"
proof (induction es rule: rev_induct)
  case Nil
  then show ?case by (simp add: positions_def)
next
  case (snoc e es)
  show ?case
  proof (cases "entry_key bl e")
    case None
    then show ?thesis using snoc by (simp add: keys_of_snoc positions_snoc)
  next
    case (Some k0)
    have len: "length (positions bl (es @ [e]) (Some k))
        = length (positions bl es (Some k)) + (if k = k0 then 1 else 0)" for k
      using Some by (simp add: positions_snoc)
    have "positions bl es (Some k0) = []" if "k0 \<notin> set (keys_of bl es)"
      using that by (rule positions_fresh)
    then show ?thesis using snoc Some sum_list_indicator[OF distinct_first_seen, of _ k0 "keys_of bl es"]
      unfolding len by (simp add: keys_of_snoc positions_snoc)
  qed
qed

lemma sum_list_partition:
  "sum_list (map f (filter (\<lambda>k. \<not> P k) ks)) + sum_list (map f (filter P ks)) = (sum_list (map f ks) :: nat)"
  by (induction ks) auto

section \<open>Recording in closed form\<close>

definition record_key :: "MatchMode \<Rightarrow> DiagEntry \<Rightarrow> BucketKey option" where
  "record_key mode e = map_option (\<lambda>rule. (fst e, rule,
     (case mode of MatchRule \<Rightarrow> None | MatchMessage \<Rightarrow> Some (regexp_escape (diag_message (snd e))))))
     (qualified_rule (snd e))"

definition record_keys :: "MatchMode \<Rightarrow> DiagEntry list \<Rightarrow> BucketKey list" where
  "record_keys mode es = List.map_filter (record_key mode) es"

lemma record_keys_snoc:
  "record_keys mode (es @ [e]) =
     record_keys mode es @ (case record_key mode e of Some k \<Rightarrow> [k] | None \<Rightarrow> [])"
  by (simp add: record_keys_def List.map_filter_def split: option.splits)

lemma record_keys_Nil [simp]: "record_keys mode [] = []"
  by (simp add: record_keys_def List.map_filter_def)

definition counts_ok :: "(BucketKey \<rightharpoonup> nat) \<Rightarrow> BucketKey list \<Rightarrow> bool" where
  "counts_ok c ks = (\<forall>k. c k = (if k \<in> set ks then Some (count_list ks k) else None))"

lemma counts_okD: "counts_ok c ks \<Longrightarrow> c k = (if k \<in> set ks then Some (count_list ks k) else None)"
  unfolding counts_ok_def by blast

lemma counts_ok_add:
  assumes "counts_ok c ks"
  shows "counts_ok (c(k \<mapsto> (case c k of Some n \<Rightarrow> n | None \<Rightarrow> 0) + 1)) (ks @ [k])"
  using assms by (auto simp: counts_ok_def count_list_0_iff)

lemma count_loop_step:
  "count_loop mode (e # es) order c =
     (case record_key mode e of None \<Rightarrow> count_loop mode es order c
      | Some k \<Rightarrow> count_loop mode es (if c k = None then order @ [k] else order)
          (c(k \<mapsto> (case c k of Some n \<Rightarrow> n | None \<Rightarrow> 0) + 1)))"
  by (cases e; cases mode) (auto simp: record_key_def Let_def split: option.splits)

lemma count_loop_spec:
  assumes "counts_ok c (record_keys mode ds)"
  shows "\<exists>c'. count_loop mode es (first_seen (record_keys mode ds)) c
    = (first_seen (record_keys mode (ds @ es)), c') \<and> counts_ok c' (record_keys mode (ds @ es))"
  using assms
proof (induction es arbitrary: ds c)
  case (Cons e es)
  show ?case
  proof (cases "record_key mode e")
    case None
    then show ?thesis using Cons.IH[of c "ds @ [e]"] Cons.prems
      by (simp add: count_loop_step record_keys_snoc del: count_loop.simps(2))
  next
    case (Some k)
    have "counts_ok (c(k \<mapsto> (case c k of Some n \<Rightarrow> n | None \<Rightarrow> 0) + 1)) (record_keys mode (ds @ [e]))"
      using counts_ok_add[OF Cons.prems, of k] Some by (simp add: record_keys_snoc)
    from Cons.IH[OF this] show ?thesis
      using Some counts_okD[OF Cons.prems, of k]
      by (simp add: count_loop_step record_keys_snoc fun_upd_def del: count_loop.simps(2) split: if_splits)
  qed
qed auto

definition recorded_row :: "Regexes \<Rightarrow> BucketKey \<Rightarrow> nat \<Rightarrow> Bucket" where
  "recorded_row re k n = (case snd (snd k) of
     None \<Rightarrow> rule_row (fst k) (fst (snd k)) n
   | Some m \<Rightarrow> message_row re (fst k) (fst (snd k)) m n)"

lemma recorded_row_fields [simp]:
  "bucket_key (recorded_row re k n) = k"
  "bucket_count (recorded_row re k n) = n"
  "bucket_regex (recorded_row re k n) = (case snd (snd k) of Some m \<Rightarrow> re m | None \<Rightarrow> None)"
  "bucket_message (recorded_row re k n) = snd (snd k)"
  by (cases k; auto simp: recorded_row_def bucket_key_def rule_row_def message_row_def split: option.splits)+

lemma from_diagnostics_closed:
  "from_diagnostics re es mode = map (\<lambda>k. recorded_row re k (count_list (record_keys mode es) k))
     (first_seen (record_keys mode es))"
proof -
  have "counts_ok (\<lambda>_. None) (record_keys mode [])" by (simp add: counts_ok_def)
  from count_loop_spec[OF this, of es] obtain c where c:
    "count_loop mode es [] (\<lambda>_. None) = (first_seen (record_keys mode es), c)"
    "counts_ok c (record_keys mode es)" by auto
  then have "c k = Some (count_list (record_keys mode es) k)" if "k \<in> set (record_keys mode es)" for k
    using that by (simp add: counts_okD[OF c(2)])
  then show ?thesis unfolding from_diagnostics_def c(1)
    by (force simp: Let_def recorded_row_def split: option.splits)
qed

lemma recorded_rows_compiled: "rows_compiled re (from_diagnostics re es mode)"
  by (simp add: from_diagnostics_closed rows_compiled_def list_all_iff)

lemma from_diagnostics_rule:
  "from_diagnostics re es MatchRule = map (\<lambda>k. rule_row (fst k) (fst (snd k))
     (count_list (record_keys MatchRule es) k)) (first_seen (record_keys MatchRule es))"
proof -
  have "snd (snd k) = None" if "k \<in> set (record_keys MatchRule es)" for k
    using that by (auto simp: record_keys_def record_key_def List.map_filter_def split: option.splits)
  then show ?thesis unfolding from_diagnostics_closed by (simp add: recorded_row_def)
qed


section \<open>A baseline and the run it records\<close>

lemma record_key_rule:
  "record_key MatchRule e = (case qualified_rule (snd e) of Some r \<Rightarrow> Some (fst e, r, None) | None \<Rightarrow> None)"
  by (simp add: record_key_def split: option.splits)

lemma record_keys_Cons:
  "record_keys mode (e # es) =
     (case record_key mode e of Some k \<Rightarrow> [k] | None \<Rightarrow> []) @ record_keys mode es"
  by (simp add: record_keys_def List.map_filter_def split: option.splits)

lemma count_record_keys:
  "count_list (record_keys MatchRule es) k = length (filter (\<lambda>e. record_key MatchRule e = Some k) es)"
  by (induction es) (auto simp: record_keys_Cons split: option.splits
      simp del: split_paired_All split_paired_Ex)

lemma set_record_keys:
  "k \<in> set (record_keys MatchRule es) \<longleftrightarrow> (\<exists>e \<in> set es. record_key MatchRule e = Some k)"
  by (induction es) (auto simp: record_keys_Cons split: option.splits
      simp del: split_paired_All split_paired_Ex)

lemma rule_rows_compiled: "rows_compiled re' (from_diagnostics re es MatchRule)"
  by (simp add: from_diagnostics_rule rows_compiled_def list_all_iff rule_row_def)

lemma bucket_key_rule_row [simp]: "bucket_key (rule_row f r n) = (f, r, None)"
  by (simp add: bucket_key_def rule_row_def)

lemma rule_key_shape:
  "k \<in> set (record_keys MatchRule es) \<Longrightarrow> (fst k, fst (snd k), None) = k"
  by (auto simp: set_record_keys record_key_rule split: option.splits)

text \<open>The bucket of a rule-mode baseline that claims an entry is the row of its key.\<close>

lemma rule_mode_claim:
  assumes "bl = from_diagnostics re es MatchRule"
  shows "case record_key MatchRule e of
      Some k \<Rightarrow> (if k \<in> set (record_keys MatchRule es)
        then \<exists>bi. claim_bucket bl e = Some bi \<and> bucket_key (bl ! bi) = k
          \<and> bucket_count (bl ! bi) = count_list (record_keys MatchRule es) k
        else claim_bucket bl e = None)
    | None \<Rightarrow> claim_bucket bl e = None"
proof -
  let ?ks = "first_seen (record_keys MatchRule es)"
  let ?row = "\<lambda>k. rule_row (fst k) (fst (snd k)) (count_list (record_keys MatchRule es) k)"
  have bl: "bl = map ?row ?ks" by (simp add: assms from_diagnostics_rule)
  have "\<not> message_match e b" if "b \<in> set bl" for b
    using that by (auto simp: bl message_match_def rule_row_def)
  then have "first_index (message_match e) bl = None" by (simp add: first_index_None)
  then have claim: "claim_bucket bl e = first_index (rule_match e) bl"
    by (simp add: claim_bucket_first)
  have match: "rule_match e (?row k) \<longleftrightarrow> record_key MatchRule e = Some k"
    if "k \<in> set (record_keys MatchRule es)" for k
    using rule_key_shape[OF that]
    by (cases k) (auto simp: rule_match_def row_for_def rule_row_def record_key_rule split: option.splits)
  show ?thesis
  proof (cases "first_index (rule_match e) bl")
    case None
    then have "record_key MatchRule e \<noteq> Some k" if "k \<in> set (record_keys MatchRule es)" for k
      using match[OF that] that by (auto simp: first_index_None bl)
    then show ?thesis using claim None by (auto split: option.splits)
  next
    case (Some bi)
    then have "bi < length bl" and match_bi: "rule_match e (bl ! bi)" by (simp_all add: first_index_Some)
    then have bi: "bi < length ?ks" by (simp add: bl)
    then have mem: "?ks ! bi \<in> set (record_keys MatchRule es)" by (metis nth_mem set_first_seen)
    have row: "bl ! bi = ?row (?ks ! bi)" using bi by (simp add: bl)
    have "record_key MatchRule e = Some (?ks ! bi)" using match[OF mem] match_bi row by simp
    moreover have "bucket_key (bl ! bi) = ?ks ! bi" using rule_key_shape[OF mem] row by simp
    moreover have "bucket_count (bl ! bi) = count_list (record_keys MatchRule es) (?ks ! bi)"
      unfolding row by (simp add: rule_row_def)
    ultimately show ?thesis using claim Some mem by simp
  qed
qed

lemma rule_mode_bin_key:
  assumes "bl = from_diagnostics re es MatchRule" and "qualified_rule (snd e) = Some rule"
  shows "entry_key bl e = Some (if (fst e, rule, None) \<in> set (record_keys MatchRule es)
      then Claimed (fst e, rule, None) else NoBucket (fst e) rule)"
  using rule_mode_claim[OF assms(1), of e] assms(2)
  by (auto simp: entry_key_def bin_key_def record_key_rule split: option.splits if_splits)

lemma length_filter_nth: "length (filter (\<lambda>i. P (es ! i)) [0 ..< length es]) = length (filter P es)"
proof -
  have "filter P es = map ((!) es) (filter (\<lambda>i. P (es ! i)) [0 ..< length es])"
    by (metis (mono_tags, lifting) filter_map map_nth comp_apply filter_cong)
  then show ?thesis by simp
qed

lemma rule_mode_positions:
  assumes "bl = from_diagnostics re es MatchRule" and "k \<in> set (record_keys MatchRule es)"
  shows "length (positions bl fs (Some (Claimed k)))
    = length (filter (\<lambda>e. record_key MatchRule e = Some k) fs)"
proof -
  have "entry_key bl e = Some (Claimed k) \<longleftrightarrow> record_key MatchRule e = Some k" for e
  proof (cases "qualified_rule (snd e)")
    case None
    then show ?thesis by (simp add: entry_key_def record_key_rule)
  next
    case (Some rule)
    then show ?thesis using rule_mode_bin_key[OF assms(1) Some] assms(2)
      by (auto simp: record_key_rule)
  qed
  then show ?thesis unfolding positions_def
    using length_filter_nth[of "\<lambda>e. record_key MatchRule e = Some k" fs] by simp
qed

text \<open>How a rule-mode baseline treats a key of any later run.\<close>

lemma rule_mode_quiet:
  assumes bl: "bl = from_diagnostics re es MatchRule" and k: "k \<in> set (record_keys MatchRule es)"
  shows "bin_quiet bl fs (Claimed k) \<longleftrightarrow>
    length (filter (\<lambda>e. record_key MatchRule e = Some k) fs)
      \<le> length (filter (\<lambda>e. record_key MatchRule e = Some k) es)"
proof -
  from k obtain e where e: "e \<in> set es" "record_key MatchRule e = Some k" by (auto simp: set_record_keys)
  then obtain rule where r: "qualified_rule (snd e) = Some rule" by (auto simp: record_key_rule split: option.splits)
  obtain bi where bi: "claim_bucket bl e = Some bi" "bucket_key (bl ! bi) = k"
    "bucket_count (bl ! bi) = count_list (record_keys MatchRule es) k"
    using rule_mode_claim[OF bl, of e] e k by auto
  have "bin_key bl e rule = Claimed k" using bi by (simp add: bin_key_def)
  then have "key_owner bl (Claimed k) = Some bi"
    using claim_is_owner[OF rule_rows_compiled, of re es e rule] bi(1) bl by simp
  then show ?thesis using bi(3) rule_mode_positions[OF bl k]
    by (simp add: bin_quiet_def count_record_keys)
qed


section \<open>What a recorded baseline can hide\<close>

definition finding_of :: "string \<Rightarrow> string \<Rightarrow> DiagEntry \<Rightarrow> bool" where
  "finding_of f r e = (fst e = f \<and> qualified_rule (snd e) = Some r)"

definition key_of :: "string \<Rightarrow> string \<Rightarrow> BucketKey \<Rightarrow> bool" where
  "key_of f r k = (fst k = f \<and> fst (snd k) = r)"

lemma recorded_of:
  "length (filter (key_of f r) (record_keys mode es)) = length (filter (finding_of f r) es)"
  by (induction es)
    (auto simp: record_keys_Cons record_key_def finding_of_def key_of_def split: option.splits)

lemma surfaced_iff:
  assumes "rows_compiled re bl" "i < length fs"
  shows "i \<in> set (fst (baseline_filter bl fs)) \<longleftrightarrow>
    (case entry_key bl (fs ! i) of None \<Rightarrow> True | Some k \<Rightarrow> bl = [] \<or> \<not> bin_quiet bl fs k)"
proof (cases "bl = []")
  case True
  then show ?thesis using assms(2) by (auto simp: baseline_filter_def split: option.splits)
next
  case False
  have at: "i \<in> set (positions bl fs k) \<longleftrightarrow> entry_key bl (fs ! i) = k" for k
    using assms(2) by (auto simp: positions_def)
  have keyed: "k \<in> set (keys_of bl fs)" if "entry_key bl (fs ! i) = Some k" for k
    using that assms(2) by (auto simp: set_keys_of)
  show ?thesis unfolding baseline_filter_closed[OF assms(1) False]
    using False at keyed by (auto split: option.splits)
qed

text \<open>A hidden finding sits in the bucket of a recorded row of its file and rule.\<close>

lemma hidden_claim:
  assumes bl: "bl = from_diagnostics re es mode" and i: "i < length fs" "finding_of f r (fs ! i)"
    and hidden: "i \<notin> set (fst (baseline_filter bl fs))"
  shows "\<exists>k. entry_key bl (fs ! i) = Some (Claimed k) \<and> k \<in> set (record_keys mode es) \<and> key_of f r k
    \<and> length (positions bl fs (Some (Claimed k))) \<le> count_list (record_keys mode es) k"
proof -
  let ?e = "fs ! i"
  have re: "rows_compiled re bl" unfolding bl by (rule recorded_rows_compiled)
  have rule: "qualified_rule (snd ?e) = Some r" and f: "fst ?e = f" using i(2) by (simp_all add: finding_of_def)
  then have key: "entry_key bl ?e = Some (bin_key bl ?e r)" by (simp add: entry_key_def)
  with hidden surfaced_iff[OF re i(1)] have quiet: "bin_quiet bl fs (bin_key bl ?e r)" by simp
  then obtain j where j: "claim_bucket bl ?e = Some j"
    using claim_is_owner[OF re, of ?e r] by (auto simp: bin_quiet_def split: option.splits)
  let ?k = "bucket_key (bl ! j)"
  have claimed: "bin_key bl ?e r = Claimed ?k" using j by (simp add: bin_key_def)
  have "j < length bl" using j by (rule claim_bucket_lt)
  then have j_lt: "j < length (first_seen (record_keys mode es))" by (simp add: bl from_diagnostics_closed)
  then have row: "bl ! j = recorded_row re ?k (count_list (record_keys mode es) ?k)"
    and mem: "?k \<in> set (record_keys mode es)"
    by (simp_all add: bl from_diagnostics_closed) (metis nth_mem set_first_seen)
  have "row_for ?e (bl ! j)"
    using j by (auto simp: claim_bucket_first first_index_Some message_match_def rule_match_def split: option.splits)
  then have "key_of f r ?k" using rule f by (simp add: row_for_def key_of_def bucket_key_def)
  moreover have "length (positions bl fs (Some (Claimed ?k))) \<le> count_list (record_keys mode es) ?k"
  proof -
    have "key_owner bl (Claimed ?k) = Some j" using claim_is_owner[OF re, of ?e r] j claimed by simp
    moreover have "bucket_count (bl ! j) = count_list (record_keys mode es) ?k" by (subst row) simp
    ultimately show ?thesis using quiet claimed by (simp add: bin_quiet_def)
  qed
  ultimately show ?thesis using key claimed mem by auto
qed

lemma hidden_bounded:
  assumes bl: "bl = from_diagnostics re es mode"
  shows "length (filter (\<lambda>i. finding_of f r (fs ! i) \<and> i \<notin> set (fst (baseline_filter bl fs))) [0 ..< length fs])
    \<le> length (filter (finding_of f r) es)"
proof -
  let ?H = "filter (\<lambda>i. finding_of f r (fs ! i) \<and> i \<notin> set (fst (baseline_filter bl fs))) [0 ..< length fs]"
  let ?rk = "filter (key_of f r) (record_keys mode es)"
  define pos where "pos k = positions bl fs (Some (Claimed k))" for k
  define K where "K = {k \<in> set ?rk. length (pos k) \<le> count_list (record_keys mode es) k}"
  have fin: "finite K" unfolding K_def by simp
  have "set ?H \<subseteq> (\<Union>k \<in> K. set (pos k))"
  proof
    fix i assume "i \<in> set ?H"
    then have i: "i < length fs" "finding_of f r (fs ! i)" "i \<notin> set (fst (baseline_filter bl fs))" by auto
    from hidden_claim[OF bl i] obtain k where "entry_key bl (fs ! i) = Some (Claimed k)" "k \<in> K"
      unfolding K_def pos_def by auto
    then show "i \<in> (\<Union>k \<in> K. set (pos k))" using i(1) by (auto simp: pos_def positions_def)
  qed
  then have "card (set ?H) \<le> card (\<Union>k \<in> K. set (pos k))" using fin by (intro card_mono) auto
  also have "\<dots> \<le> (\<Sum>k \<in> K. card (set (pos k)))" using fin by (rule card_UN_le)
  also have "\<dots> \<le> (\<Sum>k \<in> K. count_list ?rk k)"
  proof (rule sum_mono)
    fix k assume "k \<in> K"
    then have "key_of f r k" "length (pos k) \<le> count_list (record_keys mode es) k" by (auto simp: K_def)
    moreover have "count_list (filter P ks) k = count_list ks k" if "P k" for P and ks :: "BucketKey list"
      using that by (induction ks) auto
    ultimately show "card (set (pos k)) \<le> count_list ?rk k" using card_length[of "pos k"] by (simp add: le_trans)
  qed
  also have "\<dots> \<le> (\<Sum>k \<in> set ?rk. count_list ?rk k)" by (rule sum_mono2) (auto simp: K_def)
  also have "\<dots> = length ?rk" by (rule sum_count_set) auto
  finally have "card (set ?H) \<le> length (filter (finding_of f r) es)"
    by (simp only: recorded_of)
  moreover have "length ?H = card (set ?H)" by (rule distinct_card[symmetric]) simp
  ultimately show ?thesis by (simp only:)
qed

text \<open>In rule mode the filter decides by the counts of the two runs alone.\<close>

lemma rule_mode_surfaced:
  assumes bl: "bl = from_diagnostics re es MatchRule" and i: "i < length fs"
  shows "i \<in> set (fst (baseline_filter bl fs)) \<longleftrightarrow>
    (case qualified_rule (snd (fs ! i)) of None \<Rightarrow> True
     | Some r \<Rightarrow> length (filter (finding_of (fst (fs ! i)) r) es) < length (filter (finding_of (fst (fs ! i)) r) fs))"
proof (cases "qualified_rule (snd (fs ! i))")
  case None
  then show ?thesis using surfaced_iff[OF recorded_rows_compiled i, of re es MatchRule]
    by (simp add: bl entry_key_def)
next
  case (Some r)
  let ?k = "(fst (fs ! i), r, None)"
  have same: "record_key MatchRule e = Some ?k \<longleftrightarrow> finding_of (fst (fs ! i)) r e" for e
    by (auto simp: record_key_rule finding_of_def split: option.splits)
  note surf = surfaced_iff[OF recorded_rows_compiled i, of re es MatchRule, folded bl]
  show ?thesis
  proof (cases "?k \<in> set (record_keys MatchRule es)")
    case True
    then have "bl \<noteq> []" by (auto simp: bl from_diagnostics_rule first_seen_def)
    then show ?thesis
      using surf rule_mode_bin_key[OF bl Some] True rule_mode_quiet[OF bl True, of fs] Some
      by (simp add: same not_le)
  next
    case False
    then have "filter (finding_of (fst (fs ! i)) r) es = []"
      by (auto simp: filter_empty_conv set_record_keys same)
    moreover have "fs ! i \<in> set (filter (finding_of (fst (fs ! i)) r) fs)"
      using i Some by (simp add: finding_of_def)
    then have "filter (finding_of (fst (fs ! i)) r) fs \<noteq> []" by force
    ultimately show ?thesis using surf rule_mode_bin_key[OF bl Some] False Some
      by (simp add: bin_quiet_def key_owner_def)
  qed
qed

end
