(* ===== verification/Baseline_Properties.thy ===== *)
theory Baseline_Properties
  imports Baseline_Laws
begin

text \<open>The properties of the baseline: the filter, and what a recorded run means for later ones.\<close>

text \<open>C31: Under a baseline the filter surfaces the groups of diagnostics whose bucket is missing or
  over its count, whole, in the order their groups first appear, then the diagnostics without a
  rule; it silences the groups within their count. No diagnostic is lost or counted twice, and an
  empty baseline passes everything through.\<close>

theorem baseline_filter_spec:
  assumes "rows_compiled re bl"
  shows "baseline_filter bl es =
      (if bl = [] then ([0 ..< length es], 0)
       else (concat (map (\<lambda>k. positions bl es (Some k))
               (filter (\<lambda>k. \<not> bin_quiet bl es k) (first_seen (keys_of bl es))))
               @ positions bl es None,
             sum_list (map (\<lambda>k. length (positions bl es (Some k)))
               (filter (bin_quiet bl es) (first_seen (keys_of bl es))))))
    \<and> length (fst (baseline_filter bl es)) + snd (baseline_filter bl es) = length es"
proof (cases "bl = []")
  case True
  then show ?thesis by (simp add: baseline_filter_def)
next
  case False
  note closed = baseline_filter_closed[OF assms False, of es]
  have "length (fst (baseline_filter bl es)) + snd (baseline_filter bl es) = length es"
    unfolding closed fst_conv snd_conv length_append length_concat map_map comp_def
    using positions_total[of bl es]
      sum_list_partition[of "\<lambda>k. length (positions bl es (Some k))" "bin_quiet bl es"
        "first_seen (keys_of bl es)"] by linarith
  with closed False show ?thesis by simp
qed

definition sample_diag :: "string \<Rightarrow> string \<Rightarrow> Diagnostic" where
  "sample_diag rule msg = \<lparr> rule_id = rule, start_offset = 0, end_offset = 0, diag_message = msg,
     diag_severity = Error, source_family = ''builtin'', receiver_type = None, method_name = None \<rparr>"

theorem baseline_filter_spec_witness:
  "baseline_filter [rule_row ''a.rb'' ''r1'' 1]
     [(''a.rb'', sample_diag ''r1'' ''m''), (''b.rb'', sample_diag ''r2'' ''m''), (''a.rb'', sample_diag [] ''m'')]
     = ([1, 2], 1)
   \<and> length (fst (baseline_filter [rule_row ''a.rb'' ''r1'' 1] [(''a.rb'', sample_diag ''r1'' ''m'')]))
     + snd (baseline_filter [rule_row ''a.rb'' ''r1'' 1] [(''a.rb'', sample_diag ''r1'' ''m'')]) = 1"
proof -
  have "rows_compiled (\<lambda>_. None) [rule_row ''a.rb'' ''r1'' 1]"
    by (simp add: rows_compiled_def rule_row_def)
  from conjunct2[OF baseline_filter_spec[OF this, of "[(''a.rb'', sample_diag ''r1'' ''m'')]"]]
  have "length (fst (baseline_filter [rule_row ''a.rb'' ''r1'' 1] [(''a.rb'', sample_diag ''r1'' ''m'')]))
     + snd (baseline_filter [rule_row ''a.rb'' ''r1'' 1] [(''a.rb'', sample_diag ''r1'' ''m'')]) = 1"
    by simp
  moreover have "baseline_filter [rule_row ''a.rb'' ''r1'' 1]
     [(''a.rb'', sample_diag ''r1'' ''m''), (''b.rb'', sample_diag ''r2'' ''m''), (''a.rb'', sample_diag [] ''m'')]
     = ([1, 2], 1)" by code_simp
  ultimately show ?thesis by blast
qed

lemma rule_mode_empty:
  "from_diagnostics re es MatchRule = [] \<longleftrightarrow> (\<forall>e \<in> set es. qualified_rule (snd e) = None)"
proof -
  have "record_keys MatchRule es = [] \<longleftrightarrow> (\<forall>e \<in> set es. qualified_rule (snd e) = None)"
    by (induction es) (auto simp: record_keys_Cons record_key_rule split: option.splits)
  then show ?thesis by (simp add: from_diagnostics_rule first_seen_def)
qed

lemma rule_mode_keys:
  assumes bl: "bl = from_diagnostics re es MatchRule" and "k \<in> set (keys_of bl es)"
  shows "\<exists>bk \<in> set (record_keys MatchRule es). k = Claimed bk"
proof -
  from assms(2) obtain e where e: "e \<in> set es" "entry_key bl e = Some k" by (auto simp: set_keys_of)
  then obtain rule where r: "qualified_rule (snd e) = Some rule" by (auto simp: entry_key_def)
  then have "(fst e, rule, None) \<in> set (record_keys MatchRule es)"
    using e(1) by (auto simp: set_record_keys record_key_rule intro!: bexI[of _ e])
  with rule_mode_bin_key[OF bl r] e(2) show ?thesis by auto
qed

text \<open>C16: A baseline recorded in rule mode silences the run it was recorded from: filtering that run
  surfaces exactly the diagnostics without a rule and counts all others as silenced.\<close>

theorem baseline_silences_own_run:
  "baseline_filter (from_diagnostics re es MatchRule) es =
     (filter (\<lambda>i. qualified_rule (snd (es ! i)) = None) [0 ..< length es],
      length (filter (\<lambda>e. qualified_rule (snd e) \<noteq> None) es))"
proof -
  let ?bl = "from_diagnostics re es MatchRule"
  have none: "positions ?bl es None = filter (\<lambda>i. qualified_rule (snd (es ! i)) = None) [0 ..< length es]"
    by (simp add: positions_def entry_key_def)
  show ?thesis
  proof (cases "?bl = []")
    case True
    then have ruleless: "\<forall>e \<in> set es. qualified_rule (snd e) = None" by (simp add: rule_mode_empty)
    then have "filter (\<lambda>i. qualified_rule (snd (es ! i)) = None) [0 ..< length es] = [0 ..< length es]"
      by (auto simp: filter_id_conv)
    with True ruleless show ?thesis by (simp add: baseline_filter_def)
  next
    case False
    have quiet: "bin_quiet ?bl es k" if "k \<in> set (first_seen (keys_of ?bl es))" for k
      using rule_mode_keys[OF refl, of k re es] rule_mode_quiet[OF refl, of _ es re es] that by auto
    then have all: "filter (bin_quiet ?bl es) (first_seen (keys_of ?bl es)) = first_seen (keys_of ?bl es)"
      "filter (\<lambda>k. \<not> bin_quiet ?bl es k) (first_seen (keys_of ?bl es)) = []"
      by (auto simp: filter_id_conv filter_empty_conv)
    have "length (filter (\<lambda>i. qualified_rule (snd (es ! i)) = None) [0 ..< length es])
        + length (filter (\<lambda>e. qualified_rule (snd e) \<noteq> None) es) = length es"
      using length_filter_nth[of "\<lambda>e. qualified_rule (snd e) = None" es]
        sum_length_filter_compl[of "\<lambda>e. qualified_rule (snd e) = None" es] by simp
    then have "sum_list (map (\<lambda>k. length (positions ?bl es (Some k))) (first_seen (keys_of ?bl es)))
        = length (filter (\<lambda>e. qualified_rule (snd e) \<noteq> None) es)"
      using positions_total[of ?bl es] unfolding none by linarith
    then show ?thesis unfolding baseline_filter_closed[OF rule_rows_compiled False] all none by simp
  qed
qed

text \<open>C8: What a recorded baseline can hide of a later run. In either mode it hides at most as many
  diagnostics of a rule in a file as the recorded run had there, so a run with more of them shows
  some. In rule mode the counts of the two runs decide exactly: a diagnostic is shown when it has
  no rule, or when its rule occurs more often in its file than in the recorded run, and then all of
  that rule in that file are. A new diagnostic that takes the place of a fixed one of the same rule
  and file stays hidden.\<close>

theorem baseline_reports_new:
  "length (filter (\<lambda>i. finding_of f r (fs ! i)
        \<and> i \<notin> set (fst (baseline_filter (from_diagnostics re es mode) fs))) [0 ..< length fs])
     \<le> length (filter (finding_of f r) es)
   \<and> list_all (\<lambda>i. i \<in> set (fst (baseline_filter (from_diagnostics re es MatchRule) fs)) \<longleftrightarrow>
       (case qualified_rule (snd (fs ! i)) of
          None \<Rightarrow> True
        | Some rule \<Rightarrow> length (filter (finding_of (fst (fs ! i)) rule) es)
            < length (filter (finding_of (fst (fs ! i)) rule) fs)))
     [0 ..< length fs]"
  using hidden_bounded[OF refl, of f r fs re es mode] rule_mode_surfaced[OF refl, of _ fs re es]
  by (simp add: list_all_iff)

text \<open>In message mode a row searches for its message unanchored, so that a row whose message is
  contained in another one claims both: the baseline does not silence its own run.\<close>

definition substring_search :: Regexes where
  "substring_search p = Some (\<lambda>s. list_ex (\<lambda>i. starts_with p (drop i s)) [0 ..< length s + 1])"

lemma message_rows_overlap:
  "baseline_filter
     (from_diagnostics substring_search
        [(''a.rb'', sample_diag ''r'' ''ab''), (''a.rb'', sample_diag ''r'' ''abc'')] MatchMessage)
     [(''a.rb'', sample_diag ''r'' ''ab''), (''a.rb'', sample_diag ''r'' ''abc'')] = ([0, 1], 0)"
  by code_simp

end
