(* ===== verification/Str_Ops.thy ===== *)
theory Str_Ops
  imports Effect_Labels
begin

text \<open>
  The methods of \<open>str\<close> the guards and the commands use: trimming by the Unicode property
  \<open>White_Space\<close>, searching, replacing, cutting at a character, and the padding of \<open>format!\<close>,
  which counts characters, not bytes.
\<close>

section \<open>Trimming and searching\<close>

definition trim_chars :: "string list \<Rightarrow> string list" where
  "trim_chars cs =
     rev (dropWhile (\<lambda>c. c \<in> set unicode_whitespace)
       (rev (dropWhile (\<lambda>c. c \<in> set unicode_whitespace) cs)))"

definition str_trim :: "string \<Rightarrow> string" where
  "str_trim s = concat (trim_chars (utf8_chars s))"

definition replace_char :: "char \<Rightarrow> string \<Rightarrow> string \<Rightarrow> string" where
  "replace_char c by s = concat (map (\<lambda>x. if x = c then by else [x]) s)"

fun str_contains :: "string \<Rightarrow> string \<Rightarrow> bool" where
  "str_contains p [] = (p = [])"
| "str_contains p (x # xs) = (starts_with p (x # xs) \<or> str_contains p xs)"

fun strip_suffix :: "string \<Rightarrow> string \<Rightarrow> string option" where
  "strip_suffix p s = map_option rev (strip_prefix (rev p) (rev s))"

text \<open>\<open>str::split_once\<close> at the first occurrence of a character; \<open>find\<close> with slicing up to the
  position found is its first half.\<close>

definition split_once :: "char \<Rightarrow> string \<Rightarrow> (string \<times> string) option" where
  "split_once c s =
     (case dropWhile (\<lambda>x. x \<noteq> c) s of [] \<Rightarrow> None | _ # t \<Rightarrow> Some (takeWhile (\<lambda>x. x \<noteq> c) s, t))"

text \<open>A non-empty run of characters of one kind.\<close>

definition run_of :: "(char \<Rightarrow> bool) \<Rightarrow> string \<Rightarrow> bool" where
  "run_of P s = (s \<noteq> [] \<and> (\<forall>c \<in> set s. P c))"

section \<open>Padding\<close>

definition pad_right :: "nat \<Rightarrow> string \<Rightarrow> string" where
  "pad_right w s = s @ replicate (w - length (utf8_chars s)) CHR '' ''"

definition pad_left :: "nat \<Rightarrow> string \<Rightarrow> string" where
  "pad_left w s = replicate (w - length (utf8_chars s)) CHR '' '' @ s"

section \<open>Printed numbers\<close>

lemma digits_of_props:
  "digits_of n \<noteq> [] \<and> list_all is_ascii_digit (digits_of n) \<and> (0 < n \<longrightarrow> hd (digits_of n) \<noteq> CHR ''0'')"
proof (induction n rule: digits_of.induct)
  case (1 n)
  have digit: "is_ascii_digit (char_of (48 + k))" if "k < 10" for k :: nat
    using that by (simp add: is_ascii_digit_def between_def)
  have nonzero: "char_of (48 + k) \<noteq> CHR ''0''" if "0 < k" "k < 10" for k :: nat
  proof
    assume "char_of (48 + k) = CHR ''0''"
    then have "(of_char (char_of (48 + k) :: char) :: nat) = of_char CHR ''0''" by simp
    with that show False by simp
  qed
  show ?case
  proof (cases "n < 10")
    case True
    then show ?thesis using digit[of n] nonzero[of n] by (subst (1 2 3) digits_of.simps) simp
  next
    case False
    then have "0 < n div 10" by simp
    with 1 False digit[of "n mod 10"] show ?thesis by (subst (1 2 3) digits_of.simps) simp
  qed
qed

fun digits_value :: "nat \<Rightarrow> string \<Rightarrow> nat" where
  "digits_value a [] = a"
| "digits_value a (c # cs) = digits_value (10 * a + (of_char c - 48)) cs"

lemma digits_value_append: "digits_value a (s @ t) = digits_value (digits_value a s) t"
  by (induction s arbitrary: a) simp_all

lemma digits_value_of [simp]: "digits_value 0 (digits_of n) = n"
proof (induction n rule: digits_of.induct)
  case (1 n)
  show ?case
  proof (cases "n < 10")
    case False
    with 1 have "digits_value 0 (digits_of (n div 10)) = n div 10" by simp
    with False show ?thesis by (subst digits_of.simps) (simp add: digits_value_append)
  qed (subst digits_of.simps, simp)
qed

lemma digits_of_inj: "digits_of m = digits_of n \<longleftrightarrow> m = n"
  by (metis digits_value_of)

lemma digits_of_clean: "\<not> is_ascii_digit c \<Longrightarrow> c \<notin> set (digits_of n)"
  using digits_of_props[of n] by (auto simp: list_all_iff)

end
