(* ===== verification/Version_Guard.thy ===== *)
theory Version_Guard
  imports Suppression Str_Ops
begin

text \<open>
  Dead arms of version guards (\<open>rigor-rules/src/dead_version_guard.rs\<close>): the reference Ruby,
  the RubyGems version comparator, the verdict of a guard and the filter that drops the
  diagnostics of a dead arm. The lowered tree is its arena: a list of nodes, a child named by
  its index. Of a node the model keeps the fields this module reads; every other variant is
  \<open>OtherNode\<close>. Indexing past the arena panics, which is the outer \<open>None\<close> of the functions that
  read it, as is a recursion that does not end.
\<close>

section \<open>The reference Ruby\<close>

definition HOST_RUBY_VERSION :: string where
  "HOST_RUBY_VERSION = ''4.0.5''"

definition HOST_RUBY_ENGINE :: string where
  "HOST_RUBY_ENGINE = ''ruby''"

record RubyRuntime =
  version :: string
  engine :: string

definition default_runtime :: RubyRuntime where
  "default_runtime = \<lparr> version = HOST_RUBY_VERSION, engine = HOST_RUBY_ENGINE \<rparr>"

definition pick_override :: "string option \<Rightarrow> string \<Rightarrow> string" where
  "pick_override over fallback =
     (case map_option str_trim over of
        Some s \<Rightarrow> if s \<noteq> '''' then s else fallback
      | None \<Rightarrow> fallback)"

definition from_overrides :: "string option \<Rightarrow> string option \<Rightarrow> RubyRuntime" where
  "from_overrides v e =
     \<lparr> version = pick_override v HOST_RUBY_VERSION, engine = pick_override e HOST_RUBY_ENGINE \<rparr>"

datatype Verdict = Truthy | Falsey | UnreadableGuard

section \<open>Versions\<close>

datatype Seg = Num "128 word" | Str string

record GemVersion =
  normalized :: string
  canonical :: "Seg list"

text \<open>\<open>str::parse::<u128>\<close> on a run of decimal digits: an error when the value does not fit.\<close>

definition parse_u128 :: "string \<Rightarrow> 128 word option" where
  "parse_u128 ds =
     (let n = foldl (\<lambda>n c. 10 * n + (of_char c - 48)) (0 :: int) ds
      in if n < 2 ^ 128 then Some (word_of_int n) else None)"

function segments :: "string \<Rightarrow> Seg list option" where
  "segments [] = Some []"
| "segments (c # s) =
     (if is_ascii_digit c then do {
        n \<leftarrow> parse_u128 (c # takeWhile is_ascii_digit s);
        rest \<leftarrow> segments (dropWhile is_ascii_digit s);
        Some (Num n # rest) }
      else if is_ascii_alphabetic c then do {
        rest \<leftarrow> segments (dropWhile is_ascii_alphabetic s);
        Some (Str (c # takeWhile is_ascii_alphabetic s) # rest) }
      else segments s)"
  by pat_completeness auto
termination by (relation "measure length") (auto simp: less_Suc_eq_le length_dropWhile_le)

fun is_str :: "Seg \<Rightarrow> bool" where
  "is_str (Str _) = True"
| "is_str (Num _) = False"

definition trim_zeros :: "Seg list \<Rightarrow> Seg list" where
  "trim_zeros part = rev (dropWhile (\<lambda>s. s = Num 0) (rev part))"

definition canonical_segments :: "Seg list \<Rightarrow> Seg list" where
  "canonical_segments segs =
     trim_zeros (takeWhile (\<lambda>s. \<not> is_str s) segs) @ trim_zeros (dropWhile (\<lambda>s. \<not> is_str s) segs)"

definition correct :: "string \<Rightarrow> bool" where
  "correct text =
     (let body = str_trim text in
      if body = '''' then True
      else
        let head = takeWhile (\<lambda>c. c \<noteq> CHR ''-'') body;
            tail = (case dropWhile (\<lambda>c. c \<noteq> CHR ''-'') body of [] \<Rightarrow> None | _ # t \<Rightarrow> Some t)
        in case split_on CHR ''.'' head of
             [] \<Rightarrow> False
           | first # parts \<Rightarrow>
               first \<noteq> '''' \<and> list_all is_ascii_digit first
               \<and> list_all (\<lambda>p. p \<noteq> '''' \<and> list_all is_ascii_alphanumeric p) parts
               \<and> (case tail of
                    None \<Rightarrow> True
                  | Some t \<Rightarrow> list_all (\<lambda>p. p \<noteq> '''' \<and>
                      list_all (\<lambda>b. is_ascii_alphanumeric b \<or> b = CHR ''-'') p)
                      (split_on CHR ''.'' t)))"

definition parse_gem_version :: "string \<Rightarrow> GemVersion option" where
  "parse_gem_version text =
     (if \<not> correct text then None
      else
        let norm = replace_char CHR ''-'' ''.pre.'' (str_trim text)
        in do {
          segs \<leftarrow> segments norm;
          Some \<lparr> normalized = norm, canonical = canonical_segments segs \<rparr> })"

fun cmp_seg :: "Seg \<Rightarrow> Seg \<Rightarrow> Ordering" where
  "cmp_seg (Str _) (Num _) = Less"
| "cmp_seg (Num _) (Str _) = Greater"
| "cmp_seg (Num a) (Num b) = cmp_of a b"
| "cmp_seg (Str a) (Str b) = cmp_of a b"

definition seg_at :: "Seg list \<Rightarrow> nat \<Rightarrow> Seg" where
  "seg_at segs i = (if i < length segs then segs ! i else Num 0)"

text \<open>The walk over the indices \<open>i..limit\<close>.\<close>

fun cmp_loop :: "Seg list \<Rightarrow> Seg list \<Rightarrow> nat list \<Rightarrow> Ordering" where
  "cmp_loop a b [] = Equal"
| "cmp_loop a b (i # is) =
     (let lhs = seg_at a i; rhs = seg_at b i
      in if lhs = rhs then cmp_loop a b is else cmp_seg lhs rhs)"

definition cmp_rubygems :: "GemVersion \<Rightarrow> GemVersion \<Rightarrow> Ordering" where
  "cmp_rubygems self other =
     (if normalized self = normalized other \<or> canonical self = canonical other then Equal
      else cmp_loop (canonical self) (canonical other)
        [0..<max (length (canonical self)) (length (canonical other))])"

section \<open>The verdict of a guard\<close>

type_synonym NodeId = u32
type_synonym Span = "nat \<times> nat"

datatype Node =
    StringLit (node_span: Span) string
  | ConstantRead (node_span: Span) string bool
  | CallNode (node_span: Span) "NodeId option" string "NodeId list" "NodeId list" bool
  | IfNode (node_span: Span) NodeId "NodeId list" "NodeId list" bool
  | OtherNode (node_span: Span)

type_synonym LoweredAst = "Node list"

definition ast_get :: "LoweredAst \<Rightarrow> NodeId \<Rightarrow> Node option" where
  "ast_get ast nid = (if unat nid < length ast then Some (ast ! unat nid) else None)"

datatype Operand =
    LiteralString string
  | VersionString string
  | EngineName string
  | GemVersionValue GemVersion
  | UnreadableString
  | UnreadableGemVersion

datatype Kind = KLiteralString | KVersionString | KEngine | KGemVersion

fun kind :: "Operand \<Rightarrow> Kind" where
  "kind (LiteralString _) = KLiteralString"
| "kind (VersionString _) = KVersionString"
| "kind UnreadableString = KVersionString"
| "kind (EngineName _) = KEngine"
| "kind (GemVersionValue _) = KGemVersion"
| "kind UnreadableGemVersion = KGemVersion"

fun is_unreadable :: "Operand \<Rightarrow> bool" where
  "is_unreadable UnreadableString = True"
| "is_unreadable UnreadableGemVersion = True"
| "is_unreadable _ = False"

definition VERSION_CONSTANTS :: "string list" where
  "VERSION_CONSTANTS = [''Psych::VERSION'']"

definition is_comparison :: "string \<Rightarrow> bool" where
  "is_comparison m = (m \<in> {''<'', ''<='', ''>'', ''>='', ''=='', ''!=''})"

definition is_equality_operator :: "string \<Rightarrow> bool" where
  "is_equality_operator m = (m \<in> {''=='', ''!=''})"

definition read_constant :: "RubyRuntime \<Rightarrow> string \<Rightarrow> bool \<Rightarrow> Operand option" where
  "read_constant runtime name dynamic_base =
     (if \<not> str_contains ''::'' name \<and> \<not> dynamic_base then
        (if name = ''RUBY_VERSION'' then Some (VersionString (version runtime))
         else if name = ''RUBY_ENGINE'' then Some (EngineName (engine runtime))
         else None)
      else if name \<in> set VERSION_CONSTANTS then Some UnreadableString
      else None)"

fun wrap_version :: "Operand \<Rightarrow> Operand option" where
  "wrap_version (LiteralString s) = map_option GemVersionValue (parse_gem_version s)"
| "wrap_version (VersionString s) = map_option GemVersionValue (parse_gem_version s)"
| "wrap_version (EngineName s) = map_option GemVersionValue (parse_gem_version s)"
| "wrap_version UnreadableString = Some UnreadableGemVersion"
| "wrap_version (GemVersionValue _) = None"
| "wrap_version UnreadableGemVersion = None"

fun is_gem_version_constant :: "Node \<Rightarrow> bool" where
  "is_gem_version_constant (ConstantRead _ name _) = (name = ''Gem::Version'')"
| "is_gem_version_constant _ = False"

fun read_operand_fuel :: "nat \<Rightarrow> LoweredAst \<Rightarrow> NodeId \<Rightarrow> RubyRuntime \<Rightarrow> Operand option option" where
  "read_operand_fuel 0 ast nid runtime = None"
| "read_operand_fuel (Suc n) ast nid runtime = do {
     node \<leftarrow> ast_get ast nid;
     (case node of
        StringLit _ v \<Rightarrow> Some (Some (LiteralString v))
      | ConstantRead _ name dynamic_base \<Rightarrow> Some (read_constant runtime name dynamic_base)
      | CallNode _ receiver method args block_body args_all_plain \<Rightarrow>
          if method \<noteq> ''new'' \<or> block_body \<noteq> [] \<or> \<not> args_all_plain \<or> length args \<noteq> 1
          then Some None
          else (case receiver of
             None \<Rightarrow> Some None
           | Some recv \<Rightarrow> do {
               r \<leftarrow> ast_get ast recv;
               if \<not> is_gem_version_constant r then Some None
               else do {
                 inner \<leftarrow> read_operand_fuel n ast (args ! 0) runtime;
                 Some (Option.bind inner wrap_version) } })
      | _ \<Rightarrow> Some None) }"

definition read_operand :: "LoweredAst \<Rightarrow> NodeId \<Rightarrow> RubyRuntime \<Rightarrow> Operand option option" where
  "read_operand ast nid runtime = read_operand_fuel (Suc (length ast)) ast nid runtime"

fun string_of :: "Operand \<Rightarrow> string" where
  "string_of (LiteralString s) = s"
| "string_of (VersionString s) = s"
| "string_of (EngineName s) = s"
| "string_of _ = ''''"

fun cmp_operands :: "Operand \<Rightarrow> Operand \<Rightarrow> Ordering" where
  "cmp_operands (GemVersionValue a) (GemVersionValue b) = cmp_rubygems a b"
| "cmp_operands l r = cmp_of (string_of l) (string_of r)"

definition apply_operator :: "string \<Rightarrow> Ordering \<Rightarrow> bool option" where
  "apply_operator operator result =
     (if operator = ''<'' then Some (result = Less)
      else if operator = ''<='' then Some (result \<noteq> Greater)
      else if operator = ''>'' then Some (result = Greater)
      else if operator = ''>='' then Some (result \<noteq> Less)
      else if operator = ''=='' then Some (result = Equal)
      else if operator = ''!='' then Some (result \<noteq> Equal)
      else None)"

definition decide :: "Operand \<Rightarrow> Operand \<Rightarrow> string \<Rightarrow> Verdict option" where
  "decide left right operator =
     (let lk = kind left; rk = kind right in
      if (lk = KGemVersion \<or> rk = KGemVersion) \<and> lk \<noteq> rk then None
      else if \<not> (lk = KGemVersion \<or> rk = KGemVersion) \<and> lk = KLiteralString \<and> rk = KLiteralString
      then None
      else if (lk = KEngine \<or> rk = KEngine) \<and> \<not> is_equality_operator operator then None
      else if is_unreadable left \<or> is_unreadable right then Some UnreadableGuard
      else do {
        truthy \<leftarrow> apply_operator operator (cmp_operands left right);
        Some (if truthy then Truthy else Falsey) })"

definition verdict :: "LoweredAst \<Rightarrow> NodeId \<Rightarrow> RubyRuntime \<Rightarrow> Verdict option option" where
  "verdict ast predicate runtime = do {
     node \<leftarrow> ast_get ast predicate;
     (case node of
        CallNode _ receiver method args block_body args_all_plain \<Rightarrow>
          if \<not> is_comparison method then Some None
          else if block_body \<noteq> [] \<or> \<not> args_all_plain \<or> length args \<noteq> 1 then Some None
          else (case receiver of
             None \<Rightarrow> Some None
           | Some recv \<Rightarrow> do {
               l \<leftarrow> read_operand ast recv runtime;
               (case l of
                  None \<Rightarrow> Some None
                | Some left \<Rightarrow> do {
                    r \<leftarrow> read_operand ast (args ! 0) runtime;
                    Some (Option.bind r (\<lambda>right. decide left right method)) }) })
      | _ \<Rightarrow> Some None) }"

section \<open>The filter\<close>

definition widen :: "Span \<Rightarrow> Span \<Rightarrow> Span" where
  "widen acc s = (min (fst acc) (fst s), max (snd acc) (snd s))"

text \<open>The span of every child, or a panic.\<close>

fun child_spans :: "LoweredAst \<Rightarrow> NodeId list \<Rightarrow> Span list option" where
  "child_spans ast [] = Some []"
| "child_spans ast (nid # nids) = do {
     node \<leftarrow> ast_get ast nid;
     rest \<leftarrow> child_spans ast nids;
     Some (node_span node # rest) }"

definition span_hull :: "LoweredAst \<Rightarrow> NodeId list \<Rightarrow> Span option option" where
  "span_hull ast nids = do {
     spans \<leftarrow> child_spans ast nids;
     Some (case spans of [] \<Rightarrow> None | s # rest \<Rightarrow> Some (foldl widen s rest)) }"

definition arm_covers :: "Span \<Rightarrow> nat \<Rightarrow> bool" where
  "arm_covers arm pos = (fst arm \<le> pos \<and> pos < snd arm)"

fun dead_sides :: "Verdict \<Rightarrow> bool \<Rightarrow> bool \<times> bool" where
  "dead_sides Falsey False = (True, False)"
| "dead_sides Truthy True = (True, False)"
| "dead_sides Truthy False = (False, True)"
| "dead_sides Falsey True = (False, True)"
| "dead_sides UnreadableGuard _ = (True, True)"

definition extend_arms :: "LoweredAst \<Rightarrow> bool \<Rightarrow> NodeId list \<Rightarrow> Span list \<Rightarrow> Span list option" where
  "extend_arms ast dead nids arms =
     (if dead then do {
        hull \<leftarrow> span_hull ast nids;
        Some (case hull of None \<Rightarrow> arms | Some s \<Rightarrow> arms @ [s]) }
      else Some arms)"

fun dead_arm_loop :: "LoweredAst \<Rightarrow> RubyRuntime \<Rightarrow> Node list \<Rightarrow> Span list \<Rightarrow> Span list option" where
  "dead_arm_loop ast runtime [] arms = Some arms"
| "dead_arm_loop ast runtime (IfNode _ predicate then_body else_body is_unless # nodes) arms = do {
     decided \<leftarrow> verdict ast predicate runtime;
     (case decided of
        None \<Rightarrow> dead_arm_loop ast runtime nodes arms
      | Some v \<Rightarrow> do {
          arms1 \<leftarrow> extend_arms ast (fst (dead_sides v is_unless)) then_body arms;
          arms2 \<leftarrow> extend_arms ast (snd (dead_sides v is_unless)) else_body arms1;
          dead_arm_loop ast runtime nodes arms2 }) }"
| "dead_arm_loop ast runtime (_ # nodes) arms = dead_arm_loop ast runtime nodes arms"

definition dead_arm_spans :: "LoweredAst \<Rightarrow> RubyRuntime \<Rightarrow> Span list option" where
  "dead_arm_spans ast runtime = dead_arm_loop ast runtime ast []"

definition filter_dead_version_guard_arms_with ::
  "Diagnostic list \<Rightarrow> LoweredAst \<Rightarrow> RubyRuntime \<Rightarrow> Diagnostic list option" where
  "filter_dead_version_guard_arms_with diagnostics ast runtime =
     (if diagnostics = [] then Some diagnostics
      else do {
        arms \<leftarrow> dead_arm_spans ast runtime;
        if arms = [] then Some diagnostics
        else Some (filter (\<lambda>d. starts_with ''suppression.'' (rule_id d)
               \<or> \<not> list_ex (\<lambda>arm. arm_covers arm (start_offset d)) arms) diagnostics) })"

end
