(* ===== verification/Version_Laws.thy ===== *)
theory Version_Laws
  imports Version_Guard
begin

text \<open>
  The comparison of versions is a linear preorder: segments form a \<open>linorder\<close>, the loop over
  the padded lists is their lexicographic comparison, and canonical lists are equal exactly when
  their padded forms are. The grammar of the accepted versions is stated on its own and shown to
  be what \<open>correct\<close> tests.
\<close>

section \<open>Segments in order\<close>

instantiation Seg :: linorder
begin

definition less_Seg :: "Seg \<Rightarrow> Seg \<Rightarrow> bool" where
  "less_Seg a b = (cmp_seg a b = Less)"

definition less_eq_Seg :: "Seg \<Rightarrow> Seg \<Rightarrow> bool" where
  "less_eq_Seg a b = (cmp_seg a b \<noteq> Greater)"

instance
proof
  fix a b c :: Seg
  show "(a < b) = (a \<le> b \<and> \<not> b \<le> a)"
    by (cases a; cases b) (auto simp: less_Seg_def less_eq_Seg_def ord_simps)
  show "a \<le> a" by (cases a) (auto simp: less_eq_Seg_def)
  show "a \<le> b \<Longrightarrow> b \<le> c \<Longrightarrow> a \<le> c"
    by (cases a; cases b; cases c) (auto simp: less_eq_Seg_def ord_simps not_less)
  show "a \<le> b \<Longrightarrow> b \<le> a \<Longrightarrow> a = b"
    by (cases a; cases b) (auto simp: less_eq_Seg_def ord_simps not_less)
  show "a \<le> b \<or> b \<le> a"
    by (cases a; cases b) (auto simp: less_eq_Seg_def ord_simps not_less)
qed

end

lemma cmp_seg_linorder: "cmp_seg a b = cmp_of a b"
  by (cases a; cases b) (auto simp: cmp_of_def less_Seg_def)

section \<open>Padded lists\<close>

definition pad_to :: "nat \<Rightarrow> Seg list \<Rightarrow> Seg list" where
  "pad_to n segs = map (seg_at segs) [0..<n]"

lemma length_pad_to [simp]: "length (pad_to n segs) = n"
  by (simp add: pad_to_def)

lemma pad_to_append: "length segs \<le> n \<Longrightarrow> pad_to n segs = segs @ replicate (n - length segs) (Num 0)"
  by (rule nth_equalityI) (auto simp: pad_to_def seg_at_def nth_append)

lemma cmp_loop_lex: "cmp_loop a b is = cmp_of (map (seg_at a) is) (map (seg_at b) is)"
  by (induction "is") (simp_all add: Let_def cmp_of_Cons cmp_seg_linorder)

lemma cmp_of_suffix: "length xs = length ys \<Longrightarrow> cmp_of (xs @ zs) (ys @ zs) = cmp_of xs ys"
  by (induction xs ys rule: list_induct2) (simp_all add: cmp_of_Cons)

lemma pad_to_more: "length segs \<le> m \<Longrightarrow> m \<le> n \<Longrightarrow>
    pad_to n segs = pad_to m segs @ replicate (n - m) (Num 0)"
  by (simp add: pad_to_append flip: replicate_add)

definition no_trailing_zero :: "Seg list \<Rightarrow> bool" where
  "no_trailing_zero segs = (segs = [] \<or> last segs \<noteq> Num 0)"

lemma padded_neq:
  assumes "no_trailing_zero b" "a @ replicate i (Num 0) = b @ replicate j (Num 0)"
    and "length a < length b"
  shows False
proof -
  have "b \<noteq> []" using assms(3) by auto
  have "last b = (b @ replicate j (Num 0)) ! (length b - 1)"
    using \<open>b \<noteq> []\<close> by (simp add: nth_append last_conv_nth)
  also have "\<dots> = (a @ replicate i (Num 0)) ! (length b - 1)" by (simp only: assms(2))
  also have "\<dots> = Num 0"
  proof -
    have "\<not> length b - 1 < length a" "length b - 1 - length a < i"
      using assms(3) arg_cong[OF assms(2), of length] by simp_all
    then show ?thesis by (simp add: nth_append)
  qed
  finally show False using assms(1) \<open>b \<noteq> []\<close> by (simp add: no_trailing_zero_def)
qed

lemma pad_to_inj:
  assumes "no_trailing_zero a" "no_trailing_zero b" "length a \<le> n" "length b \<le> n"
    and "pad_to n a = pad_to n b"
  shows "a = b"
proof -
  have eq: "a @ replicate (n - length a) (Num 0) = b @ replicate (n - length b) (Num 0)"
    using assms(3-5) by (simp add: pad_to_append)
  have "length a = length b"
    using padded_neq[OF assms(2) eq] padded_neq[OF assms(1) eq[symmetric]] by force
  with eq show ?thesis by simp
qed

lemma trim_zeros_last: "no_trailing_zero (trim_zeros segs)"
proof -
  have "dropWhile (\<lambda>s. s = Num 0) (rev segs) \<noteq> [] \<Longrightarrow> hd (dropWhile (\<lambda>s. s = Num 0) (rev segs)) \<noteq> Num 0"
    by (rule hd_dropWhile)
  then show ?thesis by (auto simp: no_trailing_zero_def trim_zeros_def last_rev)
qed

lemma canonical_no_trailing_zero: "no_trailing_zero (canonical_segments segs)"
  using trim_zeros_last unfolding canonical_segments_def no_trailing_zero_def
  by (metis append_is_Nil_conv last_appendL last_appendR)

section \<open>Versions in order\<close>

definition is_version :: "GemVersion \<Rightarrow> bool" where
  "is_version v = (\<exists>text. parse_gem_version text = Some v)"

lemma version_shape:
  "is_version v \<Longrightarrow> \<exists>segs. segments (normalized v) = Some segs \<and> canonical v = canonical_segments segs"
  by (auto simp: is_version_def parse_gem_version_def Let_def split: if_splits bind_splits)

lemma version_canonical: "is_version v \<Longrightarrow> no_trailing_zero (canonical v)"
  using version_shape canonical_no_trailing_zero by metis

lemma version_normalized:
  "is_version v \<Longrightarrow> is_version w \<Longrightarrow> normalized v = normalized w \<Longrightarrow> canonical v = canonical w"
  using version_shape by (metis option.inject)

text \<open>The comparison in closed form, at any sufficient padding.\<close>

lemma cmp_rubygems_padded:
  assumes "is_version a" "is_version b"
    and n: "length (canonical a) \<le> n" "length (canonical b) \<le> n"
  shows "cmp_rubygems a b = cmp_of (pad_to n (canonical a)) (pad_to n (canonical b))"
proof (cases "canonical a = canonical b")
  case False
  let ?m = "max (length (canonical a)) (length (canonical b))"
  have "normalized a \<noteq> normalized b" using False version_normalized assms(1,2) by metis
  with False have "cmp_rubygems a b = cmp_of (pad_to ?m (canonical a)) (pad_to ?m (canonical b))"
    by (simp add: cmp_rubygems_def cmp_loop_lex pad_to_def)
  also have "\<dots> = cmp_of (pad_to n (canonical a)) (pad_to n (canonical b))"
    using n by (simp add: pad_to_more[of "canonical a" ?m n] pad_to_more[of "canonical b" ?m n]
        cmp_of_suffix length_pad_to)
  finally show ?thesis .
qed (simp add: cmp_rubygems_def)

lemma cmp_rubygems_Equal:
  assumes "is_version a" "is_version b"
  shows "cmp_rubygems a b = Equal \<longleftrightarrow> canonical a = canonical b"
proof -
  let ?m = "max (length (canonical a)) (length (canonical b))"
  have "cmp_rubygems a b = cmp_of (pad_to ?m (canonical a)) (pad_to ?m (canonical b))"
    using assms by (intro cmp_rubygems_padded) auto
  then show ?thesis
    using pad_to_inj[of "canonical a" "canonical b" ?m] assms version_canonical by auto
qed

lemma cmp_of_reverse: "cmp_of y x = ord_reverse (cmp_of x y)"
  by (auto simp: cmp_of_def)

lemma cmp_rubygems_reverse:
  assumes "is_version a" "is_version b"
  shows "cmp_rubygems b a = ord_reverse (cmp_rubygems a b)"
proof -
  let ?m = "max (length (canonical a)) (length (canonical b))"
  show ?thesis
    using cmp_rubygems_padded[OF assms, of ?m] cmp_rubygems_padded[OF assms(2,1), of ?m] cmp_of_reverse
    by simp
qed

lemma cmp_of_not_Greater: "cmp_of x y \<noteq> Greater \<longleftrightarrow> x \<le> y"
  by (auto simp: cmp_of_def)

lemma cmp_rubygems_trans:
  assumes "is_version a" "is_version b" "is_version c"
    and "cmp_rubygems a b \<noteq> Greater" "cmp_rubygems b c \<noteq> Greater"
  shows "cmp_rubygems a c \<noteq> Greater"
proof -
  let ?n = "max (length (canonical a)) (max (length (canonical b)) (length (canonical c)))"
  have "cmp_rubygems a b = cmp_of (pad_to ?n (canonical a)) (pad_to ?n (canonical b))"
    "cmp_rubygems b c = cmp_of (pad_to ?n (canonical b)) (pad_to ?n (canonical c))"
    "cmp_rubygems a c = cmp_of (pad_to ?n (canonical a)) (pad_to ?n (canonical c))"
    using assms(1-3) by (auto intro: cmp_rubygems_padded)
  with assms(4,5) show ?thesis by (simp only: cmp_of_not_Greater)
qed

section \<open>The grammar of versions\<close>

definition dotted :: "string list \<Rightarrow> string" where
  "dotted ps = concat (map (\<lambda>p. CHR ''.'' # p) ps)"

text \<open>The pattern of the reference, without the surrounding white space: digits, dotted
  alphanumeric parts, and optionally a dash with dotted parts that may hold dashes.\<close>

definition dash_or_alnum :: "char \<Rightarrow> bool" where
  "dash_or_alnum b = (is_ascii_alphanumeric b \<or> b = CHR ''-'')"

inductive version_text :: "string \<Rightarrow> bool" where
  release: "run_of is_ascii_digit d \<Longrightarrow> list_all (run_of is_ascii_alphanumeric) ps \<Longrightarrow>
    version_text (d @ dotted ps)"
| prerelease: "run_of is_ascii_digit d \<Longrightarrow> list_all (run_of is_ascii_alphanumeric) ps \<Longrightarrow>
    list_all (run_of dash_or_alnum) (q # qs) \<Longrightarrow>
    version_text (d @ dotted ps @ CHR ''-'' # q @ dotted qs)"

lemma join_dotted: "join_str [CHR ''.''] (d # ps) = d @ dotted ps"
  by (induction ps arbitrary: d) (auto simp: dotted_def)

lemma alnum_not_dot: "is_ascii_alphanumeric c \<Longrightarrow> c \<noteq> CHR ''.'' \<and> c \<noteq> CHR ''-''"
  by (auto simp: is_ascii_alphanumeric_def is_ascii_alphabetic_def is_ascii_digit_def between_def)

lemma digit_alnum: "is_ascii_digit c \<Longrightarrow> is_ascii_alphanumeric c"
  by (simp add: is_ascii_alphanumeric_def)

lemma dash_not_dot: "dash_or_alnum c \<Longrightarrow> c \<noteq> CHR ''.''"
  using alnum_not_dot by (auto simp: dash_or_alnum_def)

lemma split_dotted:
  assumes "\<And>c. P c \<Longrightarrow> c \<noteq> CHR ''.''" "list_all (run_of P) (d # ps)"
  shows "split_on CHR ''.'' (d @ dotted ps) = d # ps"
  using split_join[of "d # ps" "CHR ''.''"] assms
  by (force simp: join_dotted list_all_iff run_of_def)

definition head_ok :: "string \<Rightarrow> bool" where
  "head_ok head = (\<exists>d ps. head = d @ dotted ps \<and> run_of is_ascii_digit d
     \<and> list_all (run_of is_ascii_alphanumeric) ps)"

lemma split_head:
  "head_ok head \<longleftrightarrow> (case split_on CHR ''.'' head of [] \<Rightarrow> False
     | d # ps \<Rightarrow> run_of is_ascii_digit d \<and> list_all (run_of is_ascii_alphanumeric) ps)"
proof
  assume "head_ok head"
  then obtain d ps where h: "head = d @ dotted ps" "run_of is_ascii_digit d"
    "list_all (run_of is_ascii_alphanumeric) ps" by (auto simp: head_ok_def)
  moreover from h(2) have "run_of is_ascii_alphanumeric d"
    by (auto simp: run_of_def digit_alnum)
  ultimately have "split_on CHR ''.'' head = d # ps"
    using split_dotted[of is_ascii_alphanumeric d ps] alnum_not_dot by simp
  with h show "case split_on CHR ''.'' head of [] \<Rightarrow> False
     | d # ps \<Rightarrow> run_of is_ascii_digit d \<and> list_all (run_of is_ascii_alphanumeric) ps" by simp
next
  assume "case split_on CHR ''.'' head of [] \<Rightarrow> False
     | d # ps \<Rightarrow> run_of is_ascii_digit d \<and> list_all (run_of is_ascii_alphanumeric) ps"
  then show "head_ok head" unfolding head_ok_def
    using join_split[of "CHR ''.''" head] join_dotted by (fastforce split: list.splits)
qed

lemma split_tail:
  "(\<exists>q qs. t = q @ dotted qs \<and> list_all (run_of dash_or_alnum) (q # qs))
    \<longleftrightarrow> list_all (run_of dash_or_alnum) (split_on CHR ''.'' t)"
  using split_dotted[of dash_or_alnum] dash_not_dot join_split[of "CHR ''.''" t]
  by (metis join_dotted neq_Nil_conv split_on_not_Nil)

lemma run_of_avoids: "run_of P s \<Longrightarrow> \<not> P c \<Longrightarrow> c \<notin> set s"
  by (auto simp: run_of_def)

lemma dotted_avoids:
  "list_all (run_of P) ps \<Longrightarrow> \<not> P c \<Longrightarrow> c \<noteq> CHR ''.'' \<Longrightarrow> c \<notin> set (dotted ps)"
  by (induction ps) (auto simp: dotted_def run_of_avoids)

lemma head_no_dash:
  assumes "head_ok head" shows "CHR ''-'' \<notin> set head"
proof -
  have "\<not> is_ascii_alphanumeric CHR ''-''" "\<not> is_ascii_digit CHR ''-''"
    using alnum_not_dot digit_alnum by blast+
  with assms show ?thesis
    unfolding head_ok_def by (auto dest: run_of_avoids dotted_avoids)
qed

lemma first_split_unique:
  "x \<notin> set xs \<Longrightarrow> x \<notin> set xs' \<Longrightarrow> xs @ x # ys = xs' @ x # ys' \<Longrightarrow> xs = xs' \<and> ys = ys'"
proof (induction xs arbitrary: xs')
  case Nil
  then show ?case by (cases xs') auto
next
  case (Cons a xs)
  then show ?case by (cases xs') auto
qed

lemma version_text_iff:
  "version_text s \<longleftrightarrow> head_ok s
     \<or> (\<exists>h t. s = h @ CHR ''-'' # t \<and> head_ok h \<and> list_all (run_of dash_or_alnum) (split_on CHR ''.'' t))"
    (is "_ \<longleftrightarrow> _ \<or> ?dashed")
proof
  assume "version_text s"
  then show "head_ok s \<or> ?dashed"
  proof cases
    case (release d ps)
    then show ?thesis unfolding head_ok_def by blast
  next
    case (prerelease d ps q qs)
    then have "head_ok (d @ dotted ps)" unfolding head_ok_def by blast
    moreover have "list_all (run_of dash_or_alnum) (split_on CHR ''.'' (q @ dotted qs))"
      using prerelease(4) by (simp only: flip: split_tail) blast
    moreover have "s = (d @ dotted ps) @ CHR ''-'' # (q @ dotted qs)" using prerelease(1) by simp
    ultimately show ?thesis by blast
  qed
next
  assume "head_ok s \<or> ?dashed"
  then show "version_text s"
  proof
    assume "head_ok s"
    then show ?thesis unfolding head_ok_def by (auto intro: release)
  next
    assume ?dashed
    then obtain h t where s: "s = h @ CHR ''-'' # t" and h: "head_ok h"
      and t: "list_all (run_of dash_or_alnum) (split_on CHR ''.'' t)" by blast
    from h obtain d ps where d: "h = d @ dotted ps" "run_of is_ascii_digit d"
      "list_all (run_of is_ascii_alphanumeric) ps" unfolding head_ok_def by blast
    from t obtain q qs where q: "t = q @ dotted qs" "list_all (run_of dash_or_alnum) (q # qs)"
      by (simp only: flip: split_tail) blast
    show ?thesis using prerelease[OF d(2,3) q(2)] by (simp add: s d(1) q(1))
  qed
qed

lemma run_of_fold: "(\<lambda>p. p \<noteq> [] \<and> list_all P p) = run_of P"
  by (auto simp: run_of_def list_all_iff fun_eq_iff)

lemma run_of_conj: "p \<noteq> [] \<and> list_all P p \<longleftrightarrow> run_of P p"
  by (simp add: run_of_def list_all_iff)

lemma correct_unfolded:
  "correct text \<longleftrightarrow> (let body = str_trim text in body = [] \<or>
     (head_ok (takeWhile (\<lambda>c. c \<noteq> CHR ''-'') body) \<and>
      (case dropWhile (\<lambda>c. c \<noteq> CHR ''-'') body of [] \<Rightarrow> True
       | _ # t \<Rightarrow> list_all (run_of dash_or_alnum) (split_on CHR ''.'' t))))"
proof -
  have dash: "(\<lambda>b. is_ascii_alphanumeric b \<or> b = CHR ''-'') = dash_or_alnum"
    by (simp add: dash_or_alnum_def fun_eq_iff)
  let ?head = "takeWhile (\<lambda>c. c \<noteq> CHR ''-'') (str_trim text)"
  let ?rest = "dropWhile (\<lambda>c. c \<noteq> CHR ''-'') (str_trim text)"
  obtain d ps where parts: "split_on CHR ''.'' ?head = d # ps"
    by (metis neq_Nil_conv split_on_not_Nil)
  have head: "head_ok ?head \<longleftrightarrow> run_of is_ascii_digit d \<and> list_all (run_of is_ascii_alphanumeric) ps"
    by (simp only: split_head parts list.case)
  show ?thesis
    unfolding correct_def Let_def head parts list.case dash run_of_fold
    by (cases ?rest; simp only: list.case option.case run_of_conj[symmetric] simp_thms
        conj_assoc split: if_split; blast)
qed

lemma correct_iff: "correct text \<longleftrightarrow> str_trim text = [] \<or> version_text (str_trim text)"
proof -
  let ?s = "str_trim text"
  have "version_text ?s \<longleftrightarrow> head_ok (takeWhile (\<lambda>c. c \<noteq> CHR ''-'') ?s) \<and>
      (case dropWhile (\<lambda>c. c \<noteq> CHR ''-'') ?s of [] \<Rightarrow> True
       | _ # t \<Rightarrow> list_all (run_of dash_or_alnum) (split_on CHR ''.'' t))"
  proof (cases "CHR ''-'' \<in> set ?s")
    case True
    then obtain h t where s: "?s = h @ CHR ''-'' # t" "CHR ''-'' \<notin> set h"
      by (meson split_list_first)
    then have parts: "takeWhile (\<lambda>c. c \<noteq> CHR ''-'') ?s = h" "dropWhile (\<lambda>c. c \<noteq> CHR ''-'') ?s = CHR ''-'' # t"
      by (auto simp: takeWhile_append dropWhile_append)
    have plain: "\<not> head_ok ?s" using head_no_dash[of ?s] s(1) by auto
    have uniq: "ha = h \<and> ta = t" if "?s = ha @ CHR ''-'' # ta" "head_ok ha" for ha ta
    proof (rule first_split_unique)
      show "CHR ''-'' \<notin> set ha" using that(2) by (rule head_no_dash)
      show "ha @ CHR ''-'' # ta = h @ CHR ''-'' # t" using that(1) s(1) by (rule trans[OF sym])
    qed (rule s(2))
    have "version_text ?s \<longleftrightarrow> head_ok h \<and> list_all (run_of dash_or_alnum) (split_on CHR ''.'' t)"
    proof
      assume "version_text ?s"
      then obtain ha ta where split: "?s = ha @ CHR ''-'' # ta" "head_ok ha"
        and ta: "list_all (run_of dash_or_alnum) (split_on CHR ''.'' ta)"
        unfolding version_text_iff using plain by (elim disjE exE conjE) (erule notE, assumption)
      show "head_ok h \<and> list_all (run_of dash_or_alnum) (split_on CHR ''.'' t)"
        using uniq[OF split] split(2) ta by (elim conjE) (simp only:)
    next
      assume ok: "head_ok h \<and> list_all (run_of dash_or_alnum) (split_on CHR ''.'' t)"
      show "version_text ?s" unfolding version_text_iff
        by (rule disjI2, rule exI[of _ h], rule exI[of _ t], rule conjI[OF s(1) ok])
    qed
    with parts show ?thesis by simp
  next
    case False
    then have parts: "takeWhile (\<lambda>c. c \<noteq> CHR ''-'') ?s = ?s" "dropWhile (\<lambda>c. c \<noteq> CHR ''-'') ?s = []"
      by (auto simp: takeWhile_eq_all_conv)
    from False have "?s \<noteq> h @ CHR ''-'' # t" for h t by (metis in_set_conv_decomp)
    then have "version_text ?s \<longleftrightarrow> head_ok ?s" unfolding version_text_iff by blast
    then show ?thesis by (simp only: parts list.case simp_thms)
  qed
  then show ?thesis by (simp add: correct_unfolded Let_def)
qed

end
