(* ===== verification/Guard_Laws.thy ===== *)
theory Guard_Laws
  imports Version_Laws
begin

text \<open>
  The verdict of a guard and the filter over an arena. In an arena the lowering builds, a child
  is pushed before its parent (\<open>arena_ok\<close>), so the reader of an operand ends within the fuel;
  its answers are those of the inductive relation \<open>denotes\<close>. The filter is described without
  the lists of spans it collects.
\<close>

section \<open>Arenas\<close>

fun children :: "Node \<Rightarrow> NodeId list" where
  "children (CallNode _ receiver _ args block_body _) =
     (case receiver of None \<Rightarrow> [] | Some r \<Rightarrow> [r]) @ args @ block_body"
| "children (IfNode _ predicate then_body else_body _) = predicate # then_body @ else_body"
| "children _ = []"

definition arena_ok :: "LoweredAst \<Rightarrow> bool" where
  "arena_ok ast = (\<forall>i < length ast. \<forall>c \<in> set (children (ast ! i)). unat c < i)"

lemma arena_child:
  "arena_ok ast \<Longrightarrow> i < length ast \<Longrightarrow> c \<in> set (children (ast ! i)) \<Longrightarrow> unat c < i"
  by (simp add: arena_ok_def)

lemma ast_get_Some [simp]:
  "unat nid < length ast \<Longrightarrow> ast_get ast nid = Some (ast ! unat nid)"
  by (simp add: ast_get_def)

section \<open>Operands\<close>

inductive denotes :: "LoweredAst \<Rightarrow> RubyRuntime \<Rightarrow> NodeId \<Rightarrow> Operand \<Rightarrow> bool" for ast runtime where
  lit: "ast_get ast nid = Some (StringLit sp v) \<Longrightarrow> denotes ast runtime nid (LiteralString v)"
| const: "ast_get ast nid = Some (ConstantRead sp name dyn) \<Longrightarrow>
    read_constant runtime name dyn = Some v \<Longrightarrow> denotes ast runtime nid v"
| wrapped: "ast_get ast nid = Some (CallNode sp (Some recv) ''new'' [arg] [] True) \<Longrightarrow>
    ast_get ast recv = Some (ConstantRead sp' ''Gem::Version'' dyn) \<Longrightarrow>
    denotes ast runtime arg inner \<Longrightarrow> wrap_version inner = Some v \<Longrightarrow>
    denotes ast runtime nid v"

inductive_cases denotes_E: "denotes ast runtime nid v"

lemma is_gem_version_constantE:
  "is_gem_version_constant n \<Longrightarrow> (\<And>sp dyn. n = ConstantRead sp ''Gem::Version'' dyn \<Longrightarrow> P) \<Longrightarrow> P"
  by (cases n) auto

lemma singleton_list: "length xs = 1 \<Longrightarrow> xs = [xs ! 0]"
  by (cases xs) auto

lemma read_operand_fuel_sound:
  "read_operand_fuel n ast nid runtime = Some (Some v) \<Longrightarrow> denotes ast runtime nid v"
proof (induction n arbitrary: nid v)
  case (Suc n)
  then obtain node where node: "ast_get ast nid = Some node" by (auto split: bind_splits)
  show ?case
  proof (cases node)
    case (CallNode sp receiver meth args block plain)
    with Suc.prems node obtain recv r inner where
      "meth = ''new''" "block = []" "plain" "length args = 1" "receiver = Some recv"
      and r: "ast_get ast recv = Some r" "is_gem_version_constant r"
      and i: "read_operand_fuel n ast (args ! 0) runtime = Some (Some inner)" "wrap_version inner = Some v"
      by (auto split: if_splits option.splits bind_splits simp: bind_eq_Some_conv)
    with CallNode node have "ast_get ast nid = Some (CallNode sp (Some recv) ''new'' [args ! 0] [] True)"
      using singleton_list by metis
    then show ?thesis using r(2)
    proof (elim is_gem_version_constantE)
      fix sp' dyn assume "r = ConstantRead sp' ''Gem::Version'' dyn"
        "ast_get ast nid = Some (CallNode sp (Some recv) ''new'' [args ! 0] [] True)"
      with Suc.IH[OF i(1)] i(2) r(1) show ?thesis by (blast intro: wrapped)
    qed
  qed (use Suc.prems node in \<open>auto intro: lit const\<close>)
qed simp

lemma read_operand_fuel_total:
  assumes "arena_ok ast"
  shows "unat nid < n \<Longrightarrow> unat nid < length ast \<Longrightarrow> read_operand_fuel n ast nid runtime \<noteq> None"
proof (induction n arbitrary: nid)
  case (Suc n)
  show ?case
  proof (cases "ast ! unat nid")
    case (CallNode sp receiver meth args block plain)
    have below: "unat c < unat nid" if "c \<in> set (children (ast ! unat nid))" for c
      using arena_child[OF assms Suc.prems(2) that] .
    show ?thesis
    proof (cases "meth = ''new'' \<and> block = [] \<and> plain \<and> length args = 1 \<and> receiver \<noteq> None")
      case True
      then obtain recv arg where ra: "receiver = Some recv" "args = [arg]"
        by (cases args) auto
      with below CallNode have "unat recv < unat nid" "unat arg < unat nid" by auto
      with Suc.prems have b: "unat recv < length ast" "unat arg < length ast" "unat arg < n" by simp_all
      obtain inner where "read_operand_fuel n ast arg runtime = Some inner"
        using Suc.IH[OF b(3,2)] by blast
      with True ra b Suc.prems CallNode show ?thesis by simp
    qed (use Suc.prems CallNode in \<open>auto split: option.splits\<close>)
  qed (use Suc.prems in auto)
qed simp

lemma read_operand_total:
  "arena_ok ast \<Longrightarrow> unat nid < length ast \<Longrightarrow> \<exists>r. read_operand ast nid runtime = Some r"
  using read_operand_fuel_total[of ast nid "Suc (length ast)" runtime]
  unfolding read_operand_def by auto

lemma denotes_complete:
  assumes "denotes ast runtime nid v"
  shows "read_operand_fuel n ast nid runtime = Some r \<Longrightarrow> r = Some v"
  using assms
proof (induction n arbitrary: nid v r)
  case (Suc n)
  from Suc.prems(2) show ?case
  proof cases
    case (wrapped sp recv arg sp' dyn inner)
    with Suc.prems(1) obtain i where i: "read_operand_fuel n ast arg runtime = Some i"
      "r = Option.bind i wrap_version" by (auto split: bind_splits)
    with Suc.IH[OF i(1) wrapped(3)] wrapped(4) show ?thesis by simp
  qed (use Suc.prems(1) in auto)
qed simp

lemma read_operand_denotes:
  assumes "arena_ok ast" "unat nid < length ast"
  shows "read_operand ast nid runtime = Some (Some v) \<longleftrightarrow> denotes ast runtime nid v"
proof
  assume "denotes ast runtime nid v"
  with read_operand_total[OF assms, of runtime] show "read_operand ast nid runtime = Some (Some v)"
    using denotes_complete unfolding read_operand_def by metis
next
  assume "read_operand ast nid runtime = Some (Some v)"
  then show "denotes ast runtime nid v"
    unfolding read_operand_def by (rule read_operand_fuel_sound)
qed

section \<open>Guards\<close>

definition operand_ok :: "Operand \<Rightarrow> bool" where
  "operand_ok v = (case v of GemVersionValue g \<Rightarrow> is_version g | _ \<Rightarrow> True)"

lemma wrap_version_ok: "wrap_version inner = Some v \<Longrightarrow> operand_ok v"
  by (cases inner) (auto simp: operand_ok_def is_version_def)

lemma read_constant_ok: "read_constant runtime name dyn = Some v \<Longrightarrow> operand_ok v"
  by (auto simp: read_constant_def operand_ok_def split: if_splits)

lemma denotes_ok:
  assumes "denotes ast runtime nid v" shows "operand_ok v"
  using assms
proof cases
  case (lit sp w)
  then show ?thesis by (simp add: operand_ok_def)
next
  case (const sp name dyn)
  from const(2) show ?thesis by (rule read_constant_ok)
next
  case (wrapped sp recv arg sp' dyn inner)
  from wrapped(4) show ?thesis by (rule wrap_version_ok)
qed

lemma cmp_operands_reverse:
  assumes "operand_ok l" "operand_ok r"
  shows "cmp_operands r l = ord_reverse (cmp_operands l r)"
proof (cases "(l, r)" rule: cmp_operands.cases)
  case (1 a b)
  with assms cmp_rubygems_reverse[of a b] show ?thesis by (simp add: operand_ok_def)
qed (simp_all, (rule cmp_of_reverse)+)

definition negated :: "string \<Rightarrow> string" where
  "negated m = (if m = ''<'' then ''>='' else if m = ''>='' then ''<'' else if m = ''>'' then ''<=''
     else if m = ''<='' then ''>'' else if m = ''=='' then ''!='' else if m = ''!='' then ''=='' else m)"

definition mirrored :: "string \<Rightarrow> string" where
  "mirrored m = (if m = ''<'' then ''>'' else if m = ''>'' then ''<'' else if m = ''<='' then ''>=''
     else if m = ''>='' then ''<='' else m)"

lemma is_comparisonE:
  assumes "is_comparison m"
  obtains "m = ''<''" | "m = ''<=''" | "m = ''>''" | "m = ''>=''" | "m = ''==''" | "m = ''!=''"
  using assms by (auto simp: is_comparison_def)

lemma apply_operator_negated:
  "is_comparison m \<Longrightarrow> apply_operator (negated m) res = map_option Not (apply_operator m res)"
  by (erule is_comparisonE) (simp_all add: apply_operator_def negated_def)

lemma apply_operator_mirrored:
  "is_comparison m \<Longrightarrow> apply_operator (mirrored m) (ord_reverse res) = apply_operator m res"
  by (erule is_comparisonE; cases res) (simp_all add: apply_operator_def mirrored_def)

lemma is_equality_forms:
  assumes "is_comparison m"
  shows "is_equality_operator (negated m) = is_equality_operator m"
    and "is_equality_operator (mirrored m) = is_equality_operator m"
  using assms by (auto elim!: is_comparisonE simp: is_equality_operator_def negated_def mirrored_def)

fun opposite :: "Verdict \<Rightarrow> Verdict" where
  "opposite Truthy = Falsey"
| "opposite Falsey = Truthy"
| "opposite UnreadableGuard = UnreadableGuard"

lemma dead_sides_opposite [simp]: "dead_sides (opposite v) (\<not> u) = dead_sides v u"
  by (cases v; cases u) auto

lemma decide_negated:
  "is_comparison m \<Longrightarrow> decide l r (negated m) = map_option opposite (decide l r m)"
  unfolding decide_def Let_def
  by (cases "kind l"; cases "kind r"; cases "apply_operator m (cmp_operands l r)")
    (simp_all add: is_equality_forms apply_operator_negated)

lemma decide_mirrored:
  assumes "is_comparison m" "operand_ok l" "operand_ok r"
  shows "decide r l (mirrored m) = decide l r m"
  unfolding decide_def Let_def cmp_operands_reverse[OF assms(2,3)]
  by (cases "kind l"; cases "kind r")
    (simp_all add: is_equality_forms apply_operator_mirrored assms(1) disj_commute)

end
