(* ===== verification/Version_Properties.thy ===== *)
theory Version_Properties
  imports Guard_Laws
begin

text \<open>
  The properties of the version guards: the order of versions, the grammar that is accepted, the
  operands a guard reads, the forms of a guard that decide alike, and what the filter drops.
\<close>

section \<open>Hulls and arms\<close>

definition span_of :: "LoweredAst \<Rightarrow> NodeId \<Rightarrow> Span" where
  "span_of ast nid = node_span (ast ! unat nid)"

definition inside :: "LoweredAst \<Rightarrow> NodeId list \<Rightarrow> nat \<Rightarrow> bool" where
  "inside ast nids pos =
     ((\<exists>a \<in> set nids. fst (span_of ast a) \<le> pos) \<and> (\<exists>b \<in> set nids. pos < snd (span_of ast b)))"

text \<open>The positions a node kills as a decided guard, and those any node of the arena kills.\<close>

definition guard_kills :: "LoweredAst \<Rightarrow> RubyRuntime \<Rightarrow> Node \<Rightarrow> nat \<Rightarrow> bool" where
  "guard_kills ast runtime node pos =
     (\<exists>sp predicate then_body else_body is_unless v.
        node = IfNode sp predicate then_body else_body is_unless
        \<and> verdict ast predicate runtime = Some (Some v)
        \<and> ((fst (dead_sides v is_unless) \<and> inside ast then_body pos)
          \<or> (snd (dead_sides v is_unless) \<and> inside ast else_body pos)))"

definition in_dead_arm :: "LoweredAst \<Rightarrow> RubyRuntime \<Rightarrow> nat \<Rightarrow> bool" where
  "in_dead_arm ast runtime pos = (\<exists>node \<in> set ast. guard_kills ast runtime node pos)"

lemma child_spans_Some:
  "\<forall>n \<in> set nids. unat n < length ast \<Longrightarrow> child_spans ast nids = Some (map (span_of ast) nids)"
  by (induction nids) (simp_all add: span_of_def)

lemma widen_covers:
  "arm_covers (foldl widen s spans) pos \<longleftrightarrow>
     (\<exists>x \<in> set (s # spans). fst x \<le> pos) \<and> (\<exists>x \<in> set (s # spans). pos < snd x)"
  by (induction spans arbitrary: s) (auto simp: arm_covers_def widen_def min_le_iff_disj less_max_iff_disj)

lemma extend_arms_spec:
  assumes "\<forall>n \<in> set nids. unat n < length ast"
  shows "\<exists>arms'. extend_arms ast dead nids arms = Some arms'
    \<and> (\<forall>pos. list_ex (\<lambda>arm. arm_covers arm pos) arms' \<longleftrightarrow>
         list_ex (\<lambda>arm. arm_covers arm pos) arms \<or> (dead \<and> inside ast nids pos))"
proof (cases dead)
  case True
  show ?thesis
  proof (cases nids)
    case (Cons n ns)
    have "arm_covers (foldl widen (span_of ast n) (map (span_of ast) ns)) pos \<longleftrightarrow> inside ast nids pos" for pos
      unfolding widen_covers inside_def Cons by simp
    moreover have "span_hull ast nids = Some (Some (foldl widen (span_of ast n) (map (span_of ast) ns)))"
      unfolding span_hull_def child_spans_Some[OF assms] by (simp add: Cons)
    ultimately show ?thesis using True by (simp add: extend_arms_def)
  qed (use True in \<open>simp add: extend_arms_def span_hull_def inside_def\<close>)
qed (simp add: extend_arms_def)

lemma verdict_total:
  assumes ok: "arena_ok ast" and "unat predicate < length ast"
  shows "\<exists>v. verdict ast predicate runtime = Some v"
proof (cases "ast ! unat predicate")
  case (CallNode sp receiver meth args block plain)
  have below: "unat c < length ast" if "c \<in> set (children (ast ! unat predicate))" for c
    using arena_child[OF ok assms(2) that] assms(2) by simp
  show ?thesis
  proof (cases "is_comparison meth \<and> block = [] \<and> plain \<and> length args = 1 \<and> receiver \<noteq> None")
    case True
    then obtain recv arg where ra: "receiver = Some recv" "args = [arg]" by (cases args) auto
    with below CallNode have "unat recv < length ast" "unat arg < length ast" by auto
    then obtain l r where "read_operand ast recv runtime = Some l" "read_operand ast arg runtime = Some r"
      using read_operand_total[OF ok] by meson
    with True ra CallNode assms(2) show ?thesis by (simp add: verdict_def split: option.split)
  qed (use CallNode assms(2) in \<open>auto simp: verdict_def split: option.splits\<close>)
qed (use assms(2) in \<open>simp_all add: verdict_def\<close>)

lemma dead_arm_loop_spec:
  assumes "arena_ok ast" and "\<forall>node \<in> set nodes. \<forall>c \<in> set (children node). unat c < length ast"
  shows "\<exists>arms'. dead_arm_loop ast runtime nodes arms = Some arms'
    \<and> (\<forall>pos. list_ex (\<lambda>arm. arm_covers arm pos) arms' \<longleftrightarrow>
         list_ex (\<lambda>arm. arm_covers arm pos) arms \<or> (\<exists>node \<in> set nodes. guard_kills ast runtime node pos))"
  using assms(2)
proof (induction nodes arbitrary: arms)
  case (Cons node nodes)
  then have IH: "\<exists>arms'. dead_arm_loop ast runtime nodes as = Some arms'
    \<and> (\<forall>pos. list_ex (\<lambda>arm. arm_covers arm pos) arms' \<longleftrightarrow>
         list_ex (\<lambda>arm. arm_covers arm pos) as \<or> (\<exists>node \<in> set nodes. guard_kills ast runtime node pos))" for as
    by simp
  show ?case
  proof (cases node)
    case (IfNode sp p t e u)
    with Cons.prems have b: "unat p < length ast" "\<forall>n \<in> set t. unat n < length ast"
      "\<forall>n \<in> set e. unat n < length ast" by auto
    obtain d where d: "verdict ast p runtime = Some d" using verdict_total[OF assms(1) b(1)] by blast
    show ?thesis
    proof (cases d)
      case None
      then show ?thesis using IH[of arms] d IfNode by (simp add: guard_kills_def)
    next
      case (Some v)
      obtain a1 where a1: "extend_arms ast (fst (dead_sides v u)) t arms = Some a1"
        "\<And>pos. list_ex (\<lambda>arm. arm_covers arm pos) a1 \<longleftrightarrow>
         list_ex (\<lambda>arm. arm_covers arm pos) arms \<or> (fst (dead_sides v u) \<and> inside ast t pos)"
        using extend_arms_spec[OF b(2)] by blast
      obtain a2 where a2: "extend_arms ast (snd (dead_sides v u)) e a1 = Some a2"
        "\<And>pos. list_ex (\<lambda>arm. arm_covers arm pos) a2 \<longleftrightarrow>
         list_ex (\<lambda>arm. arm_covers arm pos) a1 \<or> (snd (dead_sides v u) \<and> inside ast e pos)"
        using extend_arms_spec[OF b(3)] by blast
      have "guard_kills ast runtime node pos \<longleftrightarrow>
          (fst (dead_sides v u) \<and> inside ast t pos) \<or> (snd (dead_sides v u) \<and> inside ast e pos)" for pos
        by (simp add: guard_kills_def IfNode d Some)
      with IH[of a2] show ?thesis by (simp add: IfNode d Some a1 a2 disj_assoc)
    qed
  qed (use IH[of arms] in \<open>simp_all add: guard_kills_def\<close>)
qed simp

lemma arena_children:
  assumes "arena_ok ast" "node \<in> set ast" "c \<in> set (children node)"
  shows "unat c < length ast"
proof -
  obtain i where i: "i < length ast" "node = ast ! i" using assms(2) by (auto simp: in_set_conv_nth)
  with arena_child[OF assms(1) i(1)] assms(3) show ?thesis by fastforce
qed

section \<open>Properties\<close>

text \<open>C22: RubyGems versions compare as a total preorder. Two parsed versions compare \<open>Equal\<close>
  exactly when their canonical segments are the same (so trailing zeros do not matter and the
  fast path on the text is sound), swapping the operands reverses the answer, and the relation
  is transitive.\<close>

theorem version_order_total:
  assumes "parse_gem_version s = Some a" "parse_gem_version t = Some b" "parse_gem_version u = Some c"
  shows "(cmp_rubygems a b = Equal \<longleftrightarrow> canonical a = canonical b)
    \<and> cmp_rubygems b a = ord_reverse (cmp_rubygems a b)
    \<and> (cmp_rubygems a b \<noteq> Greater \<longrightarrow> cmp_rubygems b c \<noteq> Greater \<longrightarrow> cmp_rubygems a c \<noteq> Greater)"
proof -
  have v: "is_version a" "is_version b" "is_version c" using assms by (auto simp: is_version_def)
  show ?thesis
    by (rule conjI[OF cmp_rubygems_Equal[OF v(1,2)] conjI[OF cmp_rubygems_reverse[OF v(1,2)]]])
      (rule impI, rule impI, rule cmp_rubygems_trans[OF v])
qed

theorem version_order_total_witness:
  "\<exists>a b c. parse_gem_version ''1.0'' = Some a \<and> parse_gem_version ''1'' = Some b
     \<and> parse_gem_version ''1.0-b2'' = Some c
     \<and> cmp_rubygems a b = Equal \<and> canonical a = canonical b
     \<and> cmp_rubygems b c = Greater \<and> cmp_rubygems c b = Less"
proof -
  have p: "parse_gem_version ''1.0'' = Some \<lparr> normalized = ''1.0'', canonical = [Num 1] \<rparr>"
    "parse_gem_version ''1'' = Some \<lparr> normalized = ''1'', canonical = [Num 1] \<rparr>"
    "parse_gem_version ''1.0-b2'' = Some \<lparr> normalized = ''1.0.pre.b2'',
       canonical = [Num 1, Str ''pre'', Str ''b'', Num 2] \<rparr>"
    by code_simp+
  have g: "cmp_rubygems \<lparr> normalized = ''1'', canonical = [Num 1] \<rparr>
      \<lparr> normalized = ''1.0.pre.b2'', canonical = [Num 1, Str ''pre'', Str ''b'', Num 2] \<rparr> = Greater"
    by code_simp
  show ?thesis using version_order_total[OF p(1,2,3)] version_order_total[OF p(2,3,1)] p g by simp
qed

text \<open>C33: the hand-rolled recogniser accepts exactly the language of RubyGems' version pattern:
  after trimming, nothing at all, or a digit run with dotted alphanumeric parts and optionally a
  dash with dotted parts that may hold dashes. Such a text parses unless a digit run overflows
  the 128 bits.\<close>

theorem version_grammar:
  "correct text \<longleftrightarrow> str_trim text = [] \<or> version_text (str_trim text)"
  by (rule correct_iff)

text \<open>C28: over an arena the lowering builds, reading an operand ends, never indexes out of
  bounds, and answers exactly what the declarative reading of the tree allows: a literal, a
  version or engine constant, a curated constant whose value is unknown, or a single
  \<open>Gem::Version.new\<close> of one of the string kinds.\<close>

theorem operand_denotation:
  assumes "arena_ok ast" "unat nid < length ast"
  shows "(\<exists>r. read_operand ast nid runtime = Some r)
    \<and> (\<forall>v. read_operand ast nid runtime = Some (Some v) \<longleftrightarrow> denotes ast runtime nid v)"
  using read_operand_total[OF assms] read_operand_denotes[OF assms] by blast

definition sample_arena :: LoweredAst where
  "sample_arena =
     [ConstantRead (3, 15) ''RUBY_VERSION'' False,
      StringLit (18, 24) ''2.7.'',
      CallNode (3, 24) (Some 0) ''<'' [1] [] True,
      OtherNode (27, 40),
      OtherNode (45, 50),
      IfNode (0, 54) 2 [3] [4] False]"

lemma sample_arena_ok: "arena_ok sample_arena"
  by code_simp

theorem operand_denotation_witness:
  "denotes sample_arena default_runtime 0 (VersionString ''4.0.5'')"
proof -
  have b: "unat (0 :: u32) < length sample_arena" by (simp add: sample_arena_def)
  have r: "read_operand sample_arena 0 default_runtime = Some (Some (VersionString ''4.0.5''))"
    by code_simp
  from operand_denotation[OF sample_arena_ok b, of default_runtime] r show ?thesis by blast
qed

text \<open>The ways to write one guard agree. With the operator negated under \<open>unless\<close>, or with
  the operands swapped and the operator mirrored, a guard is decided exactly when the original is
  and kills the same arms.\<close>

theorem guard_forms_agree:
  assumes "is_comparison m" "denotes ast runtime p l" "denotes ast runtime q r"
  shows "map_option (\<lambda>v. dead_sides v (\<not> u)) (decide l r (negated m))
      = map_option (\<lambda>v. dead_sides v u) (decide l r m)
    \<and> decide r l (mirrored m) = decide l r m"
  using decide_negated[OF assms(1)] decide_mirrored[OF assms(1) denotes_ok denotes_ok] assms(2,3)
  by (simp add: option.map_comp o_def)

theorem guard_forms_agree_witness:
  "decide (LiteralString ''2.7.'') (VersionString ''4.0.5'') ''>'' = Some Falsey"
proof -
  have d: "denotes sample_arena default_runtime 0 (VersionString ''4.0.5'')"
    "denotes sample_arena default_runtime 1 (LiteralString ''2.7.'')"
    by (rule denotes.const[of _ _ "(3, 15)" "''RUBY_VERSION''" False] denotes.lit[of _ _ "(18, 24)"]; code_simp)+
  have c: "is_comparison ''<''" "mirrored ''<'' = ''>''"
    "decide (VersionString ''4.0.5'') (LiteralString ''2.7.'') ''<'' = Some Falsey"
    by code_simp+
  from guard_forms_agree[OF c(1) d(1,2)] c(2,3) show ?thesis by simp
qed

text \<open>C10: the filter is exact and always returns. Over an arena the lowering builds it keeps
  precisely the diagnostics of the \<open>suppression.\<close> family and those outside every arm that a
  decided guard kills, in their order; an arm reaches from the least start to the greatest end of
  its nodes, the end excluded.\<close>

theorem guard_filter_exact:
  assumes "arena_ok ast"
  shows "filter_dead_version_guard_arms_with diagnostics ast runtime =
    Some (filter (\<lambda>d. starts_with ''suppression.'' (rule_id d)
      \<or> \<not> in_dead_arm ast runtime (start_offset d)) diagnostics)"
proof -
  obtain arms where arms: "dead_arm_spans ast runtime = Some arms"
    and cov: "\<And>pos. list_ex (\<lambda>arm. arm_covers arm pos) arms \<longleftrightarrow> in_dead_arm ast runtime pos"
    using dead_arm_loop_spec[OF assms, of ast runtime "[]"] arena_children[OF assms]
    unfolding dead_arm_spans_def in_dead_arm_def by auto
  have "\<not> in_dead_arm ast runtime pos" if "arms = []" for pos using cov[of pos] that by simp
  then show ?thesis
    by (simp add: filter_dead_version_guard_arms_with_def arms cov)
qed

definition sample_diagnostic :: "string \<Rightarrow> nat \<Rightarrow> Diagnostic" where
  "sample_diagnostic rule pos = \<lparr> rule_id = rule, start_offset = pos, end_offset = pos + 1,
     diag_message = '''', diag_severity = Error, source_family = ''builtin'',
     receiver_type = None, method_name = None \<rparr>"

theorem guard_filter_exact_witness:
  "in_dead_arm sample_arena default_runtime 30 \<and> \<not> in_dead_arm sample_arena default_runtime 46"
proof -
  let ?ds = "[sample_diagnostic ''call.wrong-arity'' 30, sample_diagnostic ''call.wrong-arity'' 46]"
  have "filter_dead_version_guard_arms_with ?ds sample_arena default_runtime
    = Some [sample_diagnostic ''call.wrong-arity'' 46]"
    by code_simp
  with guard_filter_exact[OF sample_arena_ok, of ?ds default_runtime] show ?thesis
    by (simp add: sample_diagnostic_def split: if_splits)
qed

end
