(* ===== verification/Triage.thy ===== *)
theory Triage
  imports Suppression Str_Ops
begin

text \<open>
  The summary of a diagnostic stream (\<open>rigor-cli/src/triage.rs\<close>): the counts, the three volume
  views, the hints and the text rendering. A \<open>HashMap\<close> built by \<open>entry\<close> is its list of entries
  in the order the keys first appear; what order its iteration delivers them in is not
  specified, so every iteration goes through a field of \<open>HashOrder\<close>, an argument of the
  definitions that is only known to permute.
\<close>

section \<open>Hash maps\<close>

type_synonym DiagRef = "string \<times> Diagnostic"

record HashOrder =
  counts_order :: "(string \<times> nat) list \<Rightarrow> (string \<times> nat) list"
  selectors_order ::
    "((string option \<times> string) \<times> DiagRef list) list \<Rightarrow> ((string option \<times> string) \<times> DiagRef list) list"
  files_order :: "(string \<times> DiagRef list) list \<Rightarrow> (string \<times> DiagRef list) list"
  clusters_order :: "((string \<times> string) \<times> nat list) list \<Rightarrow> ((string \<times> string) \<times> nat list) list"
  rules_order :: "(string \<times> nat list) list \<Rightarrow> (string \<times> nat list) list"

text \<open>\<open>*map.entry(k).or_insert(0) += 1\<close> and \<open>map.entry(k).or_default().push(v)\<close>.\<close>

fun entry_count :: "'k \<Rightarrow> ('k \<times> nat) list \<Rightarrow> ('k \<times> nat) list" where
  "entry_count k [] = [(k, 1)]"
| "entry_count k ((k', n) # m) = (if k = k' then (k', n + 1) # m else (k', n) # entry_count k m)"

fun entry_push :: "'k \<Rightarrow> 'v \<Rightarrow> ('k \<times> 'v list) list \<Rightarrow> ('k \<times> 'v list) list" where
  "entry_push k v [] = [(k, [v])]"
| "entry_push k v ((k', vs) # m) =
     (if k = k' then (k', vs @ [v]) # m else (k', vs) # entry_push k v m)"

definition group_count :: "string list \<Rightarrow> (string \<times> nat) list" where
  "group_count items = foldl (\<lambda>m k. entry_count k m) [] items"

definition group_on :: "('v \<Rightarrow> 'k) \<Rightarrow> 'v list \<Rightarrow> ('k \<times> 'v list) list" where
  "group_on f xs = foldl (\<lambda>m x. entry_push (f x) x m) [] xs"

text \<open>\<open>Iterator::max_by\<close>: of equal maxima the last.\<close>

fun max_by :: "('a \<Rightarrow> 'a \<Rightarrow> Ordering) \<Rightarrow> 'a list \<Rightarrow> 'a option" where
  "max_by c [] = None"
| "max_by c (x # xs) = Some (foldl (\<lambda>x y. if c x y = Greater then x else y) x xs)"

text \<open>\<open>sort_unstable\<close>, \<open>dedup\<close>, \<open>len\<close> of a list of paths.\<close>

definition distinct_paths :: "string list \<Rightarrow> nat" where
  "distinct_paths fs = length (remdups_adj (sort fs))"

section \<open>The report\<close>

record Summary =
  total :: nat
  errors :: nat
  warnings :: nat
  infos :: nat

record RuleCount =
  row_rule :: string
  row_count :: nat

record Selector =
  sel_receiver :: "string option"
  sel_method :: string
  sel_count :: nat
  sel_files :: nat
  sel_rules :: "(string \<times> nat) list"

record Hotspot =
  spot_file :: string
  spot_count :: nat
  by_rule :: "(string \<times> nat) list"

record Hint =
  hint_id :: string
  confidence :: string
  diagnostic_count :: nat
  hint_summary :: string
  hint_action :: string

record Report =
  report_summary :: Summary
  distribution :: "RuleCount list"
  selectors :: "Selector list"
  hotspots :: "Hotspot list"
  hints :: "Hint list"
  include_info :: bool

definition UNCATEGORISED :: string where
  "UNCATEGORISED = ''(uncategorised)''"

text \<open>The code's \<open>qualified_rule\<close> of this file.\<close>

definition rule_bucket :: "Diagnostic \<Rightarrow> string" where
  "rule_bucket d =
     (case qualified_rule d of
        None \<Rightarrow> UNCATEGORISED
      | Some rule \<Rightarrow>
          if source_family d = '''' \<or> source_family d = ''builtin'' then rule
          else source_family d @ ''.'' @ rule)"

fun count_severity :: "DiagRef list \<Rightarrow> nat \<Rightarrow> nat \<Rightarrow> nat \<Rightarrow> nat \<times> nat \<times> nat" where
  "count_severity [] e w i = (e, w, i)"
| "count_severity ((_, d) # ds) e w i =
     (case diag_severity d of
        Error \<Rightarrow> count_severity ds (e + 1) w i
      | Warning \<Rightarrow> count_severity ds e (w + 1) i
      | Info \<Rightarrow> count_severity ds e w (i + 1))"

definition build_summary :: "DiagRef list \<Rightarrow> Summary" where
  "build_summary diags =
     (let (e, w, i) = count_severity diags 0 0 0
      in \<lparr> total = length diags, errors = e, warnings = w, infos = i \<rparr>)"

definition count_desc :: "string \<times> nat \<Rightarrow> string \<times> nat \<Rightarrow> Ordering" where
  "count_desc a b = ord_then (cmp_of (snd b) (snd a)) (cmp_of (fst a) (fst b))"

definition build_distribution :: "HashOrder \<Rightarrow> DiagRef list \<Rightarrow> RuleCount list" where
  "build_distribution h diags =
     sort_by (\<lambda>a b. ord_then (cmp_of (row_count b) (row_count a)) (cmp_of (row_rule a) (row_rule b)))
       (map (\<lambda>(rule, n). \<lparr> row_rule = rule, row_count = n \<rparr>)
         (counts_order h (group_count (map (\<lambda>(_, d). rule_bucket d) diags))))"

definition sorted_rule_counts :: "HashOrder \<Rightarrow> DiagRef list \<Rightarrow> (string \<times> nat) list" where
  "sorted_rule_counts h members =
     sort_by count_desc (counts_order h (group_count (map (\<lambda>(_, d). rule_bucket d) members)))"

definition build_hotspots :: "HashOrder \<Rightarrow> DiagRef list \<Rightarrow> nat \<Rightarrow> Hotspot list" where
  "build_hotspots h diags limit =
     take limit (sort_by
       (\<lambda>a b. ord_then (cmp_of (spot_count b) (spot_count a)) (cmp_of (spot_file a) (spot_file b)))
       (map (\<lambda>(f, members). \<lparr> spot_file = f, spot_count = length members, by_rule = sorted_rule_counts h members \<rparr>)
         (files_order h (group_on fst diags))))"

section \<open>Selectors\<close>

definition is_float_literal :: "string \<Rightarrow> bool" where
  "is_float_literal t =
     (let body = (case strip_prefix ''-'' t of Some b \<Rightarrow> b | None \<Rightarrow> t)
      in case split_once CHR ''.'' body of
           Some (i, f) \<Rightarrow> i \<noteq> '''' \<and> f \<noteq> '''' \<and> list_all is_ascii_digit i \<and> list_all is_ascii_digit f
         | None \<Rightarrow> False)"

definition is_class_path :: "string \<Rightarrow> bool" where
  "is_class_path t =
     (t \<noteq> '''' \<and> list_all (\<lambda>b. b = CHR '':'' \<or> b = CHR ''_'' \<or> is_ascii_alphanumeric b) t)"

definition bracket_head :: "string \<Rightarrow> string option" where
  "bracket_head t =
     (case split_once CHR ''['' t of
        Some (head, _) \<Rightarrow> if is_class_path head then Some head else None
      | None \<Rightarrow> None)"

definition singleton_inner :: "string \<Rightarrow> string option" where
  "singleton_inner t =
     (case Option.bind (strip_prefix ''singleton('' t) (strip_suffix '')'') of
        Some inner \<Rightarrow> if is_class_path inner then Some inner else None
      | None \<Rightarrow> None)"

definition normalize_receiver :: "string \<Rightarrow> string option" where
  "normalize_receiver token =
     (let t = str_trim token in
      if t = '''' then None
      else
        let body = (case strip_prefix ''-'' t of Some b \<Rightarrow> b | None \<Rightarrow> t) in
        if body \<noteq> '''' \<and> list_all is_ascii_digit body then Some ''Integer''
        else if is_float_literal t then Some ''Float''
        else if starts_with [dquote] t \<or> starts_with [CHR 0x27] t then Some ''String''
        else if starts_with '':'' t then Some ''Symbol''
        else case singleton_inner t of
          Some inner \<Rightarrow> Some inner
        | None \<Rightarrow>
            if starts_with ''Array['' t then Some t
            else case bracket_head t of
              Some head \<Rightarrow> Some head
            | None \<Rightarrow> if is_class_path t then Some t else None)"

definition selector_receiver :: "string option \<Rightarrow> string option" where
  "selector_receiver rt =
     (case rt of
        None \<Rightarrow> None
      | Some token \<Rightarrow>
          (case normalize_receiver token of Some r \<Rightarrow> Some r | None \<Rightarrow> Some token))"

definition selector_group :: "DiagRef \<Rightarrow> string option \<times> string" where
  "selector_group p = (selector_receiver (receiver_type (snd p)), the (method_name (snd p)))"

definition receiver_text :: "Selector \<Rightarrow> string" where
  "receiver_text s = (case sel_receiver s of Some r \<Rightarrow> r | None \<Rightarrow> '''')"

definition selector_cmp :: "Selector \<Rightarrow> Selector \<Rightarrow> Ordering" where
  "selector_cmp a b =
     ord_then (cmp_of (sel_count b) (sel_count a))
       (ord_then (cmp_of (receiver_text a) (receiver_text b)) (cmp_of (sel_method a) (sel_method b)))"

definition build_selectors :: "HashOrder \<Rightarrow> DiagRef list \<Rightarrow> Selector list" where
  "build_selectors h diags =
     sort_by selector_cmp
       (map (\<lambda>((receiver, meth), members).
           \<lparr> sel_receiver = receiver, sel_method = meth, sel_count = length members,
             sel_files = distinct_paths (map fst members), sel_rules = sorted_rule_counts h members \<rparr>)
         (selectors_order h (group_on selector_group
           (filter (\<lambda>(_, d). method_name d \<noteq> None) diags))))"

section \<open>Hints\<close>

definition UNRESOLVED_TOPLEVEL_RULE :: string where
  "UNRESOLVED_TOPLEVEL_RULE = ''call.unresolved-toplevel''"

definition SYSTEMIC_THRESHOLD :: nat where
  "SYSTEMIC_THRESHOLD = 8"

definition GENUINE_BUG_MAX_COUNT :: nat where
  "GENUINE_BUG_MAX_COUNT = 5"

abbreviation times_sign :: string where
  "times_sign \<equiv> [CHR 0xC3, CHR 0x97]"

definition counted :: "string \<times> nat \<Rightarrow> string" where
  "counted row = fst row @ times_sign @ digits_of (snd row)"

definition top_methods :: "HashOrder \<Rightarrow> string option list \<Rightarrow> string" where
  "top_methods h names =
     join_str '' '' (map counted (take 5 (sort_by count_desc
       (counts_order h (group_count (map the (filter (\<lambda>n. n \<noteq> None) names)))))))"

definition H7_ACTION :: string where
  "H7_ACTION = ''If a monkey-patch or required helper defines these, list its '' @
               ''file in `.rigor.yml`'' @ [CHR 0x27] @ ''s `pre_eval:` (ADR-17); otherwise they may '' @
               ''be genuine typos or missing requires.''"

definition H5_ACTION :: string where
  "H5_ACTION = ''Likely systemic in this file '' @ [CHR 0xE2, CHR 0x80, CHR 0x94] @
               '' one fix may clear many; or a strong baseline candidate (ADR-22).''"

definition H6_ACTION :: string where
  "H6_ACTION = ''Review these first '' @ [CHR 0xE2, CHR 0x80, CHR 0x94] @
               '' low-count diagnostics are usually the localised bugs Rigor caught, not systemic noise.''"

definition h7_unresolved_toplevel ::
  "HashOrder \<Rightarrow> DiagRef list \<Rightarrow> nat list \<Rightarrow> (Hint \<times> nat list) option" where
  "h7_unresolved_toplevel h diags pool =
     (let matched = filter (\<lambda>i. rule_bucket (snd (diags ! i)) = UNRESOLVED_TOPLEVEL_RULE) pool in
      if matched = [] then None
      else
        let paths = distinct_paths (map (\<lambda>i. fst (diags ! i)) matched);
            methods = top_methods h (map (\<lambda>i. method_name (snd (diags ! i))) matched)
        in Some (\<lparr> hint_id = ''unresolved-toplevel'', confidence = ''possible'',
             diagnostic_count = length matched,
             hint_summary = digits_of (length matched) @
               '' toplevel call(s) resolve to nothing visible across '' @ digits_of paths @
               '' file(s) ('' @ methods @ '')'',
             hint_action = H7_ACTION \<rparr>, matched))"

definition cluster_cmp ::
  "(string \<times> string) \<times> nat list \<Rightarrow> (string \<times> string) \<times> nat list \<Rightarrow> Ordering" where
  "cluster_cmp a b = ord_then (cmp_of (length (snd a)) (length (snd b))) (cmp_of (fst b) (fst a))"

definition h5_systemic_cluster ::
  "HashOrder \<Rightarrow> DiagRef list \<Rightarrow> nat list \<Rightarrow> (Hint \<times> nat list) option" where
  "h5_systemic_cluster h diags pool =
     (case max_by cluster_cmp (filter (\<lambda>(_, v). length v \<ge> SYSTEMIC_THRESHOLD)
         (clusters_order h
           (group_on (\<lambda>i. (fst (diags ! i), rule_bucket (snd (diags ! i)))) pool))) of
        None \<Rightarrow> None
      | Some ((path, rule), matched) \<Rightarrow>
          Some (\<lparr> hint_id = ''systemic-file-cluster'', confidence = ''likely'',
             diagnostic_count = length matched,
             hint_summary = digits_of (length matched) @ times_sign @ '' `'' @ rule @
               ''` concentrated in '' @ path,
             hint_action = H5_ACTION \<rparr>, matched))"

definition h6_genuine_bugs ::
  "HashOrder \<Rightarrow> DiagRef list \<Rightarrow> nat list \<Rightarrow> (Hint \<times> nat list) option" where
  "h6_genuine_bugs h diags pool =
     (let small = filter (\<lambda>(_, v). 1 \<le> length v \<and> length v \<le> GENUINE_BUG_MAX_COUNT)
         (rules_order h (group_on (\<lambda>i. rule_bucket (snd (diags ! i))) pool)) in
      if small = [] then None
      else
        let rows = sort_by (\<lambda>a b. cmp_of (fst a) (fst b)) small;
            matched = concat (map snd rows)
        in Some (\<lparr> hint_id = ''genuine-bugs'', confidence = ''likely'',
             diagnostic_count = length matched,
             hint_summary = ''low-count, scattered rules ('' @
               join_str '', '' (map (\<lambda>(r, v). counted (r, length v)) rows) @ '')'',
             hint_action = H6_ACTION \<rparr>,
           matched))"

definition recognisers ::
  "HashOrder \<Rightarrow> ((DiagRef list \<Rightarrow> nat list \<Rightarrow> (Hint \<times> nat list) option) \<times> bool) list" where
  "recognisers h =
     [(h7_unresolved_toplevel h, False), (h5_systemic_cluster h, True), (h6_genuine_bugs h, True)]"

definition hint_pool :: "DiagRef list \<Rightarrow> bool \<Rightarrow> bool \<Rightarrow> bool list \<Rightarrow> nat list" where
  "hint_pool diags with_info info_guarded claimed =
     filter (\<lambda>i. with_info \<or> \<not> info_guarded \<or> diag_severity (snd (diags ! i)) \<noteq> Info)
       (filter (\<lambda>i. \<not> claimed ! i) [0..<length diags])"

fun recognise_loop ::
  "((DiagRef list \<Rightarrow> nat list \<Rightarrow> (Hint \<times> nat list) option) \<times> bool) list \<Rightarrow> DiagRef list \<Rightarrow> bool \<Rightarrow>
    bool list \<Rightarrow> Hint list \<Rightarrow> Hint list" where
  "recognise_loop [] diags with_info claimed acc = acc"
| "recognise_loop ((recogniser, info_guarded) # rs) diags with_info claimed acc =
     (case recogniser diags (hint_pool diags with_info info_guarded claimed) of
        Some (hint, matched) \<Rightarrow>
          recognise_loop rs diags with_info (foldl (\<lambda>c i. c[i := True]) claimed matched) (acc @ [hint])
      | None \<Rightarrow> recognise_loop rs diags with_info claimed acc)"

definition recognise :: "HashOrder \<Rightarrow> DiagRef list \<Rightarrow> bool \<Rightarrow> Hint list" where
  "recognise h diags with_info =
     recognise_loop (recognisers h) diags with_info (replicate (length diags) False) []"

definition routed :: "DiagRef list \<Rightarrow> bool \<Rightarrow> DiagRef list" where
  "routed diags with_info =
     (if with_info then diags else filter (\<lambda>(_, d). diag_severity d \<noteq> Info) diags)"

definition analyze :: "HashOrder \<Rightarrow> DiagRef list \<Rightarrow> nat \<Rightarrow> bool \<Rightarrow> bool \<Rightarrow> Report" where
  "analyze h diags limit run_hints with_info =
     \<lparr> report_summary = build_summary diags,
       distribution = build_distribution h (routed diags with_info),
       selectors = build_selectors h (routed diags with_info),
       hotspots = build_hotspots h (routed diags with_info) limit,
       hints = (if run_hints then recognise h diags with_info else []),
       include_info = with_info \<rparr>"

section \<open>The text report\<close>

datatype Section = Distribution | Selectors | Hotspots | Hints

definition BAR_WIDTH :: nat where
  "BAR_WIDTH = 24"

definition SELECTOR_ROWS :: nat where
  "SELECTOR_ROWS = 15"

abbreviation em_dash :: string where
  "em_dash \<equiv> [CHR 0xE2, CHR 0x80, CHR 0x94]"

abbreviation newline :: string where
  "newline \<equiv> [CHR 0x0A]"

text \<open>\<open>checked_div\<close> of a zero maximum is \<open>None\<close>, then \<open>0\<close>; the division of \<open>nat\<close> by zero
  gives that too, but the branch is written out.\<close>

definition bar_cells :: "nat \<Rightarrow> nat \<Rightarrow> nat" where
  "bar_cells count limit =
     (let filled = (if limit = 0 then 0 else count * BAR_WIDTH div limit)
      in if filled = 0 \<and> count > 0 then 1 else filled)"

definition bar :: "nat \<Rightarrow> nat \<Rightarrow> string" where
  "bar count limit = concat (replicate (bar_cells count limit) [CHR 0xE2, CHR 0x96, CHR 0x88])"

definition row_max :: "RuleCount list \<Rightarrow> nat" where
  "row_max rows = (case rows of [] \<Rightarrow> 1 | r # rs \<Rightarrow> foldl (\<lambda>m x. max m (row_count x)) (row_count r) rs)"

definition distribution_block :: "Report \<Rightarrow> string" where
  "distribution_block report =
     (let s = report_summary report;
          limit = row_max (distribution report);
          info_suffix = (if infos s > 0 then '' / '' @ digits_of (infos s) @ '' info'' else '''');
          head = ''Diagnostic distribution '' @ em_dash @ '' '' @ digits_of (total s) @ '' total ('' @
            digits_of (errors s) @ '' error / '' @ digits_of (warnings s) @ '' warning'' @ info_suffix @ '')'';
          hidden = (if \<not> include_info report \<and> infos s > 0
            then [''  '' @ digits_of (infos s) @
              '' info diagnostic(s) hidden below (mostly plugin recognition trace) '' @ em_dash @
              '' pass --include-info to route them'']
            else []);
          rows = map (\<lambda>row. ''  '' @ pad_right 32 (row_rule row) @ '' '' @
            pad_left 5 (digits_of (row_count row)) @ ''  '' @ bar (row_count row) limit)
            (distribution report)
      in join_str newline (head # hidden @ rows))"

definition selectors_block :: "Report \<Rightarrow> string" where
  "selectors_block report =
     (if selectors report = []
      then ''Selectors '' @ em_dash @ '' by class / method'' @ newline @ ''  (none)''
      else join_str newline
        ((''Selectors '' @ em_dash @ '' by class / method (top 15; full list in --format json)'') #
         map (\<lambda>sel. ''  '' @ pad_right 44 (case sel_receiver sel of
               Some r \<Rightarrow> r @ ''#'' @ sel_method sel | None \<Rightarrow> sel_method sel) @ '' '' @
             pad_left 5 (digits_of (sel_count sel)) @ ''  '' @
             pad_left 3 (digits_of (sel_files sel)) @ '' file(s)'')
           (take SELECTOR_ROWS (selectors report))))"

definition hotspots_block :: "Report \<Rightarrow> string" where
  "hotspots_block report =
     (if hotspots report = [] then ''Hotspot files'' @ newline @ ''  (none)''
      else join_str newline (''Hotspot files'' #
        map (\<lambda>spot. ''  '' @ pad_right 40 (spot_file spot) @ '' '' @
            pad_left 4 (digits_of (spot_count spot)) @ ''  '' @
            join_str ''  '' (map counted (by_rule spot)))
          (hotspots report)))"

definition hint_lines :: "Hint \<Rightarrow> string list" where
  "hint_lines h =
     ['''',
      ''  ['' @ confidence h @ '' '' @ hint_id h @ '']  '' @ digits_of (diagnostic_count h) @ '' diagnostic(s)'',
      ''    '' @ hint_summary h,
      ''    '' @ [CHR 0xE2, CHR 0x86, CHR 0x92] @ '' '' @ hint_action h]"

definition hints_block :: "Report \<Rightarrow> string" where
  "hints_block report =
     (if hints report = [] then ''Hints'' @ newline @ ''  (no heuristic hints)''
      else join_str newline ((''Hints '' @ em_dash @ '' heuristics, verify before acting'') #
        concat (map hint_lines (hints report))))"

fun section_block :: "Report \<Rightarrow> Section \<Rightarrow> string" where
  "section_block report Distribution = distribution_block report"
| "section_block report Selectors = selectors_block report"
| "section_block report Hotspots = hotspots_block report"
| "section_block report Hints = hints_block report"

definition render_text :: "Report \<Rightarrow> Section list \<Rightarrow> string" where
  "render_text report sections =
     join_str (newline @ newline) (map (section_block report) sections) @ newline"

end
