(* ===== verification/Triage_Laws.thy ===== *)
theory Triage_Laws
  imports Triage "HOL-Library.Multiset" "HOL-Library.Sublist"
begin

text \<open>
  The maps of the triage as functions of the stream: a counted or grouped map holds each key once
  with the number, or the list, of its occurrences. A sort on a key that tells the entries apart
  forgets the order in which the map delivered them. What a recogniser of hints promises is the
  locale \<open>recogniser\<close>.
\<close>

section \<open>Maps built by \<open>entry\<close>\<close>

lemma keys_entry_count: "fst ` set (entry_count k m) = insert k (fst ` set m)"
  by (induction k m rule: entry_count.induct) auto

lemma distinct_entry_count: "distinct (map fst m) \<Longrightarrow> distinct (map fst (entry_count k m))"
proof (induction k m rule: entry_count.induct)
  case (2 k k' n m)
  then show ?case using keys_entry_count[of k m] by (auto simp flip: set_map)
qed simp

lemma map_of_entry_count:
  "map_of (entry_count k m) = (map_of m)(k \<mapsto> (case map_of m k of None \<Rightarrow> 1 | Some n \<Rightarrow> n + 1))"
  by (induction k m rule: entry_count.induct) auto

lemma group_count_snoc: "group_count (xs @ [x]) = entry_count x (group_count xs)"
  by (simp add: group_count_def)

lemma distinct_group_count [simp]: "distinct (map fst (group_count xs))"
  by (induction xs rule: rev_induct)
    (simp_all add: group_count_snoc distinct_entry_count, simp add: group_count_def)

lemma map_of_group_count:
  "map_of (group_count xs) k = (if k \<in> set xs then Some (count_list xs k) else None)"
proof (induction xs rule: rev_induct)
  case Nil
  then show ?case by (simp add: group_count_def)
next
  case (snoc x xs)
  then show ?case by (auto simp: group_count_snoc map_of_entry_count)
qed

lemma set_group_count: "(k, n) \<in> set (group_count xs) \<longleftrightarrow> k \<in> set xs \<and> n = count_list xs k"
  using map_of_eq_Some_iff[OF distinct_group_count, of xs k n] by (auto simp: map_of_group_count split: if_split_asm)

lemma keys_entry_push: "fst ` set (entry_push k v m) = insert k (fst ` set m)"
  by (induction k v m rule: entry_push.induct) auto

lemma distinct_entry_push: "distinct (map fst m) \<Longrightarrow> distinct (map fst (entry_push k v m))"
proof (induction k v m rule: entry_push.induct)
  case (2 k v k' vs m)
  then show ?case using keys_entry_push[of k v m] by (auto simp flip: set_map)
qed simp

lemma map_of_entry_push:
  "map_of (entry_push k v m) = (map_of m)(k \<mapsto> (case map_of m k of None \<Rightarrow> [v] | Some vs \<Rightarrow> vs @ [v]))"
  by (induction k v m rule: entry_push.induct) auto

lemma group_on_snoc: "group_on f (xs @ [x]) = entry_push (f x) x (group_on f xs)"
  by (simp add: group_on_def)

lemma distinct_group_on [simp]: "distinct (map fst (group_on f xs))"
  by (induction xs rule: rev_induct)
    (simp_all add: group_on_snoc distinct_entry_push, simp add: group_on_def)

lemma map_of_group_on:
  "map_of (group_on f xs) k = (if k \<in> f ` set xs then Some (filter (\<lambda>x. f x = k) xs) else None)"
proof (induction xs rule: rev_induct)
  case Nil
  then show ?case by (simp add: group_on_def)
next
  case (snoc x xs)
  have "k \<notin> f ` set xs \<Longrightarrow> filter (\<lambda>x. f x = k) xs = []" by (auto simp: filter_empty_conv)
  with snoc show ?case by (auto simp: group_on_snoc map_of_entry_push)
qed

lemma set_group_on:
  "(k, vs) \<in> set (group_on f xs) \<longleftrightarrow> k \<in> f ` set xs \<and> vs = filter (\<lambda>x. f x = k) xs"
  using map_of_eq_Some_iff[OF distinct_group_on, of f xs k vs] by (auto simp: map_of_group_on split: if_split_asm)

lemma keys_group_on: "fst ` set (group_on f xs) = f ` set xs"
proof (induction xs rule: rev_induct)
  case (snoc x xs)
  then show ?case by (simp add: group_on_snoc keys_entry_push)
qed (simp add: group_on_def)

section \<open>Iteration order\<close>

definition order_ok :: "HashOrder \<Rightarrow> bool" where
  "order_ok h =
     ((\<forall>m. mset (counts_order h m) = mset m) \<and> (\<forall>m. mset (selectors_order h m) = mset m)
      \<and> (\<forall>m. mset (files_order h m) = mset m) \<and> (\<forall>m. mset (clusters_order h m) = mset m)
      \<and> (\<forall>m. mset (rules_order h m) = mset m))"

lemma order_okD [simp]:
  assumes "order_ok h"
  shows "mset (counts_order h m) = mset m" "mset (selectors_order h m1) = mset m1"
    "mset (files_order h m2) = mset m2" "mset (clusters_order h m3) = mset m3"
    "mset (rules_order h m4) = mset m4"
  using assms by (auto simp: order_ok_def)

lemma sort_by_key:
  assumes "\<And>a b. c a b = cmp_of (k a) (k b)"
  shows "sort_by c xs = sort_key k xs"
proof -
  have "insert_by c x ys = insort_key k x ys" for x ys
    by (induction ys) (auto simp: assms ord_simps)
  then show ?thesis by (induction xs) simp_all
qed

lemma sort_key_perm:
  "inj_on k (set xs) \<Longrightarrow> mset xs = mset ys \<Longrightarrow> sort_key k xs = sort_key k ys"
  by (rule sort_key_inj_key_eq) simp_all

lemma inj_on_key:
  assumes "distinct (map fst m)" "\<And>x y. x \<in> set m \<Longrightarrow> y \<in> set m \<Longrightarrow> k x = k y \<Longrightarrow> fst x = fst y"
  shows "inj_on k (set m)"
proof (rule inj_onI)
  fix x y assume xy: "x \<in> set m" "y \<in> set m" "k x = k y"
  then have "fst x = fst y" by (rule assms(2))
  with xy assms(1) show "x = y" by (metis eq_key_imp_eq_value prod.collapse)
qed

lemma inj_on_shuffled:
  assumes "inj_on (k \<circ> f) (set xs)" "mset ys = mset xs"
  shows "inj_on k (set (map f ys))"
  using inj_on_imageI[OF assms(1)] mset_eq_setD[OF assms(2)] by simp

lemma cmp_of_desc: "cmp_of (m :: nat) n = cmp_of (- int n) (- int m)"
  by (auto simp: cmp_of_def)

lemma cmp_desc_then: "ord_then (cmp_of n m) (cmp_of a b) = cmp_of (- int m, a) (- int n, b)"
  by (simp add: cmp_of_Pair flip: cmp_of_desc)

definition count_key :: "string \<times> nat \<Rightarrow> int \<times> string" where
  "count_key row = (- int (snd row), fst row)"

lemma sort_count_desc: "sort_by count_desc xs = sort_key count_key xs"
  by (rule sort_by_key) (simp add: count_desc_def count_key_def cmp_desc_then)

lemma sorted_counts:
  assumes "order_ok h"
  shows "sort_by count_desc (counts_order h m) = sort_key count_key m"
proof -
  have "inj_on count_key (set (counts_order h m))" by (auto simp: inj_on_def count_key_def)
  with assms show ?thesis unfolding sort_count_desc by (intro sort_key_perm) simp_all
qed

lemma sorted_rule_counts_closed:
  "order_ok h \<Longrightarrow> sorted_rule_counts h ds
    = sort_key count_key (group_count (map (rule_bucket \<circ> snd) ds))"
  by (simp add: sorted_rule_counts_def sorted_counts comp_def case_prod_beta')

section \<open>The views in closed form\<close>

definition row_key :: "RuleCount \<Rightarrow> int \<times> string" where
  "row_key r = (- int (row_count r), row_rule r)"

definition row_of :: "string \<times> nat \<Rightarrow> RuleCount" where
  "row_of p = \<lparr> row_rule = fst p, row_count = snd p \<rparr>"

lemma build_distribution_closed:
  assumes "order_ok h"
  shows "build_distribution h ds = sort_key row_key (map row_of (group_count (map (rule_bucket \<circ> snd) ds)))"
proof -
  have sort: "sort_by (\<lambda>a b. ord_then (cmp_of (row_count b) (row_count a)) (cmp_of (row_rule a) (row_rule b))) xs
    = sort_key row_key xs" for xs
    by (rule sort_by_key) (simp add: row_key_def cmp_desc_then)
  have "inj_on row_key A" for A :: "RuleCount set" by (auto simp: inj_on_def row_key_def)
  moreover have "(\<lambda>(rule, n). \<lparr> row_rule = rule, row_count = n \<rparr>) = row_of"
    by (simp add: row_of_def fun_eq_iff)
  moreover have "(\<lambda>(_, d). rule_bucket d) = (rule_bucket \<circ> snd :: DiagRef \<Rightarrow> _)"
    by (simp add: fun_eq_iff)
  ultimately show ?thesis using assms unfolding build_distribution_def sort
    by (intro sort_key_perm) simp_all
qed

definition spot_key :: "Hotspot \<Rightarrow> int \<times> string" where
  "spot_key s = (- int (spot_count s), spot_file s)"

definition spot_of :: "string \<times> DiagRef list \<Rightarrow> Hotspot" where
  "spot_of p = \<lparr> spot_file = fst p, spot_count = length (snd p),
     by_rule = sort_key count_key (group_count (map (rule_bucket \<circ> snd) (snd p))) \<rparr>"

lemma build_hotspots_closed:
  assumes "order_ok h"
  shows "build_hotspots h ds n = take n (sort_key spot_key (map spot_of (group_on fst ds)))"
proof -
  have sort: "sort_by (\<lambda>a b. ord_then (cmp_of (spot_count b) (spot_count a)) (cmp_of (spot_file a) (spot_file b))) xs
    = sort_key spot_key xs" for xs
    by (rule sort_by_key) (simp add: spot_key_def cmp_desc_then)
  have "inj_on (spot_key \<circ> spot_of) (set (group_on fst ds))"
    by (rule inj_on_key[OF distinct_group_on]) (simp add: spot_key_def spot_of_def)
  then have "inj_on spot_key (set (map spot_of (files_order h (group_on fst ds))))"
    by (rule inj_on_shuffled) (simp add: assms)
  moreover have "(\<lambda>(f, members). \<lparr> spot_file = f, spot_count = length members,
      by_rule = sorted_rule_counts h members \<rparr>) = spot_of"
    using assms by (simp add: spot_of_def sorted_rule_counts_closed fun_eq_iff)
  ultimately show ?thesis using assms unfolding build_hotspots_def sort
    by (intro arg_cong[of _ _ "take n"] sort_key_perm) simp_all
qed

definition selector_of :: "(string option \<times> string) \<times> DiagRef list \<Rightarrow> Selector" where
  "selector_of p = \<lparr> sel_receiver = fst (fst p), sel_method = snd (fst p), sel_count = length (snd p),
     sel_files = distinct_paths (map fst (snd p)),
     sel_rules = sort_key count_key (group_count (map (rule_bucket \<circ> snd) (snd p))) \<rparr>"

definition selector_key :: "Selector \<Rightarrow> int \<times> string \<times> string" where
  "selector_key s = (- int (sel_count s), receiver_text s, sel_method s)"

text \<open>The sort writes a missing receiver as the empty text, so it tells the groups apart only
  where no diagnostic carries an empty receiver.\<close>

definition receivers_named :: "DiagRef list \<Rightarrow> bool" where
  "receivers_named ds = (\<forall>(_, d) \<in> set ds. receiver_type d \<noteq> Some '''')"

lemma is_class_path_ne: "is_class_path t \<Longrightarrow> t \<noteq> ''''"
  by (simp add: is_class_path_def)

lemma normalize_receiver_ne: "normalize_receiver token = Some r \<Longrightarrow> r \<noteq> ''''"
  by (auto simp: normalize_receiver_def Let_def singleton_inner_def bracket_head_def is_class_path_def
      split: if_splits option.splits)

lemma selector_receiver_ne: "rt \<noteq> Some '''' \<Longrightarrow> selector_receiver rt \<noteq> Some ''''"
  by (auto simp: selector_receiver_def dest: normalize_receiver_ne split: option.splits)

lemma build_selectors_closed:
  assumes "order_ok h" "receivers_named ds"
  shows "build_selectors h ds = sort_key selector_key (map selector_of
    (group_on selector_group (filter (\<lambda>(_, d). method_name d \<noteq> None) ds)))"
    (is "_ = sort_key _ (map _ ?groups)")
proof -
  have sort: "sort_by selector_cmp xs = sort_key selector_key xs" for xs
    by (rule sort_by_key)
      (simp add: selector_cmp_def selector_key_def cmp_of_Pair flip: cmp_of_desc)
  have named: "fst (fst p) \<noteq> Some ''''" if "p \<in> set ?groups" for p
  proof -
    from that have "fst p \<in> selector_group ` set (filter (\<lambda>(_, d). method_name d \<noteq> None) ds)"
      using set_group_on[of "fst p" "snd p"] by simp
    then show ?thesis using assms(2)
      by (fastforce simp: selector_group_def receivers_named_def dest: selector_receiver_ne)
  qed
  have "inj_on (selector_key \<circ> selector_of) (set ?groups)"
  proof (rule inj_on_key[OF distinct_group_on])
    fix x y assume "x \<in> set ?groups" "y \<in> set ?groups" and
      eq: "(selector_key \<circ> selector_of) x = (selector_key \<circ> selector_of) y"
    then have "fst (fst x) \<noteq> Some ''''" "fst (fst y) \<noteq> Some ''''" using named by blast+
    moreover have "snd (fst x) = snd (fst y)"
      "(case fst (fst x) of Some r \<Rightarrow> r | None \<Rightarrow> '''') = (case fst (fst y) of Some r \<Rightarrow> r | None \<Rightarrow> '''')"
      using eq by (simp_all add: selector_key_def selector_of_def receiver_text_def)
    ultimately show "fst x = fst y" by (auto simp: prod_eq_iff split: option.splits)
  qed
  then have "inj_on selector_key (set (map selector_of (selectors_order h ?groups)))"
    by (rule inj_on_shuffled) (simp add: assms)
  moreover have "(\<lambda>((receiver, meth), members).
      \<lparr> sel_receiver = receiver, sel_method = meth, sel_count = length members,
        sel_files = distinct_paths (map fst members), sel_rules = sorted_rule_counts h members \<rparr>) = selector_of"
    using assms by (simp add: selector_of_def sorted_rule_counts_closed fun_eq_iff)
  ultimately show ?thesis using assms unfolding build_selectors_def sort
    by (intro sort_key_perm) simp_all
qed

section \<open>The largest cluster\<close>

lemma max_by_best:
  assumes "max_by c xs = Some m"
    and trans: "\<And>x y z. c x y \<noteq> Greater \<Longrightarrow> c y z \<noteq> Greater \<Longrightarrow> c x z \<noteq> Greater"
    and sym: "\<And>x y. c y x = ord_reverse (c x y)"
  shows "m \<in> set xs \<and> (\<forall>y \<in> set xs. c y m \<noteq> Greater)"
proof -
  have refl: "c x x \<noteq> Greater" for x using sym[of x x] by (cases "c x x") auto
  have best: "foldl (\<lambda>x y. if c x y = Greater then x else y) x ys \<in> set (x # ys)
    \<and> (\<forall>y \<in> set (x # ys). c y (foldl (\<lambda>x y. if c x y = Greater then x else y) x ys) \<noteq> Greater)" for x ys
  proof (induction ys arbitrary: x)
    case (Cons y ys)
    show ?case
    proof (cases "c x y = Greater")
      case True
      then have "c y x \<noteq> Greater" by (simp add: sym[of y x])
      with Cons.IH[of x] True trans show ?thesis by auto
    next
      case False
      with Cons.IH[of y] trans show ?thesis by auto
    qed
  qed (simp add: refl)
  from assms(1) best show ?thesis by (cases xs) auto
qed

lemma cmp_of_le: "cmp_of x y \<noteq> Greater \<longleftrightarrow> x \<le> y"
  by (auto simp: cmp_of_def)

lemma cluster_cmp_le:
  "cluster_cmp a b \<noteq> Greater \<longleftrightarrow> (length (snd a), fst b) \<le> (length (snd b), fst a)"
  unfolding cluster_cmp_def by (simp add: cmp_of_le flip: cmp_of_Pair)

lemma cluster_cmp_sym: "cluster_cmp b a = ord_reverse (cluster_cmp a b)"
  by (auto simp: cluster_cmp_def cmp_of_def)

lemma cluster_cmp_trans:
  "cluster_cmp x y \<noteq> Greater \<Longrightarrow> cluster_cmp y z \<noteq> Greater \<Longrightarrow> cluster_cmp x z \<noteq> Greater"
  unfolding cluster_cmp_le by (auto simp: less_eq_prod_def)

lemma max_cluster_perm:
  assumes "mset xs = mset ys" "distinct (map fst xs)"
  shows "max_by cluster_cmp xs = max_by cluster_cmp ys"
proof -
  have sets: "set xs = set ys" using assms(1) by (rule mset_eq_setD)
  show ?thesis
  proof (cases "max_by cluster_cmp xs"; cases "max_by cluster_cmp ys")
    fix a b assume ab: "max_by cluster_cmp xs = Some a" "max_by cluster_cmp ys = Some b"
    then have "a \<in> set xs" "b \<in> set xs" "cluster_cmp a b \<noteq> Greater" "cluster_cmp b a \<noteq> Greater"
      using max_by_best[OF ab(1) cluster_cmp_trans cluster_cmp_sym]
        max_by_best[OF ab(2) cluster_cmp_trans cluster_cmp_sym] sets
      by auto
    then have "fst a = fst b" "a \<in> set xs" "b \<in> set xs"
      unfolding cluster_cmp_le by (auto simp: less_eq_prod_def less_prod_def prod_eq_iff)
    with assms(2) have "a = b" by (metis eq_key_imp_eq_value prod.collapse)
    with ab show ?thesis by simp
  qed (use assms(1) in \<open>cases xs; cases ys; simp\<close>)+
qed

end
