(* ===== verification/Triage_Properties.thy ===== *)
theory Triage_Properties
  imports Triage_Laws
begin

text \<open>
  The properties of the triage: its report does not depend on hash iteration, the views are exact
  and complete, the hints never count a diagnostic twice, and the bars stay within their width.
\<close>

section \<open>Hints and iteration order\<close>

definition insertion_order :: HashOrder where
  "insertion_order = \<lparr> counts_order = id, selectors_order = id, files_order = id,
     clusters_order = id, rules_order = id \<rparr>"

lemma insertion_order_ok [simp]: "order_ok insertion_order"
  by (simp add: order_ok_def insertion_order_def)

lemma top_methods_order: "order_ok h \<Longrightarrow> top_methods h names = top_methods insertion_order names"
  by (simp add: top_methods_def sorted_counts)

lemma h7_order:
  assumes "order_ok h"
  shows "h7_unresolved_toplevel h = h7_unresolved_toplevel insertion_order"
  by (intro ext) (simp only: h7_unresolved_toplevel_def top_methods_order[OF assms])

lemma distinct_keys_perm: "mset m = mset m' \<Longrightarrow> distinct (map fst m') \<Longrightarrow> distinct (map fst (filter P m))"
  by (metis distinct_map_filter mset_eq_imp_distinct_iff mset_map)

lemma h5_order:
  assumes "order_ok h"
  shows "h5_systemic_cluster h = h5_systemic_cluster insertion_order"
proof (intro ext)
  fix ds :: "DiagRef list" and pool :: "nat list"
  let ?m = "group_on (\<lambda>i. (fst (ds ! i), rule_bucket (snd (ds ! i)))) pool"
  have "max_by cluster_cmp (filter P (clusters_order h ?m))
      = max_by cluster_cmp (filter P (clusters_order insertion_order ?m))" for P
    using assms by (intro max_cluster_perm)
      (simp_all add: mset_filter distinct_keys_perm[OF _ distinct_group_on])
  then show "h5_systemic_cluster h ds pool = h5_systemic_cluster insertion_order ds pool"
    by (simp add: h5_systemic_cluster_def)
qed

lemma h6_order:
  assumes "order_ok h"
  shows "h6_genuine_bugs h = h6_genuine_bugs insertion_order"
proof (intro ext)
  fix ds :: "DiagRef list" and pool :: "nat list"
  let ?m = "group_on (\<lambda>i. rule_bucket (snd (ds ! i))) pool"
  have sort: "sort_by (\<lambda>a b. cmp_of (fst a) (fst b)) (filter P (rules_order h ?m))
      = sort_by (\<lambda>a b. cmp_of (fst a) (fst b)) (filter P (rules_order insertion_order ?m))" for P
  proof -
    have "inj_on fst (set (filter P (rules_order h ?m)))"
      using distinct_keys_perm[OF order_okD(5)[OF assms] distinct_group_on] by (simp add: distinct_map)
    then show ?thesis unfolding sort_by_key[of "\<lambda>a b. cmp_of (fst a) (fst b)" fst, OF refl]
      using assms by (intro sort_key_perm) (simp_all add: mset_filter)
  qed
  have "filter P (rules_order h ?m) = [] \<longleftrightarrow> filter P (rules_order insertion_order ?m) = []" for P
    using order_okD(5)[OF assms, of ?m] order_okD(5)[OF insertion_order_ok, of ?m]
    by (metis mset_filter mset_zero_iff)
  then show "h6_genuine_bugs h ds pool = h6_genuine_bugs insertion_order ds pool"
    by (simp add: h6_genuine_bugs_def Let_def sort)
qed

lemma recognise_order: "order_ok h \<Longrightarrow> recognise h = recognise insertion_order"
  unfolding recognise_def recognisers_def by (simp only: h7_order h5_order h6_order)

section \<open>What a recogniser promises\<close>

locale recogniser =
  fixes r :: "DiagRef list \<Rightarrow> nat list \<Rightarrow> (Hint \<times> nat list) option" and name :: string
  assumes claims: "distinct pool \<Longrightarrow> r ds pool = Some (hint, matched) \<Longrightarrow>
    distinct matched \<and> set matched \<subseteq> set pool \<and> matched \<noteq> []
      \<and> diagnostic_count hint = length matched \<and> hint_id hint = name"
begin

text \<open>Marking what was matched raises the number of claimed diagnostics by the hint's count.\<close>

lemma claim_grows:
  assumes "r ds (hint_pool ds w g claimed) = Some (hint, matched)" "length claimed = length ds"
  defines "claimed' \<equiv> foldl (\<lambda>c i. c[i := True]) claimed matched"
  shows "length claimed' = length ds"
    "length (filter (\<lambda>b. b) claimed') = length (filter (\<lambda>b. b) claimed) + diagnostic_count hint"
    "diagnostic_count hint > 0"
proof -
  have pool: "distinct (hint_pool ds w g claimed)" by (simp add: hint_pool_def)
  note c = claims[OF pool assms(1)]
  have fresh: "i < length claimed \<and> \<not> claimed ! i" if "i \<in> set matched" for i
    using that c assms(2) by (auto simp: hint_pool_def)
  have len: "length (foldl (\<lambda>c i. c[i := True]) cs ms) = length cs" for cs :: "bool list" and ms
    by (induction ms arbitrary: cs) auto
  have upd: "length (filter (\<lambda>b. b) (cs[i := True])) = Suc (length (filter (\<lambda>b. b) cs))"
    if "i < length cs" "\<not> cs ! i" for cs :: "bool list" and i
    using that by (induction cs arbitrary: i) (auto split: nat.splits)
  have count: "length (filter (\<lambda>b. b) (foldl (\<lambda>c i. c[i := True]) cs ms)) = length (filter (\<lambda>b. b) cs) + length ms"
    if "distinct ms" "\<forall>i \<in> set ms. i < length cs \<and> \<not> cs ! i" for cs :: "bool list" and ms
    using that
  proof (induction ms arbitrary: cs)
    case (Cons i ms)
    have "\<forall>j \<in> set ms. j < length (cs[i := True]) \<and> \<not> cs[i := True] ! j"
      using Cons.prems by (auto simp: nth_list_update)
    with Cons upd show ?case by simp
  qed simp
  show "length claimed' = length ds" by (simp add: claimed'_def len assms(2))
  show "length (filter (\<lambda>b. b) claimed') = length (filter (\<lambda>b. b) claimed) + diagnostic_count hint"
    unfolding claimed'_def using count[of matched claimed] c fresh by simp
  show "diagnostic_count hint > 0" using c by simp
qed

end

lemma filter_group_members:
  assumes "(k, v) \<in> set (group_on f pool)" "distinct pool"
  shows "distinct v" "set v \<subseteq> set pool" "v \<noteq> []"
  using assms by (auto simp: set_group_on filter_empty_conv)

interpretation h7: recogniser "h7_unresolved_toplevel insertion_order" "''unresolved-toplevel''"
  by unfold_locales (auto simp: h7_unresolved_toplevel_def Let_def split: if_splits)

interpretation h5: recogniser "h5_systemic_cluster insertion_order" "''systemic-file-cluster''"
proof unfold_locales
  fix pool matched :: "nat list" and ds :: "DiagRef list" and hint :: Hint
  assume d: "distinct pool" and r: "h5_systemic_cluster insertion_order ds pool = Some (hint, matched)"
  let ?m = "group_on (\<lambda>i. (fst (ds ! i), rule_bucket (snd (ds ! i)))) pool"
  from r obtain k where best: "max_by cluster_cmp (filter (\<lambda>(_, v). length v \<ge> SYSTEMIC_THRESHOLD) ?m)
      = Some (k, matched)"
    and hint: "diagnostic_count hint = length matched" "hint_id hint = ''systemic-file-cluster''"
    by (auto simp: h5_systemic_cluster_def insertion_order_def split: option.splits)
  then have "(k, matched) \<in> set ?m"
    using max_by_best[OF best cluster_cmp_trans cluster_cmp_sym] by auto
  from filter_group_members[OF this d] hint show "distinct matched \<and> set matched \<subseteq> set pool \<and> matched \<noteq> []
      \<and> diagnostic_count hint = length matched \<and> hint_id hint = ''systemic-file-cluster''"
    by simp
qed

lemma distinct_concat_groups:
  assumes "distinct pool" "distinct (map fst rows)" "set rows \<subseteq> set (group_on f pool)"
  shows "distinct (concat (map snd rows))"
  using assms(2,3)
proof (induction rows)
  case (Cons row rows)
  have disjoint: "set (snd row) \<inter> set (snd row') = {}" if "row' \<in> set rows" for row'
  proof -
    have "fst row \<noteq> fst row'" using that Cons.prems(1) by force
    moreover have "snd p = filter (\<lambda>x. f x = fst p) pool" if "p \<in> set (row # rows)" for p
      using that Cons.prems(2) set_group_on[of "fst p" "snd p" f pool] by auto
    ultimately show ?thesis using that by auto
  qed
  have "distinct (snd row)"
    using filter_group_members(1)[of "fst row" "snd row" f pool] Cons.prems(2) assms(1) by simp
  with Cons disjoint show ?case by auto
qed simp

interpretation h6: recogniser "h6_genuine_bugs insertion_order" "''genuine-bugs''"
proof unfold_locales
  fix pool matched :: "nat list" and ds :: "DiagRef list" and hint :: Hint
  assume d: "distinct pool" and r: "h6_genuine_bugs insertion_order ds pool = Some (hint, matched)"
  let ?m = "group_on (\<lambda>i. rule_bucket (snd (ds ! i))) pool"
  let ?small = "filter (\<lambda>(_, v). 1 \<le> length v \<and> length v \<le> GENUINE_BUG_MAX_COUNT) ?m"
  let ?rows = "sort_by (\<lambda>a b. cmp_of (fst a) (fst b)) ?small"
  from r have m: "matched = concat (map snd ?rows)" "?small \<noteq> []"
    "diagnostic_count hint = length matched" "hint_id hint = ''genuine-bugs''"
    by (auto simp: h6_genuine_bugs_def insertion_order_def Let_def split: if_splits)
  have keyed: "?rows = sort_key fst ?small" by (rule sort_by_key) simp
  have "distinct (map fst ?small)" by (rule distinct_map_filter) simp
  then have "distinct (map fst ?rows)"
    unfolding keyed by (simp only: distinct_map distinct_sort set_sort)
  then have "distinct matched" unfolding m(1)
    by (rule distinct_concat_groups[OF d]) auto
  moreover have "set matched \<subseteq> set pool"
    unfolding m(1) by (auto dest!: filter_group_members(2)[OF _ d])
  moreover have "matched \<noteq> []"
  proof -
    have "hd ?small \<in> set ?rows" unfolding set_sort_by using m(2) by (rule hd_in_set)
    moreover have "snd (hd ?small) \<noteq> []" using hd_in_set[OF m(2)] by auto
    ultimately show ?thesis unfolding m(1) concat_eq_Nil_conv set_map by blast
  qed
  ultimately show "distinct matched \<and> set matched \<subseteq> set pool \<and> matched \<noteq> []
      \<and> diagnostic_count hint = length matched \<and> hint_id hint = ''genuine-bugs''"
    using m(3,4) by simp
qed

lemma recognise_loop_accounts:
  assumes "list_all2 (\<lambda>(r, _) name. recogniser r name) rs names" "length claimed = length ds"
  shows "\<exists>new. recognise_loop rs ds w claimed acc = acc @ new
    \<and> subseq (map hint_id new) names \<and> (\<forall>x \<in> set new. diagnostic_count x > 0)
    \<and> length (filter (\<lambda>b. b) claimed) + sum_list (map diagnostic_count new) \<le> length ds"
  using assms
proof (induction rs names arbitrary: claimed acc rule: list_all2_induct)
  case Nil
  then show ?case using length_filter_le[of "\<lambda>b. b" claimed] by simp
next
  case (Cons rg rs name names)
  obtain r g where rg: "rg = (r, g)" by force
  with Cons have rec: "recogniser r name" by simp
  show ?case
  proof (cases "r ds (hint_pool ds w g claimed)")
    case None
    then show ?thesis using Cons.IH[OF Cons.prems, of acc] rg by (auto intro: subseq_Cons')
  next
    case (Some p)
    obtain hint matched where p: "p = (hint, matched)" by force
    let ?c = "foldl (\<lambda>c i. c[i := True]) claimed matched"
    note grow = recogniser.claim_grows[OF rec Some[unfolded p] Cons.prems]
    have name: "hint_id hint = name"
      using recogniser.claims[OF rec _ Some[unfolded p]] by (simp add: hint_pool_def)
    obtain new where "recognise_loop rs ds w ?c (acc @ [hint]) = (acc @ [hint]) @ new"
      "subseq (map hint_id new) names" "\<forall>x \<in> set new. diagnostic_count x > 0"
      "length (filter (\<lambda>b. b) ?c) + sum_list (map diagnostic_count new) \<le> length ds"
      using Cons.IH[OF grow(1)] by blast
    with grow name Some show ?thesis
      by (intro exI[of _ "hint # new"]) (simp add: rg p)
  qed
qed

lemma recognise_loop_extends: "\<exists>tail. recognise_loop rs ds w c acc = acc @ tail"
proof (induction rs arbitrary: c acc)
  case (Cons rg rs)
  obtain r g where rg: "rg = (r, g)" by force
  show ?case
  proof (cases "r ds (hint_pool ds w g c)")
    case (Some p)
    obtain hint matched where p: "p = (hint, matched)" by force
    obtain tail where "recognise_loop rs ds w (foldl (\<lambda>c i. c[i := True]) c matched) (acc @ [hint])
        = (acc @ [hint]) @ tail"
      using Cons.IH by blast
    with Some show ?thesis by (simp add: rg p)
  qed (use Cons.IH[of c acc] in \<open>simp add: rg\<close>)
qed simp

section \<open>Counts over a stream\<close>

definition bucket_size :: "string \<Rightarrow> DiagRef list \<Rightarrow> nat" where
  "bucket_size rule ds = length (filter (\<lambda>(_, d). rule_bucket d = rule) ds)"

definition file_size :: "string \<Rightarrow> DiagRef list \<Rightarrow> nat" where
  "file_size f ds = length (filter (\<lambda>(p, _). p = f) ds)"

lemma bucket_size_count: "bucket_size rule ds = count_list (map (rule_bucket \<circ> snd) ds) rule"
  by (induction ds) (auto simp: bucket_size_def)

lemma sum_group_count: "sum_list (map snd (group_count ks)) = length ks"
proof (induction ks rule: rev_induct)
  case (snoc k ks)
  have "sum_list (map snd (entry_count k m)) = Suc (sum_list (map snd m))" for m
    by (induction k m rule: entry_count.induct) auto
  with snoc show ?case by (simp add: group_count_snoc)
qed (simp add: group_count_def)

lemma sum_list_sort: "sum_list (map f (sort_key k xs)) = sum_list (map f xs)" for f :: "'a \<Rightarrow> nat"
  by (metis mset_map mset_sort sum_mset_sum_list)

lemma in_row_of: "x \<in> row_of ` A \<longleftrightarrow> (row_rule x, row_count x) \<in> A"
proof
  assume "(row_rule x, row_count x) \<in> A"
  moreover have "x = row_of (row_rule x, row_count x)" by (simp add: row_of_def)
  ultimately show "x \<in> row_of ` A" by blast
qed (auto simp: row_of_def)

lemma distinct_map_sort: "distinct (map f xs) \<Longrightarrow> distinct (map f (sort_key k xs))"
  by (simp add: distinct_map)

lemma h7_matches:
  "filter (\<lambda>i. rule_bucket (snd (ds ! i)) = UNRESOLVED_TOPLEVEL_RULE) pool \<noteq> [] \<Longrightarrow>
   \<exists>hint. h7_unresolved_toplevel h ds pool
       = Some (hint, filter (\<lambda>i. rule_bucket (snd (ds ! i)) = UNRESOLVED_TOPLEVEL_RULE) pool)
     \<and> diagnostic_count hint
       = length (filter (\<lambda>i. rule_bucket (snd (ds ! i)) = UNRESOLVED_TOPLEVEL_RULE) pool)
     \<and> hint_id hint = ''unresolved-toplevel''"
  by (simp add: h7_unresolved_toplevel_def Let_def)

lemma row_key_less:
  "row_key a < row_key b \<longleftrightarrow> row_count b < row_count a \<or> row_count b = row_count a \<and> row_rule a < row_rule b"
  by (auto simp: row_key_def less_prod_def)

lemma spot_key_less:
  "spot_key a < spot_key b \<longleftrightarrow> spot_count b < spot_count a \<or> spot_count b = spot_count a \<and> spot_file a < spot_file b"
  by (auto simp: spot_key_def less_prod_def)

section \<open>Properties\<close>

text \<open>C24: the report is a function of the stream. Whatever order the hash maps iterate in, the
  analysis gives the same report, hints included, and so the same text. The one proviso is that no
  diagnostic carries an empty receiver type, which the sort of the selectors would not tell from a
  missing one.\<close>

theorem triage_deterministic:
  assumes "order_ok h" "order_ok h'" "receivers_named ds"
  shows "analyze h ds limit run_hints with_info = analyze h' ds limit run_hints with_info
    \<and> render_text (analyze h ds limit run_hints with_info) sections
      = render_text (analyze h' ds limit run_hints with_info) sections"
proof -
  have "receivers_named (routed ds with_info)" using assms(3)
    by (auto simp: receivers_named_def routed_def)
  then have "analyze h ds limit run_hints with_info = analyze h' ds limit run_hints with_info"
    unfolding analyze_def using assms(1,2)
    by (simp only: build_distribution_closed build_selectors_closed build_hotspots_closed recognise_order)
  then show ?thesis by simp
qed

definition reversed_order :: HashOrder where
  "reversed_order = \<lparr> counts_order = rev, selectors_order = rev, files_order = rev,
     clusters_order = rev, rules_order = rev \<rparr>"

lemma reversed_order_ok: "order_ok reversed_order"
  by (simp add: order_ok_def reversed_order_def)

definition sample_stream :: "DiagRef list" where
  "sample_stream =
     (let d = (\<lambda>rule m. \<lparr> rule_id = rule, start_offset = 0, end_offset = 1, diag_message = '''',
        diag_severity = Error, source_family = ''builtin'', receiver_type = Some ''5'', method_name = Some m \<rparr>)
      in [(''a.rb'', d ''call.wrong-arity'' ''foo''), (''b.rb'', d ''call.undefined-method'' ''bar''),
          (''b.rb'', d ''call.wrong-arity'' ''foo'')])"

theorem triage_deterministic_witness:
  "build_distribution reversed_order sample_stream
    = [\<lparr> row_rule = ''call.wrong-arity'', row_count = 2 \<rparr>, \<lparr> row_rule = ''call.undefined-method'', row_count = 1 \<rparr>]"
proof -
  have named: "receivers_named sample_stream" by code_simp
  have "build_distribution insertion_order sample_stream
    = [\<lparr> row_rule = ''call.wrong-arity'', row_count = 2 \<rparr>, \<lparr> row_rule = ''call.undefined-method'', row_count = 1 \<rparr>]"
    by code_simp
  moreover have "distribution (analyze reversed_order sample_stream 3 True True)
      = distribution (analyze insertion_order sample_stream 3 True True)"
    using triage_deterministic[OF reversed_order_ok insertion_order_ok named, of 3 True True "[]"] by simp
  ultimately show ?thesis by (simp add: analyze_def routed_def)
qed

text \<open>The distribution is exact. A rule has one row exactly when some diagnostic falls in its
  bucket, with the number of those; the rows add up to the stream and stand in decreasing count,
  equal counts by name.\<close>

theorem distribution_exact:
  assumes "order_ok h"
  shows "set (build_distribution h ds)
      = {\<lparr> row_rule = r, row_count = bucket_size r ds \<rparr> | r. \<exists>(_, d) \<in> set ds. rule_bucket d = r}
    \<and> sum_list (map row_count (build_distribution h ds)) = length ds
    \<and> sorted_wrt (\<lambda>a b. row_count b < row_count a \<or> row_count b = row_count a \<and> row_rule a < row_rule b)
        (build_distribution h ds)"
proof -
  let ?ks = "map (rule_bucket \<circ> snd) ds" and ?rows = "build_distribution h ds"
  note closed = build_distribution_closed[OF assms, of ds]
  have members: "x \<in> set ?rows \<longleftrightarrow> row_rule x \<in> set ?ks \<and> row_count x = count_list ?ks (row_rule x)" for x
    unfolding closed set_sort set_map in_row_of set_group_count by (rule refl)
  have "set ?rows = {\<lparr> row_rule = r, row_count = bucket_size r ds \<rparr> | r. r \<in> set ?ks}"
  proof (rule set_eqI)
    fix x :: RuleCount
    obtain r n where "x = \<lparr> row_rule = r, row_count = n \<rparr>" by (cases x) auto
    then show "x \<in> set ?rows \<longleftrightarrow> x \<in> {\<lparr> row_rule = r, row_count = bucket_size r ds \<rparr> | r. r \<in> set ?ks}"
      unfolding members bucket_size_count by auto
  qed
  moreover have "r \<in> set ?ks \<longleftrightarrow> (\<exists>(_, d) \<in> set ds. rule_bucket d = r)" for r by force
  moreover have "sum_list (map row_count ?rows) = length ds"
    unfolding closed sum_list_sort using sum_group_count[of ?ks] by (simp add: row_of_def comp_def)
  moreover have "sorted_wrt (\<lambda>a b. row_key a < row_key b) ?rows"
  proof -
    have "distinct (map row_rule ?rows)"
      unfolding closed by (simp add: distinct_map inj_on_def row_of_def)
        (metis distinct_group_count distinct_map inj_onD)
    then have "distinct (map row_key ?rows)" by (auto simp: distinct_map inj_on_def row_key_def)
    moreover have "sorted (map row_key ?rows)" unfolding closed by (rule sorted_sort_key)
    ultimately show ?thesis by (simp add: strict_sorted_iff flip: sorted_wrt_map)
  qed
  ultimately show ?thesis by (simp add: row_key_less)
qed

text \<open>The distribution on the sample stream.\<close>

theorem distribution_exact_witness:
  "sum_list (map row_count (build_distribution reversed_order sample_stream)) = 3"
  using distribution_exact[OF reversed_order_ok, of sample_stream] by (simp add: sample_stream_def)

text \<open>C34: the hotspots are the worst files. The list has as many files as asked for, or all of
  them; each file carries the number of its diagnostics, broken down without loss by rule; and
  every file left out comes after every file listed, by count and then by name.\<close>

theorem hotspots_worst_files:
  assumes "order_ok h"
  shows "let spots = build_hotspots h ds limit in length spots = min limit (card (fst ` set ds))
    \<and> distinct (map spot_file spots)
    \<and> (\<forall>s \<in> set spots. spot_file s \<in> fst ` set ds \<and> spot_count s = file_size (spot_file s) ds
         \<and> sum_list (map snd (by_rule s)) = spot_count s)
    \<and> (\<forall>s \<in> set spots. \<forall>f \<in> fst ` set ds - spot_file ` set spots.
         file_size f ds < spot_count s \<or> file_size f ds = spot_count s \<and> spot_file s < f)"
proof -
  define spots where "spots = build_hotspots h ds limit"
  let ?m = "group_on fst ds" let ?all = "sort_key spot_key (map spot_of ?m)"
  have spots: "spots = take limit ?all" unfolding spots_def by (rule build_hotspots_closed[OF assms(1)])
  have keys: "map spot_file (map spot_of ?m) = map fst ?m" by (simp add: spot_of_def)
  have files: "fst ` set ?m = fst ` set ds" by (rule keys_group_on)
  have dist: "distinct (map spot_file ?all)"
    by (rule distinct_map_sort) (simp only: keys distinct_group_on)
  have len: "length ?all = card (fst ` set ds)"
    using distinct_card[OF distinct_group_on[of fst ds]] by (simp add: files)
  have each: "spot_file s \<in> fst ` set ds \<and> spot_count s = file_size (spot_file s) ds
       \<and> sum_list (map snd (by_rule s)) = spot_count s" if "s \<in> set ?all" for s
  proof -
    from that obtain f v where s: "s = spot_of (f, v)" "(f, v) \<in> set ?m" by auto
    then have "f \<in> fst ` set ds" "v = filter (\<lambda>x. fst x = f) ds" by (simp_all add: set_group_on)
    moreover have "sum_list (map snd (by_rule s)) = length v"
      unfolding s(1) by (simp add: spot_of_def sum_list_sort sum_group_count)
    ultimately show ?thesis by (simp add: s(1) spot_of_def file_size_def case_prod_beta')
  qed
  have all_files: "spot_file ` set ?all = fst ` set ds"
    unfolding set_sort files[symmetric] by (simp add: image_image spot_of_def)
  have sorted: "sorted_wrt (\<lambda>a b. spot_key a < spot_key b) ?all"
  proof -
    have "distinct (map spot_key ?all)" using dist by (auto simp: distinct_map inj_on_def spot_key_def)
    moreover have "sorted (map spot_key ?all)" by (rule sorted_sort_key)
    ultimately show ?thesis by (simp add: strict_sorted_iff flip: sorted_wrt_map)
  qed
  have rest: "file_size f ds < spot_count s \<or> file_size f ds = spot_count s \<and> spot_file s < f"
    if s: "s \<in> set spots" and f: "f \<in> fst ` set ds - spot_file ` set spots" for s f
  proof -
    from f all_files obtain t where t: "t \<in> set ?all" "spot_file t = f" by (metis DiffD1 imageE)
    have "t \<notin> set spots" using f t(2) by (metis DiffD2 image_eqI)
    moreover have "set ?all = set spots \<union> set (drop limit ?all)"
      unfolding spots by (simp only: append_take_drop_id flip: set_append)
    ultimately have late: "t \<in> set (drop limit ?all)" using t(1) by blast
    have "sorted_wrt (\<lambda>a b. spot_key a < spot_key b) (spots @ drop limit ?all)"
      using sorted unfolding spots by (simp only: append_take_drop_id)
    with s late have "spot_key s < spot_key t" by (simp only: sorted_wrt_append)
    with each[OF t(1)] t(2) show ?thesis by (simp add: spot_key_less)
  qed
  have "set spots \<subseteq> set ?all" unfolding spots by (rule set_take_subset)
  then show ?thesis using each rest len dist
    unfolding spots_def[symmetric] Let_def
    by (auto simp: spots min.commute take_map[symmetric] simp del: map_map set_sort)
qed

theorem hotspots_worst_files_witness:
  "spot_count (build_hotspots reversed_order sample_stream 1 ! 0) = 2
    \<and> length (build_hotspots reversed_order sample_stream 1) = 1"
proof -
  have "build_hotspots reversed_order sample_stream 1 ! 0
      = \<lparr> spot_file = ''b.rb'', spot_count = 2,
          by_rule = [(''call.undefined-method'', 1), (''call.wrong-arity'', 1)] \<rparr>"
    by code_simp
  with hotspots_worst_files[OF reversed_order_ok, of sample_stream 1] show ?thesis
    by (simp add: sample_stream_def Let_def)
qed

text \<open>C26: the hints never count a diagnostic twice. They appear in the order of precedence, each
  recogniser at most once, each with a positive count, and the counts together do not exceed the
  stream; when a diagnostic of the unresolved-toplevel rule is there, the first hint counts
  exactly those.\<close>

theorem hints_account:
  assumes "order_ok h"
  shows "subseq (map hint_id (recognise h ds w))
      [''unresolved-toplevel'', ''systemic-file-cluster'', ''genuine-bugs'']
    \<and> (\<forall>x \<in> set (recognise h ds w). diagnostic_count x > 0)
    \<and> sum_list (map diagnostic_count (recognise h ds w)) \<le> length ds
    \<and> (bucket_size UNRESOLVED_TOPLEVEL_RULE ds > 0 \<longrightarrow>
        diagnostic_count (hd (recognise h ds w)) = bucket_size UNRESOLVED_TOPLEVEL_RULE ds
        \<and> hint_id (hd (recognise h ds w)) = ''unresolved-toplevel'')"
proof -
  let ?rs = "recognisers insertion_order" and ?c = "replicate (length ds) False"
  let ?names = "[''unresolved-toplevel'', ''systemic-file-cluster'', ''genuine-bugs'']"
  have ok: "list_all2 (\<lambda>(r, _) name. recogniser r name) ?rs ?names"
    unfolding recognisers_def
    using h7.recogniser_axioms h5.recogniser_axioms h6.recogniser_axioms by simp
  obtain new where new: "recognise h ds w = new" "subseq (map hint_id new) ?names"
    "\<forall>x \<in> set new. diagnostic_count x > 0" "sum_list (map diagnostic_count new) \<le> length ds"
    using recognise_loop_accounts[OF ok, of ?c ds w "[]"]
    unfolding recognise_order[OF assms] recognise_def by auto
  moreover have "diagnostic_count (hd new) = bucket_size UNRESOLVED_TOPLEVEL_RULE ds
      \<and> hint_id (hd new) = ''unresolved-toplevel''" if "bucket_size UNRESOLVED_TOPLEVEL_RULE ds > 0"
  proof -
    let ?matched = "filter (\<lambda>i. rule_bucket (snd (ds ! i)) = UNRESOLVED_TOPLEVEL_RULE) [0..<length ds]"
    have size: "length ?matched = bucket_size UNRESOLVED_TOPLEVEL_RULE ds"
      unfolding bucket_size_def length_filter_conv_card case_prod_beta'
      by (intro arg_cong[of _ _ card] Collect_cong) auto
    have ne: "?matched \<noteq> []"
      using that unfolding size[symmetric] by (rule length_greater_0_conv[THEN iffD1])
    have pool: "hint_pool ds w False ?c = [0..<length ds]"
      by (simp add: hint_pool_def filter_id_conv)
    obtain hint where hint: "h7_unresolved_toplevel insertion_order ds [0..<length ds] = Some (hint, ?matched)"
      "diagnostic_count hint = length ?matched" "hint_id hint = ''unresolved-toplevel''"
      using h7_matches[OF ne] by blast
    let ?rest = "[(h5_systemic_cluster insertion_order, True), (h6_genuine_bugs insertion_order, True)]"
    let ?c' = "foldl (\<lambda>c i. c[i := True]) ?c ?matched"
    obtain tail where tail: "recognise_loop ?rest ds w ?c' [hint] = [hint] @ tail"
      using recognise_loop_extends by blast
    have "new = recognise_loop ?rs ds w ?c []"
      using new(1) unfolding recognise_order[OF assms] recognise_def by (rule sym)
    also have "\<dots> = recognise_loop ?rest ds w ?c' [hint]"
      unfolding recognisers_def recognise_loop.simps(2)[of "h7_unresolved_toplevel insertion_order"]
        pool hint(1) by (simp only: option.case prod.case append_Nil)
    finally have "new = hint # tail" using tail by simp
    with hint size show ?thesis by simp
  qed
  ultimately show ?thesis by simp
qed

theorem hints_account_witness:
  "sum_list (map diagnostic_count (recognise reversed_order sample_stream True)) \<le> 3"
  using hints_account[OF reversed_order_ok, of sample_stream True] by (simp add: sample_stream_def)

section \<open>Bars\<close>

lemma foldl_max: "foldl (\<lambda>m x. max m (f x)) b xs = Max (insert b (f ` set xs))" for b :: nat
proof (induction xs arbitrary: b)
  case (Cons x xs)
  have "Max (insert (max b (f x)) (f ` set xs)) = Max (insert b (insert (f x) (f ` set xs)))"
    by (cases "set xs = {}") (simp_all add: max.assoc)
  with Cons show ?case by simp
qed simp

lemma row_max_Max: "rows \<noteq> [] \<Longrightarrow> row_max rows = Max (row_count ` set rows)"
  by (cases rows) (simp_all add: row_max_def foldl_max)

text \<open>A row with a positive count gets a bar of one to \<open>BAR_WIDTH\<close> cells, the largest row the
  full width, and a larger row never a shorter bar.\<close>

theorem bars_within_width:
  assumes "r \<in> set rows" "row_count r > 0"
  shows "1 \<le> bar_cells (row_count r) (row_max rows)
    \<and> bar_cells (row_count r) (row_max rows) \<le> BAR_WIDTH
    \<and> (row_count r = row_max rows \<longrightarrow> bar_cells (row_count r) (row_max rows) = BAR_WIDTH)
    \<and> (\<forall>q \<in> set rows. row_count q \<le> row_count r \<longrightarrow>
         bar_cells (row_count q) (row_max rows) \<le> bar_cells (row_count r) (row_max rows))"
proof -
  have "rows \<noteq> []" using assms(1) by auto
  then have le: "row_count r \<le> row_max rows" using assms(1) by (simp add: row_max_Max)
  then have pos: "row_max rows > 0" using assms(2) by simp
  have "row_count r * BAR_WIDTH div row_max rows \<le> row_max rows * BAR_WIDTH div row_max rows"
    using le by (intro div_le_mono mult_le_mono1)
  then have upper: "row_count r * BAR_WIDTH div row_max rows \<le> BAR_WIDTH" using pos by simp
  have mono: "bar_cells a n \<le> bar_cells b n" if "a \<le> b" "b > 0" "n > 0" for a b n
  proof -
    have "a * BAR_WIDTH div n \<le> b * BAR_WIDTH div n" using that by (intro div_le_mono mult_le_mono1)
    with that show ?thesis by (auto simp: bar_cells_def Let_def)
  qed
  show ?thesis
    using upper pos assms(2) mono by (auto simp: bar_cells_def Let_def BAR_WIDTH_def)
qed

end
