(* ===== verification/Spell_Checker.thy ===== *)
theory Spell_Checker
  imports Str_Ops
begin

text \<open>
  The spelling suggestions of the option parser (\<open>rigor-cli/src/optparse.rs\<close>, the functions from
  \<open>jaro\<close> on): the Jaro-Winkler score in 64-bit floats, the two-index Levenshtein loop, and the
  two-stage filter over a dictionary. \<open>str::to_lowercase\<close> beyond ASCII is a table of the standard
  library and an argument, \<open>lower\<close>, which maps a whole text.
\<close>

section \<open>Jaro-Winkler\<close>

abbreviation one :: f64 where
  "one \<equiv> of_integer 1"

fun jaro_scan ::
  "nat \<Rightarrow> 'a list \<Rightarrow> 'a list \<Rightarrow> nat \<Rightarrow> f64 \<Rightarrow> 128 word \<Rightarrow> 128 word \<Rightarrow> f64 \<times> 128 word \<times> 128 word" where
  "jaro_scan i [] s2 radius m flags1 flags2 = (m, flags1, flags2)"
| "jaro_scan i (c1 # cs) s2 radius m flags1 flags2 =
     (case find (\<lambda>j. \<not> bit flags2 j \<and> c1 = s2 ! j) [i - radius ..< min (i + radius + 1) (length s2)] of
        Some j \<Rightarrow> jaro_scan (i + 1) cs s2 radius (f64_add m one) (set_bit i flags1) (set_bit j flags2)
      | None \<Rightarrow> jaro_scan (i + 1) cs s2 radius m flags1 flags2)"

text \<open>The position of the next flag from \<open>k\<close> on, or the length; \<open>index\<close> is the last position
  looked at.\<close>

definition next_flag :: "128 word \<Rightarrow> nat \<Rightarrow> nat \<Rightarrow> nat \<times> nat" where
  "next_flag flags k l =
     (case find (bit flags) [k ..< l] of
        Some j \<Rightarrow> (j, j)
      | None \<Rightarrow> (max k l, if k < l then l - 1 else k))"

fun jaro_transpositions ::
  "nat \<Rightarrow> 'a list \<Rightarrow> 'a list \<Rightarrow> 128 word \<Rightarrow> 128 word \<Rightarrow> nat \<Rightarrow> f64 \<Rightarrow> f64" where
  "jaro_transpositions i [] s2 flags1 flags2 k t = t"
| "jaro_transpositions i (c1 # cs) s2 flags1 flags2 k t =
     (if \<not> bit flags1 i then jaro_transpositions (i + 1) cs s2 flags1 flags2 k t
      else
        let (j, index) = next_flag flags2 k (length s2);
            k' = (if j < length s2 then j + 1 else length s2);
            t' = (if index < length s2 \<and> c1 \<noteq> s2 ! index then f64_add t one else t)
        in jaro_transpositions (i + 1) cs s2 flags1 flags2 k' t')"

definition jaro :: "'a list \<Rightarrow> 'a list \<Rightarrow> f64" where
  "jaro a b =
     (let (s1, s2) = (if length a > length b then (b, a) else (a, b));
          l1 = length s1; l2 = length s2
      in if l1 = 0 \<or> l2 = 0 \<or> l1 > 120 \<or> l2 > 120 then of_integer 0
         else
           let radius = (if l2 > 3 then l2 div 2 - 1 else 0);
               (m, flags1, flags2) = jaro_scan 0 s1 s2 radius (of_integer 0) 0 0;
               t0 = jaro_transpositions 0 s1 s2 flags1 flags2 0 (of_integer 0);
               t = f64_floor (f64_div t0 (of_integer 2))
           in if f64_eq m (of_integer 0) then of_integer 0
              else f64_div (f64_add (f64_add (f64_div m (of_integer (int l1))) (f64_div m (of_integer (int l2))))
                (f64_div (f64_sub m t) m)) (of_integer 3))"

text \<open>The common prefix, at most four characters.\<close>

fun winkler_prefix :: "'a list \<Rightarrow> 'a list \<Rightarrow> nat \<Rightarrow> nat" where
  "winkler_prefix (c # cs) s2 prefix =
     (if prefix < length s2 \<and> c = s2 ! prefix \<and> prefix < 4 then winkler_prefix cs s2 (prefix + 1) else prefix)"
| "winkler_prefix [] s2 prefix = prefix"

definition jaro_winkler :: "string \<Rightarrow> string \<Rightarrow> f64" where
  "jaro_winkler a b =
     (let s1 = utf8_chars a; s2 = utf8_chars b; d = jaro s1 s2
      in if f64_lt (decimal_to_f64 False ''7'' (- 1)) d
         then f64_add d (f64_mul (f64_mul (of_integer (int (winkler_prefix s1 s2 0)))
           (decimal_to_f64 False ''1'' (- 1))) (f64_sub one d))
         else d)"

section \<open>Levenshtein\<close>

text \<open>One pass over the second text. \<open>d\<close> holds the new row below \<open>j\<close> and the old one from \<open>j\<close>
  on, \<open>i\<close> the entry to the left.\<close>

fun dym_row :: "'a \<Rightarrow> 'a list \<Rightarrow> nat list \<Rightarrow> nat \<Rightarrow> nat \<Rightarrow> nat \<Rightarrow> nat list \<times> nat" where
  "dym_row c1 [] d i j x = (d, x)"
| "dym_row c1 (c2 # cs) d i j x =
     (let cost = (if c1 \<noteq> c2 then 1 else 0);
          a = d ! (j + 1) + 1; b = i + 1; c = d ! j + cost;
          x' = (if a < b \<and> a < c then a else if b < c then b else c)
      in dym_row c1 cs (d[j := i]) x' (j + 1) x')"

fun dym_rows :: "nat \<Rightarrow> 'a list \<Rightarrow> 'a list \<Rightarrow> nat list \<Rightarrow> nat \<Rightarrow> nat" where
  "dym_rows i1 [] s2 d x = x"
| "dym_rows i1 (c1 # cs) s2 d x =
     (let (d', x') = dym_row c1 s2 d (i1 + 1) 0 x
      in dym_rows (i1 + 1) cs s2 (d'[length s2 := x']) x')"

definition dym_levenshtein :: "string \<Rightarrow> string \<Rightarrow> nat" where
  "dym_levenshtein a b =
     (let s1 = utf8_chars a; s2 = utf8_chars b in
      if length s1 = 0 then length s2
      else if length s2 = 0 then length s1
      else dym_rows 0 s1 s2 [0 ..< length s2 + 1] 0)"

section \<open>Corrections\<close>

definition spell_norm :: "(string \<Rightarrow> string) \<Rightarrow> string \<Rightarrow> string" where
  "spell_norm lower s = filter (\<lambda>c. c \<noteq> CHR ''@'') (lower s)"

definition score_cmp :: "string \<times> f64 \<Rightarrow> string \<times> f64 \<Rightarrow> Ordering" where
  "score_cmp a b = (case partial_cmp (snd a) (snd b) of Some c \<Rightarrow> c | None \<Rightarrow> Equal)"

definition spell_checker_correct :: "(string \<Rightarrow> string) \<Rightarrow> string list \<Rightarrow> string \<Rightarrow> string list" where
  "spell_checker_correct lower dict input =
     (let ni = spell_norm lower input; n = length (utf8_chars ni);
          threshold = (if n > 3 then decimal_to_f64 False ''834'' (- 3) else decimal_to_f64 False ''77'' (- 2));
          near = filter (\<lambda>w. input \<noteq> w)
            (filter (\<lambda>w. f64_le threshold (jaro_winkler (spell_norm lower w) ni)) dict);
          words = map fst (rev (sort_by score_cmp (map (\<lambda>w. (w, jaro_winkler w ni)) near)));
          lev_thr = nat (f64_trunc_int (f64_ceil (f64_mul (of_integer (int n)) (decimal_to_f64 False ''25'' (- 2)))));
          corrections = filter (\<lambda>c. dym_levenshtein (spell_norm lower c) ni \<le> lev_thr) words
      in if corrections \<noteq> [] then corrections
         else case find (\<lambda>w. dym_levenshtein (spell_norm lower w) ni
             < min n (length (utf8_chars (spell_norm lower w)))) words of
           Some w \<Rightarrow> [w] | None \<Rightarrow> [])"

fun spell_correct_loop :: "string list \<Rightarrow> string list \<Rightarrow> string list \<Rightarrow> string list" where
  "spell_correct_loop corrections [] out = out"
| "spell_correct_loop corrections (cand # cs) out =
     spell_correct_loop corrections cs
       (if cand \<in> set corrections \<and> cand \<notin> set out then out @ [cand] else out)"

definition spell_correct :: "(string \<Rightarrow> string) \<Rightarrow> string list \<Rightarrow> string \<Rightarrow> string list" where
  "spell_correct lower dict input = spell_correct_loop (spell_checker_correct lower dict input) dict []"

end
