(* ===== verification/Optparse.thy ===== *)
theory Optparse
  imports Spell_Checker
begin

text \<open>
  The option parser of every subcommand (\<open>rigor-cli/src/optparse.rs\<close>): switch tables, the lookup
  of a long name with its completion, the conversion of values, the scan of the argument list and
  the texts of the officious switches. The queue of arguments is a list; the scan may push a
  rewritten token back, and its termination is proved with the definition. What the environment
  supplies, the program's name and the case table of \<open>str::to_lowercase\<close>, is the record \<open>Env\<close>;
  the presence of \<open>POSIXLY_CORRECT\<close> is a flag. The tests made here are on ASCII characters, so
  walking bytes and walking characters agree.
\<close>

section \<open>Switch tables\<close>

datatype ArgStyle = Flag | Required | Optional

datatype ValueKind = Raw | IntKind | FloatKind | Choice "string list" | Exact "string list"

record Switch =
  sw_key :: string
  sw_names :: "(string \<times> bool) list"
  sw_style :: ArgStyle
  sw_kind :: ValueKind
  ldesc :: string
  arg_desc :: string
  sw_desc :: "string list"
  sw_hidden :: bool

definition switch_new ::
  "string \<Rightarrow> (string \<times> bool) list \<Rightarrow> ArgStyle \<Rightarrow> ValueKind \<Rightarrow> string \<Rightarrow> string \<Rightarrow> string list \<Rightarrow> Switch" where
  "switch_new k names style kind ld ad ds =
     \<lparr> sw_key = k, sw_names = names, sw_style = style, sw_kind = kind, ldesc = ld, arg_desc = ad,
       sw_desc = ds, sw_hidden = False \<rparr>"

definition switch_hidden :: "string \<Rightarrow> (string \<times> bool) list \<Rightarrow> ArgStyle \<Rightarrow> ValueKind \<Rightarrow> Switch" where
  "switch_hidden k names style kind =
     \<lparr> sw_key = k, sw_names = names, sw_style = style, sw_kind = kind, ldesc = '''', arg_desc = '''',
       sw_desc = [], sw_hidden = True \<rparr>"

datatype Value = StrValue string | IntValue i64 | FloatValue f64

fun as_str :: "Value \<Rightarrow> string" where
  "as_str (StrValue s) = s"
| "as_str _ = ''''"

fun as_int :: "Value \<Rightarrow> i64" where
  "as_int (IntValue i) = i"
| "as_int _ = 0"

fun as_float :: "Value \<Rightarrow> f64" where
  "as_float (FloatValue f) = f"
| "as_float _ = of_integer 0"

datatype Item = Opt string bool "Value option" | Positional string

datatype Parsed = Items "Item list" | Exit string string nat

record OptParser =
  banner :: string
  switches :: "Switch list"

record Env =
  program_name :: string
  lowercase :: "string \<Rightarrow> string"

datatype Resolved =
    SwitchHit nat bool
  | Terminator
  | HelpHit
  | VersionHit
  | CompletionBash
  | CompletionZsh

datatype Lookup = Found Resolved | InvalidName | AmbiguousName

section \<open>Looking up a name\<close>

definition OFFICIOUS :: "string list" where
  "OFFICIOUS = [''help'', ''*-completion-bash'', ''*-completion-zsh'', ''version'']"

definition officious :: "string \<Rightarrow> Resolved option" where
  "officious name =
     (if name = ''help'' then Some HelpHit
      else if name = ''version'' then Some VersionHit
      else if name = ''*-completion-bash'' then Some CompletionBash
      else if name = ''*-completion-zsh'' then Some CompletionZsh
      else None)"

text \<open>The nested loops over the switches and their names, as one table.\<close>

definition long_table :: "OptParser \<Rightarrow> (string \<times> Resolved) list" where
  "long_table p =
     concat (map (\<lambda>(i, sw). map (\<lambda>(n, neg). (n, SwitchHit i neg)) (sw_names sw)) (enumerate 0 (switches p)))"

definition exact_name :: "OptParser \<Rightarrow> string \<Rightarrow> Resolved option" where
  "exact_name p name =
     (case map_of (long_table p) name of
        Some r \<Rightarrow> Some r
      | None \<Rightarrow> (case officious name of
            Some r \<Rightarrow> Some r
          | None \<Rightarrow> if name = '''' then Some Terminator else None))"

definition is_word :: "char \<Rightarrow> bool" where
  "is_word c = (is_ascii_alphanumeric c \<or> c = CHR ''_'')"

definition char_eq :: "bool \<Rightarrow> char \<Rightarrow> char \<Rightarrow> bool" where
  "char_eq icase a b = (if icase then to_ascii_lowercase a = to_ascii_lowercase b else a = b)"

function completion_match :: "string \<Rightarrow> string \<Rightarrow> bool \<Rightarrow> bool" where
  "completion_match [] cand icase = True"
| "completion_match (k # ks) cand icase =
     (if is_word k then
        let run = k # takeWhile is_word ks in
        if length run > length cand then False
        else if \<not> list_all2 (char_eq icase) (take (length run) cand) run then False
        else completion_match (dropWhile is_word ks) (dropWhile is_word (drop (length run) cand)) icase
      else (case cand of
          [] \<Rightarrow> False
        | c # cs \<Rightarrow> if \<not> char_eq icase c k then False else completion_match ks cs icase))"
  by pat_completeness auto
termination by (relation "measure (\<lambda>(k, _, _). length k)") (auto simp: less_Suc_eq_le length_dropWhile_le)

fun same_switch :: "Resolved \<Rightarrow> Resolved \<Rightarrow> bool" where
  "same_switch (SwitchHit a na) (SwitchHit b nb) = (a = b \<and> na = nb)"
| "same_switch _ _ = False"

fun resolve_loop :: "string \<Rightarrow> Resolved \<Rightarrow> (string \<times> Resolved) list \<Rightarrow> Lookup" where
  "resolve_loop canon_name canon [] = Found canon"
| "resolve_loop canon_name canon ((kn, v) # cs) =
     (if same_switch canon v then resolve_loop canon_name canon cs
      else if starts_with kn canon_name then resolve_loop kn v cs
      else if starts_with canon_name kn then resolve_loop canon_name canon cs
      else AmbiguousName)"

definition resolve_candidates :: "(string \<times> Resolved) list \<Rightarrow> Lookup option" where
  "resolve_candidates cands =
     (case sort_key (\<lambda>(n, _). length (utf8_chars n)) cands of
        [] \<Rightarrow> None
      | (n, r) # rest \<Rightarrow> Some (resolve_loop n r rest))"

definition complete_name :: "OptParser \<Rightarrow> string \<Rightarrow> bool \<Rightarrow> Lookup" where
  "complete_name p name icase =
     (case exact_name p name of
        Some r \<Rightarrow> Found r
      | None \<Rightarrow>
          (case resolve_candidates (filter (\<lambda>(n, _). completion_match name n icase) (long_table p)) of
             Some r \<Rightarrow> r
           | None \<Rightarrow>
               (case resolve_candidates (map (\<lambda>n. (n, the (officious n)))
                   (filter (\<lambda>n. completion_match name n icase) OFFICIOUS)) of
                  Some r \<Rightarrow> r
                | None \<Rightarrow> InvalidName)))"

definition dictionary :: "OptParser \<Rightarrow> string list" where
  "dictionary p =
     concat (map (\<lambda>sw. map fst (sw_names sw)) (filter (\<lambda>sw. \<not> sw_hidden sw) (switches p))) @ OFFICIOUS @ ['''']"

section \<open>Values\<close>

datatype ValueError = InvalidValue | AmbiguousValue

text \<open>Groups of digits separated by single underscores.\<close>

fun group_rest :: "(char \<Rightarrow> bool) \<Rightarrow> bool \<Rightarrow> string \<Rightarrow> bool" where
  "group_rest ok prev_us [] = (\<not> prev_us)"
| "group_rest ok prev_us (c # cs) =
     (if c = CHR ''_'' then (if prev_us then False else group_rest ok True cs)
      else if ok c then group_rest ok False cs
      else False)"

definition group_ok :: "(char \<Rightarrow> bool) \<Rightarrow> string \<Rightarrow> bool" where
  "group_ok ok t = (case t of [] \<Rightarrow> False | c # _ \<Rightarrow> if ok c then group_rest ok False t else False)"

definition strip_sign :: "string \<Rightarrow> string" where
  "strip_sign s = (case s of c # r \<Rightarrow> if c = CHR ''-'' \<or> c = CHR ''+'' then r else s | [] \<Rightarrow> s)"

definition int_pattern :: "string \<Rightarrow> bool" where
  "int_pattern s =
     (let body = strip_sign s in
      if body = '''' then False
      else case strip_prefix ''0'' (map to_ascii_lowercase body) of
        Some rest \<Rightarrow>
          if rest = '''' then True
          else (case strip_prefix ''b'' rest of
             Some b \<Rightarrow> group_ok (\<lambda>c. c = CHR ''0'' \<or> c = CHR ''1'') b
           | None \<Rightarrow> (case strip_prefix ''x'' rest of
               Some x \<Rightarrow> group_ok (\<lambda>c. is_ascii_digit c \<or> between CHR ''a'' CHR ''f'' c \<or> between CHR ''A'' CHR ''F'' c) x
             | None \<Rightarrow> group_ok (between CHR ''0'' CHR ''7'') rest))
      | None \<Rightarrow> group_ok is_ascii_digit body)"

text \<open>\<open>i64::from_str_radix\<close>: an optional sign, at least one digit, digits below the radix, and a
  value that fits.\<close>

definition digit_of_radix :: "nat \<Rightarrow> char \<Rightarrow> nat option" where
  "digit_of_radix radix c =
     (let d = (if is_ascii_digit c then Some (of_char c - 48 :: nat)
               else if between CHR ''a'' CHR ''z'' c then Some (of_char c - 87)
               else if between CHR ''A'' CHR ''Z'' c then Some (of_char c - 55)
               else None)
      in case d of Some n \<Rightarrow> if n < radix then Some n else None | None \<Rightarrow> None)"

fun radix_loop :: "nat \<Rightarrow> string \<Rightarrow> int \<Rightarrow> int option" where
  "radix_loop radix [] acc = Some acc"
| "radix_loop radix (c # cs) acc =
     (case digit_of_radix radix c of
        Some d \<Rightarrow> radix_loop radix cs (acc * int radix + int d)
      | None \<Rightarrow> None)"

definition from_str_radix :: "string \<Rightarrow> nat \<Rightarrow> int option" where
  "from_str_radix s radix =
     (let (neg, ds) = (case s of
            c # r \<Rightarrow> if c = CHR ''-'' then (True, r) else if c = CHR ''+'' then (False, r) else (False, s)
          | [] \<Rightarrow> (False, s))
      in if ds = '''' then None
         else case radix_loop radix ds 0 of
           Some n \<Rightarrow> (let v = (if neg then - n else n) in if - (2 ^ 63) \<le> v \<and> v < 2 ^ 63 then Some v else None)
         | None \<Rightarrow> None)"

fun strip_any :: "string list \<Rightarrow> string \<Rightarrow> string option" where
  "strip_any [] s = None"
| "strip_any (p # ps) s = (case strip_prefix p s of Some r \<Rightarrow> Some r | None \<Rightarrow> strip_any ps s)"

definition parse_ruby_int :: "string \<Rightarrow> int option" where
  "parse_ruby_int s =
     (let (neg, body0) = (case s of
            c # r \<Rightarrow> if c = CHR ''-'' then (True, r) else if c = CHR ''+'' then (False, r) else (False, s)
          | [] \<Rightarrow> (False, s));
          body = filter (\<lambda>c. c \<noteq> CHR ''_'') body0;
          (radix, digits) =
            (case strip_any [''0x'', ''0X''] body of
               Some h \<Rightarrow> (16, h)
             | None \<Rightarrow> (case strip_any [''0b'', ''0B''] body of
                 Some b \<Rightarrow> (2, b)
               | None \<Rightarrow> (case strip_any [''0o'', ''0O''] body of
                   Some q \<Rightarrow> (8, q)
                 | None \<Rightarrow> if length body > 1 \<and> starts_with ''0'' body then (8, drop 1 body) else (10, body))))
      in map_option (\<lambda>v. if neg then - v else v) (from_str_radix digits radix))"

definition float_pattern :: "string \<Rightarrow> bool" where
  "float_pattern s0 =
     (let s = strip_sign s0;
          is_e = (\<lambda>c. c = CHR ''e'' \<or> c = CHR ''E'');
          mantissa = takeWhile (\<lambda>c. \<not> is_e c) s;
          dec = group_ok is_ascii_digit;
          mantissa_ok = (case split_once CHR ''.'' mantissa of
              Some (a, b) \<Rightarrow> if a = '''' then dec b else dec a \<and> (b = '''' \<or> dec b)
            | None \<Rightarrow> dec mantissa)
      in if \<not> mantissa_ok then False
         else case dropWhile (\<lambda>c. \<not> is_e c) s of [] \<Rightarrow> True | _ # e \<Rightarrow> dec (strip_sign e))"

fun choice_loop :: "string \<Rightarrow> string list \<Rightarrow> ValueError + Value" where
  "choice_loop canon [] = Inr (StrValue canon)"
| "choice_loop canon (c # cs) =
     (if starts_with c canon then choice_loop c cs
      else if \<not> starts_with canon c then Inl AmbiguousValue
      else choice_loop canon cs)"

fun convert :: "ValueKind \<Rightarrow> string \<Rightarrow> ValueError + Value" where
  "convert Raw v = Inr (StrValue v)"
| "convert IntKind v =
     (if \<not> int_pattern v then Inl InvalidValue
      else Inr (IntValue (case parse_ruby_int v of Some n \<Rightarrow> word_of_int n | None \<Rightarrow> word_of_int (2 ^ 63 - 1))))"
| "convert FloatKind v =
     (if \<not> float_pattern v then Inl InvalidValue
      else Inr (FloatValue (case parse_f64 (filter (\<lambda>c. c \<noteq> CHR ''_'') v) of
        Some f \<Rightarrow> f | None \<Rightarrow> of_integer 0)))"
| "convert (Exact allowed) v = (if v \<in> set allowed then Inr (StrValue v) else Inl InvalidValue)"
| "convert (Choice choices) v =
     (if v \<in> set choices then Inr (StrValue v)
      else case sort_key length (filter (\<lambda>c. completion_match v c False) choices) of
        [] \<Rightarrow> Inl InvalidValue
      | canon # cs \<Rightarrow> choice_loop canon cs)"

fun value_reason :: "ValueError \<Rightarrow> string" where
  "value_reason InvalidValue = ''invalid argument''"
| "value_reason AmbiguousValue = ''ambiguous argument''"

definition value_error :: "ValueError \<Rightarrow> string \<Rightarrow> bool \<Rightarrow> string \<Rightarrow> string" where
  "value_error kind token via_eq v =
     (if via_eq then value_reason kind @ '': '' @ token
      else value_reason kind @ '': '' @ token @ '' '' @ v)"

definition short_value_error :: "ValueError \<Rightarrow> string \<Rightarrow> bool \<Rightarrow> string \<Rightarrow> string" where
  "short_value_error kind token shifted v =
     (if shifted then value_reason kind @ '': '' @ token @ '' '' @ v
      else value_reason kind @ '': '' @ token)"

end
