(* ===== verification/Optparse_Scan.thy ===== *)
theory Optparse_Scan
  imports Optparse
begin

text \<open>
  The second half of \<open>optparse.rs\<close>: the texts printed by the officious switches and by an error,
  the handling of one long or short token, and the scan over the argument list.
\<close>

section \<open>Texts\<close>

abbreviation nl :: string where
  "nl \<equiv> [CHR 0x0A]"

definition INDENT :: string where
  "INDENT = ''    ''"

definition WIDTH :: nat where
  "WIDTH = 32"

definition summary_row :: "string \<Rightarrow> string \<Rightarrow> string" where
  "summary_row l r = INDENT @ pad_right WIDTH l @ '' '' @ r @ nl"

text \<open>The first loop of the layout: left cells that are too wide get lines of their own.\<close>

fun wide_rows :: "string list \<Rightarrow> string list \<Rightarrow> string \<Rightarrow> string list \<times> string list \<times> string" where
  "wide_rows [] right out = ([], right, out)"
| "wide_rows (l # ls) right out =
     (if Max (set (map length (l # ls))) \<le> WIDTH then (l # ls, right, out)
      else if length l < WIDTH \<and> right \<noteq> [] \<and> hd right \<noteq> ''''
      then wide_rows ls (tl right) (out @ summary_row l (hd right))
      else wide_rows ls right (out @ INDENT @ l @ nl))"

fun paired_rows :: "string list \<Rightarrow> string list \<Rightarrow> string" where
  "paired_rows [] [] = ''''"
| "paired_rows (l # ls) [] = INDENT @ l @ nl @ paired_rows ls []"
| "paired_rows [] (r # rs) =
     (if r \<noteq> '''' then summary_row '''' r else INDENT @ nl) @ paired_rows [] rs"
| "paired_rows (l # ls) (r # rs) =
     (if r \<noteq> '''' then summary_row l r else INDENT @ l @ nl) @ paired_rows ls rs"

definition switch_rows :: "Switch \<Rightarrow> string" where
  "switch_rows sw =
     (if sw_hidden sw \<or> sw_names sw = [] then ''''
      else let (ls, rs, out) = wide_rows [''    '' @ ldesc sw @ arg_desc sw] (sw_desc sw) ''''
        in out @ paired_rows ls rs)"

definition help_text :: "OptParser \<Rightarrow> string" where
  "help_text p =
     (case strip_suffix nl (banner p) of Some b \<Rightarrow> b | None \<Rightarrow> banner p) @ nl
       @ concat (map switch_rows (switches p))"

definition err :: "Env \<Rightarrow> OptParser \<Rightarrow> string \<Rightarrow> string option \<Rightarrow> Parsed" where
  "err env p msg suggest_for =
     Exit '''' (msg @ nl @
       (case suggest_for of
          None \<Rightarrow> ''''
        | Some opt \<Rightarrow>
            (let corrections = spell_correct (lowercase env) (dictionary p) opt in
             if corrections = [] then ''''
             else ''Did you mean?  '' @ join_str (nl @ ''               '') corrections @ nl))) 64"

fun switch_candidates :: "string \<Rightarrow> bool \<Rightarrow> string option \<Rightarrow> Switch \<Rightarrow> string list" where
  "switch_candidates w long arg sw =
     (if sw_hidden sw then []
      else
        let opts = (if long \<and> completion_match w (ldesc sw) True then [ldesc sw] else [])
        in if starts_with ''='' (arg_desc sw) then
             (case (arg, sw_kind sw) of
                (Some a, Choice choices) \<Rightarrow> filter (\<lambda>c. completion_match a c False) choices
              | _ \<Rightarrow> map (\<lambda>o1. o1 @ ''='') opts)
           else opts)"

definition candidates :: "OptParser \<Rightarrow> string \<Rightarrow> string list" where
  "candidates p word =
     (let (w, arg) =
        (if word = ''-'' then (word, None)
         else if starts_with ''--'' word then
           (case split_once CHR ''='' word of Some (h, a) \<Rightarrow> (h, Some a) | None \<Rightarrow> (word, None))
         else (word, None));
        long = (word = ''-'' \<or> starts_with ''--'' word)
      in concat (map (switch_candidates w long arg) (switches p)))"

definition compsys_escape :: "string \<Rightarrow> string" where
  "compsys_escape d =
     concat (map (\<lambda>c. if c = backslash \<or> c = dquote \<or> c = CHR ''['' \<or> c = CHR '']'' then [backslash, c] else [c]) d)"

definition compsys_row :: "string \<Rightarrow> string \<Rightarrow> string" where
  "compsys_row flag esc = ''  '' @ [dquote] @ flag @ ''['' @ esc @ '']'' @ [dquote] @ '' '' @ [backslash] @ nl"

definition compsys_text :: "Env \<Rightarrow> OptParser \<Rightarrow> string option \<Rightarrow> string" where
  "compsys_text env p name =
     ''#compdef '' @ (case name of Some n \<Rightarrow> n | None \<Rightarrow> program_name env) @ nl
       @ nl @ ''typeset -A opt_args'' @ nl @ ''local context state line'' @ nl @ nl
       @ ''_arguments -s -S '' @ [backslash] @ nl
       @ concat (map (\<lambda>sw.
           let esc = compsys_escape (concat (sw_desc sw)) in
           if sw_hidden sw \<or> sw_names sw = [] then ''''
           else case strip_prefix ''--[no-]'' (ldesc sw) of
             Some inner \<Rightarrow> compsys_row (''--'' @ inner) esc @ compsys_row (''--no-'' @ inner) esc
           | None \<Rightarrow> compsys_row (ldesc sw) esc) (switches p))
       @ ''  '' @ [CHR 0x27] @ ''*:file:_files'' @ [CHR 0x27] @ '' && return 0'' @ nl"

definition version_exit :: "Env \<Rightarrow> string option \<Rightarrow> Parsed" where
  "version_exit env pkg =
     Exit '''' ((case pkg of
         Some name \<Rightarrow> program_name env @ '': no version found in package '' @ name
       | None \<Rightarrow> program_name env @ '': version unknown'') @ nl) 1"

definition completion_exit :: "OptParser \<Rightarrow> string \<Rightarrow> Parsed" where
  "completion_exit p word =
     (let out = concat (map (\<lambda>c. c @ nl) (candidates p word))
      in Exit (if out = '''' then nl else out) '''' 0)"

section \<open>One token\<close>

text \<open>What a token leaves: the items and the queue to go on with, the end of the options with the
  queue that is left, a finished parse, or the code's \<open>unreachable!\<close>.\<close>

datatype Outcome =
    Continue "Item list" "string list"
  | Break "Item list" "string list"
  | Done Parsed
  | Unreachable

text \<open>An argument from the \<open>=\<close> form or from the queue.\<close>

fun take_argument :: "string option \<Rightarrow> string list \<Rightarrow> ((string \<times> bool) \<times> string list) option" where
  "take_argument (Some v) rest = Some ((v, True), rest)"
| "take_argument None (v # rest) = Some ((v, False), rest)"
| "take_argument None [] = None"

definition long_switch ::
  "Env \<Rightarrow> OptParser \<Rightarrow> string \<Rightarrow> string option \<Rightarrow> Switch \<Rightarrow> bool \<Rightarrow> Item list \<Rightarrow> string list \<Rightarrow> Outcome" where
  "long_switch env p tok eq sw negated items rest =
     (case sw_style sw of
        Flag \<Rightarrow>
          if eq \<noteq> None then Done (err env p (''needless argument: '' @ tok) None)
          else Continue (items @ [Opt (sw_key sw) negated None]) rest
      | Required \<Rightarrow>
          (case take_argument eq rest of
             None \<Rightarrow> Done (err env p (''missing argument: '' @ tok) None)
           | Some ((v, via_eq), rest') \<Rightarrow>
               (case convert (sw_kind sw) v of
                  Inr val \<Rightarrow> Continue (items @ [Opt (sw_key sw) negated (Some val)]) rest'
                | Inl e \<Rightarrow> Done (err env p (value_error e tok via_eq v) None)))
      | Optional \<Rightarrow>
          (case eq of
             Some v \<Rightarrow>
               (case convert (sw_kind sw) v of
                  Inr val \<Rightarrow> Continue (items @ [Opt (sw_key sw) negated (Some val)]) rest
                | Inl e \<Rightarrow> Done (err env p (value_error e tok True v) None))
           | None \<Rightarrow> Continue (items @ [Opt (sw_key sw) negated None]) rest))"

definition long_option ::
  "Env \<Rightarrow> OptParser \<Rightarrow> string \<Rightarrow> string \<Rightarrow> Item list \<Rightarrow> string list \<Rightarrow> Outcome" where
  "long_option env p tok stripped items rest =
     (let (name_raw, eq) = (case split_once CHR ''='' stripped of
            Some (n, v) \<Rightarrow> (n, Some v) | None \<Rightarrow> (stripped, None));
          name = replace_char CHR ''_'' ''-'' name_raw
      in case complete_name p name True of
           InvalidName \<Rightarrow> Done (err env p (''invalid option: '' @ tok) (Some name))
         | AmbiguousName \<Rightarrow> Done (err env p (''ambiguous option: '' @ tok) (Some name))
         | Found Terminator \<Rightarrow>
             if eq \<noteq> None then Done (err env p (''needless argument: '' @ tok) None)
             else Break items rest
         | Found HelpHit \<Rightarrow>
             if eq \<noteq> None then Done (err env p (''needless argument: '' @ tok) None)
             else Done (Exit (help_text p) '''' 0)
         | Found VersionHit \<Rightarrow> Done (version_exit env eq)
         | Found CompletionBash \<Rightarrow>
             (case take_argument eq rest of
                None \<Rightarrow> Done (err env p (''missing argument: '' @ tok) None)
              | Some ((word, _), _) \<Rightarrow> Done (completion_exit p word))
         | Found CompletionZsh \<Rightarrow> Done (Exit (compsys_text env p eq) '''' 0)
         | Found (SwitchHit idx negated) \<Rightarrow>
             long_switch env p tok eq (switches p ! idx) negated items rest)"

text \<open>The result of the short branch's own \<open>match style\<close>: an error, or what fired with the part of
  the token left over and the queue.\<close>

definition short_fire ::
  "Env \<Rightarrow> OptParser \<Rightarrow> string \<Rightarrow> ArgStyle \<Rightarrow> ValueKind \<Rightarrow> string option \<Rightarrow> bool \<Rightarrow> string list \<Rightarrow>
    Parsed + (Value option \<times> string option \<times> string list)" where
  "short_fire env p tok style kind val eq rest =
     (case style of
        Flag \<Rightarrow>
          (case val of
             Some v \<Rightarrow> if eq then Inl (err env p (''needless argument: '' @ tok) None)
                       else Inr (None, Some v, rest)
           | None \<Rightarrow> Inr (None, None, rest))
      | Required \<Rightarrow>
          (case take_argument val rest of
             None \<Rightarrow> Inl (err env p (''missing argument: '' @ tok) None)
           | Some ((v, _), rest') \<Rightarrow>
               (case convert kind v of
                  Inr cv \<Rightarrow> Inr (Some cv, None, rest')
                | Inl e \<Rightarrow> Inl (err env p (short_value_error e tok (val = None) v) None)))
      | Optional \<Rightarrow>
          (case val of
             Some v \<Rightarrow>
               (case convert kind v of
                  Inr cv \<Rightarrow> Inr (Some cv, None, rest)
                | Inl e \<Rightarrow> Inl (err env p (short_value_error e tok False v) None))
           | None \<Rightarrow> Inr (None, None, rest)))"

text \<open>The leftover goes back to the front of the queue as one token with a single dash.\<close>

definition requeue :: "bool \<Rightarrow> string option \<Rightarrow> string list \<Rightarrow> string list" where
  "requeue has_rest leftover rest =
     (case leftover of
        None \<Rightarrow> rest
      | Some lo \<Rightarrow>
          if \<not> has_rest then lo # rest
          else (let pushed = CHR ''-'' # dropWhile (\<lambda>c. c = CHR ''-'') lo
                in if pushed \<noteq> ''-'' then pushed # rest else rest))"

fun fired_text :: "Value option \<Rightarrow> string option" where
  "fired_text (Some (StrValue s)) = Some s"
| "fired_text _ = None"

fun style_of_hit :: "OptParser \<Rightarrow> Resolved \<Rightarrow> (ArgStyle \<times> ValueKind) option" where
  "style_of_hit p (SwitchHit i n) = Some (sw_style (switches p ! i), sw_kind (switches p ! i))"
| "style_of_hit p HelpHit = Some (Flag, Raw)"
| "style_of_hit p VersionHit = Some (Optional, Raw)"
| "style_of_hit p CompletionBash = Some (Required, Raw)"
| "style_of_hit p CompletionZsh = Some (Optional, Raw)"
| "style_of_hit p Terminator = None"

fun short_finish ::
  "Env \<Rightarrow> OptParser \<Rightarrow> Resolved \<Rightarrow> Value option \<Rightarrow> bool \<Rightarrow> string option \<Rightarrow> Item list \<Rightarrow> string list \<Rightarrow> Outcome" where
  "short_finish env p HelpHit fired has_rest leftover items rest = Done (Exit (help_text p) '''' 0)"
| "short_finish env p VersionHit fired has_rest leftover items rest = Done (version_exit env (fired_text fired))"
| "short_finish env p CompletionBash fired has_rest leftover items rest =
     Done (completion_exit p (case fired_text fired of Some s \<Rightarrow> s | None \<Rightarrow> ''''))"
| "short_finish env p CompletionZsh fired has_rest leftover items rest =
     Done (Exit (compsys_text env p (fired_text fired)) '''' 0)"
| "short_finish env p (SwitchHit i negated) fired has_rest leftover items rest =
     Continue (items @ [Opt (sw_key (switches p ! i)) negated fired]) (requeue has_rest leftover rest)"
| "short_finish env p Terminator fired has_rest leftover items rest = Unreachable"

definition short_option :: "Env \<Rightarrow> OptParser \<Rightarrow> string \<Rightarrow> Item list \<Rightarrow> string list \<Rightarrow> Outcome" where
  "short_option env p tok items rest =
     (let opt = hd (utf8_chars (tl tok));
          rest_str = drop (1 + length opt) tok;
          has_rest = (rest_str \<noteq> '''');
          eq = (\<not> has_rest \<or> starts_with ''='' rest_str);
          val = (if has_rest then Some rest_str else None)
      in case complete_name p opt False of
           InvalidName \<Rightarrow> Done (err env p (''invalid option: '' @ tok) (Some opt))
         | AmbiguousName \<Rightarrow> Done (err env p (''ambiguous option: '' @ tok) (Some opt))
         | Found hit \<Rightarrow>
             (case style_of_hit p hit of
                None \<Rightarrow> Unreachable
              | Some (style, kind) \<Rightarrow>
                  (case short_fire env p tok style kind val eq rest of
                     Inl out \<Rightarrow> Done out
                   | Inr (fired, leftover, rest') \<Rightarrow>
                       short_finish env p hit fired has_rest leftover items rest')))"

definition scan_token ::
  "Env \<Rightarrow> OptParser \<Rightarrow> string \<Rightarrow> Item list \<Rightarrow> string list \<Rightarrow> Outcome option" where
  "scan_token env p tok items rest =
     (case strip_prefix ''--'' tok of
        Some stripped \<Rightarrow> Some (long_option env p tok stripped items rest)
      | None \<Rightarrow>
          if starts_with ''-'' tok \<and> length tok > 1 then Some (short_option env p tok items rest)
          else None)"

section \<open>The scan\<close>

definition finish :: "Item list \<Rightarrow> string list \<Rightarrow> string list \<Rightarrow> Parsed" where
  "finish items nonopts rest = Items (items @ map Positional (nonopts @ rest))"

definition queue_size :: "string list \<Rightarrow> nat" where
  "queue_size rest = sum_list (map (\<lambda>t. Suc (length t)) rest)"

lemma queue_size_simps [simp]:
  "queue_size [] = 0" "queue_size (t # ts) = Suc (length t) + queue_size ts"
  by (simp_all add: queue_size_def)

lemma take_argument_size:
  "take_argument eq rest = Some ((v, b), rest') \<Longrightarrow> queue_size rest' \<le> queue_size rest"
  by (induction eq rest rule: take_argument.induct) auto

lemma long_switch_size:
  "long_switch env p tok eq sw negated items rest = Continue items' rest' \<Longrightarrow>
    queue_size rest' \<le> queue_size rest"
  by (auto simp: long_switch_def dest: take_argument_size
      split: ArgStyle.splits option.splits sum.splits if_splits prod.splits)

lemma long_option_size:
  "long_option env p tok stripped items rest = Continue items' rest' \<Longrightarrow>
    queue_size rest' \<le> queue_size rest"
  by (auto simp: long_option_def Let_def dest: long_switch_size
      split: Lookup.splits Resolved.splits option.splits if_splits prod.splits)

lemma utf8_chars_hd_length: "s \<noteq> [] \<Longrightarrow> 0 < length (hd (utf8_chars s)) \<and> length (hd (utf8_chars s)) \<le> length s"
  by (cases s) (auto simp: less_Suc_eq_le length_takeWhile_le)

lemma short_fire_size:
  "short_fire env p tok style kind val eq rest = Inr (fired, leftover, rest') \<Longrightarrow>
    queue_size rest' \<le> queue_size rest \<and> (leftover = None \<or> leftover = val)"
  by (auto simp: short_fire_def dest: take_argument_size
      split: ArgStyle.splits option.splits sum.splits if_splits)

lemma requeue_size:
  assumes "leftover = None \<or> leftover = (if has_rest then Some s else None)"
  shows "queue_size (requeue has_rest leftover rest)
    \<le> (if has_rest then Suc (Suc (length s)) else 0) + queue_size rest"
proof (cases "has_rest \<and> leftover = Some s")
  case True
  have "length (dropWhile (\<lambda>c. c = CHR ''-'') s) \<le> length s" by (rule length_dropWhile_le)
  with True show ?thesis by (simp add: requeue_def Let_def)
next
  case False
  with assms have "leftover = None" by (auto split: if_splits)
  then show ?thesis by (simp add: requeue_def)
qed

lemma short_option_shape:
  assumes "short_option env p tok items rest = Continue items' rest'"
  defines "s \<equiv> drop (1 + length (hd (utf8_chars (tl tok)))) tok"
  obtains hit style kind fired leftover r where
    "short_fire env p tok style kind (if s \<noteq> '''' then Some s else None)
       (\<not> s \<noteq> '''' \<or> starts_with ''='' s) rest = Inr (fired, leftover, r)"
    "short_finish env p hit fired (s \<noteq> '''') leftover items r = Continue items' rest'"
    "complete_name p (hd (utf8_chars (tl tok))) False = Found hit"
    "style_of_hit p hit = Some (style, kind)"
  using assms(1) unfolding short_option_def Let_def s_def[symmetric]
  by (auto split: Lookup.splits option.splits sum.splits prod.splits)

lemma short_finish_Continue:
  "short_finish env p hit fired has_rest leftover items r = Continue items' rest' \<Longrightarrow>
    rest' = requeue has_rest leftover r"
  by (cases hit) auto

lemma short_option_size:
  assumes "short_option env p tok items rest = Continue items' rest'" "length tok > 1"
  shows "queue_size rest' < Suc (length tok) + queue_size rest"
proof -
  define s where "s = drop (1 + length (hd (utf8_chars (tl tok)))) tok"
  have "0 < length (hd (utf8_chars (tl tok)))"
    using utf8_chars_hd_length[of "tl tok"] assms(2) by (cases tok) auto
  moreover have "length s = length tok - (1 + length (hd (utf8_chars (tl tok))))" by (simp add: s_def)
  ultimately have "length s > 0 \<longrightarrow> Suc (length s) < length tok" by linarith
  then have len: "Suc (length s) < length tok \<or> s = ''''" by auto
  obtain hit style kind fired leftover r where h:
    "short_fire env p tok style kind (if s \<noteq> '''' then Some s else None)
       (\<not> s \<noteq> '''' \<or> starts_with ''='' s) rest = Inr (fired, leftover, r)"
    "short_finish env p hit fired (s \<noteq> '''') leftover items r = Continue items' rest'"
    using short_option_shape[OF assms(1)] unfolding s_def by metis
  note size = short_fire_size[OF h(1)]
  have "queue_size rest' \<le> (if s \<noteq> '''' then Suc (Suc (length s)) else 0) + queue_size r"
    unfolding short_finish_Continue[OF h(2)] by (rule requeue_size) (use size in blast)
  with size len show ?thesis by (cases "s = ''''") simp_all
qed

lemma scan_token_size:
  assumes "scan_token env p tok items rest = Some (Continue items' rest')"
  shows "queue_size rest' < Suc (length tok) + queue_size rest"
  using assms long_option_size short_option_size
  by (fastforce simp: scan_token_def split: option.splits if_splits)

function parse_loop ::
  "Env \<Rightarrow> OptParser \<Rightarrow> bool \<Rightarrow> string list \<Rightarrow> Item list \<Rightarrow> string list \<Rightarrow> Parsed option" where
  "parse_loop env p posix [] items nonopts = Some (finish items nonopts [])"
| "parse_loop env p posix (tok # rest) items nonopts =
     (case scan_token env p tok items rest of
        Some (Continue items' rest') \<Rightarrow> parse_loop env p posix rest' items' nonopts
      | Some (Break items' rest') \<Rightarrow> Some (finish items' nonopts rest')
      | Some (Done out) \<Rightarrow> Some out
      | Some Unreachable \<Rightarrow> None
      | None \<Rightarrow>
          if posix then Some (finish items nonopts (tok # rest))
          else parse_loop env p posix rest items (nonopts @ [tok]))"
  by pat_completeness auto
termination
  by (relation "measure (\<lambda>(_, _, _, rest, _, _). queue_size rest)") (auto dest: scan_token_size)

definition parse_mode :: "Env \<Rightarrow> OptParser \<Rightarrow> string list \<Rightarrow> bool \<Rightarrow> Parsed option" where
  "parse_mode env p argv posix = parse_loop env p posix argv [] []"

definition parse_order :: "Env \<Rightarrow> OptParser \<Rightarrow> string list \<Rightarrow> Parsed option" where
  "parse_order env p argv = parse_mode env p argv True"

text \<open>What the caller prints and returns: the items, or the two texts with the exit code.\<close>

fun items_or_exit :: "Parsed \<Rightarrow> (string \<times> string \<times> nat) + Item list" where
  "items_or_exit (Items items) = Inr items"
| "items_or_exit (Exit out errs code) = Inl (out, errs, code)"

fun items_or_exit_usage :: "Parsed \<Rightarrow> string \<Rightarrow> (string \<times> string \<times> nat) + Item list" where
  "items_or_exit_usage (Items items) usage = Inr items"
| "items_or_exit_usage (Exit out errs code) usage =
     Inl (out, errs @ (if code = 64 then (case strip_suffix nl usage of Some _ \<Rightarrow> usage | None \<Rightarrow> usage @ nl)
       else ''''), code)"

end
