(* ===== verification/Optparse_Laws.thy ===== *)
theory Optparse_Laws
  imports Optparse_Scan Suggest_Laws "HOL-Library.Sublist"
begin

text \<open>
  The laws behind the option parser: what a lookup can resolve to, the regular expression its
  completion stands for, the types of converted values, the items a scan emits, and the
  Levenshtein loop of the suggestions as the edit distance.
\<close>

section \<open>Lookups\<close>

lemma long_table_hit:
  assumes "(n, r) \<in> set (long_table p)"
  obtains i neg where "r = SwitchHit i neg" "i < length (switches p)" "(n, neg) \<in> set (sw_names (switches p ! i))"
  using assms by (auto simp: long_table_def in_set_enumerate_eq)

lemma officious_hit:
  "officious n = Some r \<Longrightarrow> r \<in> {HelpHit, VersionHit, CompletionBash, CompletionZsh} \<and> n \<in> set OFFICIOUS"
  by (auto simp: officious_def OFFICIOUS_def split: if_splits)

lemma officious_total: "n \<in> set OFFICIOUS \<Longrightarrow> \<exists>r. officious n = Some r"
  by (auto simp: officious_def OFFICIOUS_def)

text \<open>A table as the commands declare it: every name and every hit once, and the names ASCII.\<close>

definition entries_ok :: "(string \<times> Resolved) list \<Rightarrow> bool" where
  "entries_ok es = (distinct (map fst es) \<and> distinct (map snd es) \<and> (\<forall>(n, _) \<in> set es. is_ascii n))"

definition table_ok :: "OptParser \<Rightarrow> bool" where
  "table_ok p = entries_ok (long_table p)"

definition no_empty_name :: "OptParser \<Rightarrow> bool" where
  "no_empty_name p = ('''' \<notin> fst ` set (long_table p))"

lemma utf8_chars_ascii: "is_ascii s \<Longrightarrow> length (utf8_chars s) = length s"
proof (induction s)
  case (Cons c s)
  have "takeWhile continues_char s = []" "dropWhile continues_char s = s"
    using Cons.prems by (cases s; force simp: is_ascii_def continues_char_def)+
  with Cons show ?case by (simp add: is_ascii_def)
qed simp

lemma same_switch_iff: "same_switch a b \<longleftrightarrow> a = b \<and> (\<exists>i n. a = SwitchHit i n)"
  by (cases "(a, b)" rule: same_switch.cases) auto

lemma resolve_loop_closed:
  assumes "\<forall>(kn, v) \<in> set cs. length cn \<le> length kn \<and> kn \<noteq> cn \<and> v \<noteq> c"
  shows "resolve_loop cn c cs = (if \<forall>(kn, _) \<in> set cs. starts_with cn kn then Found c else AmbiguousName)"
  using assms
proof (induction cs)
  case (Cons e cs)
  obtain kn v where e: "e = (kn, v)" by force
  have "\<not> starts_with kn cn" "\<not> same_switch c v"
    using Cons.prems by (auto simp: e starts_with_iff same_switch_iff)
  with Cons show ?case by (simp add: e)
qed simp

text \<open>The specification of a resolution: the one entry whose name begins all the others.\<close>

definition begins_all :: "(string \<times> Resolved) list \<Rightarrow> Resolved \<Rightarrow> bool" where
  "begins_all es r = (\<exists>n. (n, r) \<in> set es \<and> (\<forall>(n', _) \<in> set es. starts_with n n'))"

lemma resolve_candidates_spec:
  assumes "entries_ok es"
  shows "resolve_candidates es = None \<longleftrightarrow> es = []"
    and "resolve_candidates es = Some (Found r) \<longleftrightarrow> begins_all es r"
    and "resolve_candidates es = Some AmbiguousName \<longleftrightarrow> es \<noteq> [] \<and> (\<nexists>r. begins_all es r)"
    and "resolve_candidates es \<noteq> Some InvalidName"
proof -
  let ?s = "sort_key (\<lambda>(n, _). length (utf8_chars n)) es"
  show none: "resolve_candidates es = None \<longleftrightarrow> es = []"
    by (auto simp: resolve_candidates_def split: list.splits)
      (metis length_0_conv length_sort)
  have closed: "resolve_candidates es
      = Some (if \<forall>(kn, _) \<in> set es. starts_with n kn then Found c else AmbiguousName)
    \<and> (n, c) \<in> set es \<and> (\<forall>(kn, _) \<in> set es. length n \<le> length kn)"
    if s: "?s = (n, c) # cs" for n c cs
  proof -
    have sets: "set es = insert (n, c) (set cs)" using s by (metis list.simps(15) set_sort)
    have "distinct (map fst ?s)" "distinct (map snd ?s)"
      using assms by (simp_all add: entries_ok_def distinct_map)
    then have fresh: "\<forall>(kn, v) \<in> set cs. kn \<noteq> n \<and> v \<noteq> c" unfolding s by force
    have "sorted (map (\<lambda>(n, _). length (utf8_chars n)) ?s)" by (rule sorted_sort_key)
    then have "\<forall>(kn, _) \<in> set cs. length (utf8_chars n) \<le> length (utf8_chars kn)"
      unfolding s by auto
    then have short: "\<forall>(kn, _) \<in> set cs. length n \<le> length kn"
      using assms sets by (fastforce simp: entries_ok_def utf8_chars_ascii)
    with fresh have "resolve_loop n c cs = (if \<forall>(kn, _) \<in> set cs. starts_with n kn then Found c else AmbiguousName)"
      by (intro resolve_loop_closed) auto
    then show ?thesis using s sets short by (auto simp: resolve_candidates_def starts_with_iff)
  qed
  have uniq: "n = m \<and> c = d" if "(n, c) \<in> set es" "(m, d) \<in> set es" "starts_with n m" "length m \<le> length n" for n c m d
  proof -
    from that(3,4) have "n = m" by (auto simp: starts_with_iff)
    with that(1,2) assms show ?thesis by (auto simp: entries_ok_def dest: eq_key_imp_eq_value)
  qed
  have found: "resolve_candidates es = Some (Found r) \<longleftrightarrow> begins_all es r" for r
  proof (cases ?s)
    case Nil
    then have "es = []" by (metis length_0_conv length_sort)
    then show ?thesis using none by (simp add: begins_all_def)
  next
    case (Cons e cs)
    obtain n c where e: "e = (n, c)" by force
    note cl = closed[OF Cons[unfolded e]]
    show ?thesis
    proof
      assume "resolve_candidates es = Some (Found r)"
      with cl show "begins_all es r" unfolding begins_all_def by (auto split: if_splits)
    next
      assume "begins_all es r"
      then obtain m where m: "(m, r) \<in> set es" "\<forall>(n', _) \<in> set es. starts_with m n'"
        unfolding begins_all_def by blast
      have "m = n \<and> r = c" using uniq[OF m(1), of n c] m cl by auto
      with cl m show "resolve_candidates es = Some (Found r)" by simp
    qed
  qed
  then show "resolve_candidates es = Some (Found r) \<longleftrightarrow> begins_all es r" .
  show invalid: "resolve_candidates es \<noteq> Some InvalidName"
  proof (cases ?s)
    case (Cons e cs)
    then show ?thesis using closed[of "fst e" "snd e" cs] by simp
  qed (simp add: resolve_candidates_def)
  show "resolve_candidates es = Some AmbiguousName \<longleftrightarrow> es \<noteq> [] \<and> (\<nexists>r. begins_all es r)"
  proof (cases "resolve_candidates es")
    case (Some l)
    with invalid found none show ?thesis by (cases l) auto
  qed (use none in simp)
qed

definition matching :: "OptParser \<Rightarrow> string \<Rightarrow> bool \<Rightarrow> (string \<times> Resolved) list" where
  "matching p name icase = filter (\<lambda>(n, _). completion_match name n icase) (long_table p)"

definition matching_officious :: "string \<Rightarrow> bool \<Rightarrow> (string \<times> Resolved) list" where
  "matching_officious name icase =
     map (\<lambda>n. (n, the (officious n))) (filter (\<lambda>n. completion_match name n icase) OFFICIOUS)"

lemma matching_ok: "table_ok p \<Longrightarrow> entries_ok (matching p name icase)"
  by (auto simp: table_ok_def entries_ok_def matching_def distinct_map_filter)

lemma officious_ok: "entries_ok (map (\<lambda>n. (n, the (officious n))) OFFICIOUS)"
  by code_simp

lemma matching_officious_ok: "entries_ok (matching_officious name icase)"
proof -
  have "matching_officious name icase
      = filter (\<lambda>(n, _). completion_match name n icase) (map (\<lambda>n. (n, the (officious n))) OFFICIOUS)"
    by (simp add: matching_officious_def filter_map comp_def)
  with officious_ok show ?thesis
    by (auto simp: entries_ok_def distinct_map_filter simp del: map_map)
qed

lemma complete_name_hit:
  assumes "complete_name p name icase = Found r"
  shows "(r = Terminator \<longrightarrow> name = '''') \<and> (\<forall>i neg. r = SwitchHit i neg \<longrightarrow>
     i < length (switches p) \<and> (\<exists>n. (n, neg) \<in> set (sw_names (switches p ! i))))"
proof -
  have loop: "\<exists>n. (n, r) \<in> insert (cn, c) (set cs)" if "resolve_loop cn c cs = Found r" for cn c cs
    using that by (induction cn c cs rule: resolve_loop.induct) (auto split: if_splits)
  have res: "\<exists>n. (n, r) \<in> set es" if "resolve_candidates es = Some (Found r)" for es
  proof -
    from that obtain n c cs where s: "sort_key (\<lambda>(n, _). length (utf8_chars n)) es = (n, c) # cs"
      "resolve_loop n c cs = Found r" by (auto simp: resolve_candidates_def split: list.splits)
    have "set es = insert (n, c) (set cs)" using s(1) by (metis list.simps(15) set_sort)
    with loop[OF s(2)] show ?thesis by simp
  qed
  consider (table) n where "(n, r) \<in> set (long_table p)"
    | (officious) n where "officious n = Some r"
    | (terminator) "r = Terminator" "name = []"
  proof (cases "exact_name p name")
    case None
    with assms consider
        "resolve_candidates (filter (\<lambda>(n, _). completion_match name n icase) (long_table p)) = Some (Found r)"
      | "resolve_candidates (map (\<lambda>n. (n, the (officious n)))
          (filter (\<lambda>n. completion_match name n icase) OFFICIOUS)) = Some (Found r)"
      by (auto simp: complete_name_def split: option.splits)
    then show ?thesis
    proof cases
      case 1
      from res[OF this] show ?thesis by (auto intro: table)
    next
      case 2
      from res[OF this] show ?thesis using officious_total by (fastforce intro: officious)
    qed
  next
    case (Some r')
    with assms show ?thesis
      by (auto simp: complete_name_def exact_name_def split: option.splits if_splits
          dest: map_of_SomeD intro: table officious terminator)
  qed
  then show ?thesis
  proof cases
    case table
    then show ?thesis by (elim long_table_hit) auto
  next
    case officious
    then show ?thesis by (auto dest: officious_hit)
  qed simp
qed

section \<open>The pattern of a completion\<close>

text \<open>The regular expression: every maximal run of word characters of the key may be extended by
  word characters, every other character stands for itself, and anything may follow.\<close>

inductive completes :: "bool \<Rightarrow> string \<Rightarrow> string \<Rightarrow> bool" for icase where
  end_of_key: "completes icase [] cand"
| literal: "\<not> is_word k \<Longrightarrow> char_eq icase c k \<Longrightarrow> completes icase ks cs \<Longrightarrow>
    completes icase (k # ks) (c # cs)"
| word_run: "run_of is_word run \<Longrightarrow> ks = [] \<or> \<not> is_word (hd ks) \<Longrightarrow>
    list_all2 (char_eq icase) pre run \<Longrightarrow> \<forall>c \<in> set ext. is_word c \<Longrightarrow> completes icase ks cs \<Longrightarrow>
    completes icase (run @ ks) (pre @ ext @ cs)"

lemma char_eq_word: "char_eq icase c k \<Longrightarrow> is_word c = is_word k"
  by (auto simp: char_eq_def to_ascii_lowercase_def is_word_def is_ascii_alphanumeric_def
      is_ascii_alphabetic_def is_ascii_digit_def between_def of_char_of split: if_splits)

lemma takeWhile_run: "\<forall>c \<in> set run. P c \<Longrightarrow> ks = [] \<or> \<not> P (hd ks) \<Longrightarrow>
    takeWhile P (run @ ks) = run \<and> dropWhile P (run @ ks) = ks"
  by (induction run) (cases ks; auto)+

lemma completion_match_sound: "completion_match pat cand icase \<Longrightarrow> completes icase pat cand"
proof (induction pat cand icase rule: completion_match.induct)
  case (2 k ks cand icase)
  show ?case
  proof (cases "is_word k")
    case True
    let ?run = "k # takeWhile is_word ks"
    let ?rest = "drop (length ?run) cand"
    have m: "length ?run \<le> length cand" "list_all2 (char_eq icase) (take (length ?run) cand) ?run"
      "completion_match (dropWhile is_word ks) (dropWhile is_word ?rest) icase"
      using "2.prems" True by (auto simp: Let_def not_less split: if_splits)
    have "completes icase (dropWhile is_word ks) (dropWhile is_word ?rest)"
      using "2.IH"(1)[OF True refl] m by auto
    then have "completes icase (?run @ dropWhile is_word ks)
      (take (length ?run) cand @ takeWhile is_word ?rest @ dropWhile is_word ?rest)"
      using True m(2) hd_dropWhile[of is_word ks]
      by (intro word_run) (auto simp: run_of_def dest: set_takeWhileD)
    then show ?thesis by simp
  next
    case False
    then show ?thesis using 2 by (auto split: list.splits if_splits intro: literal)
  qed
qed (auto intro: completes.intros)

lemma completion_match_complete: "completes icase pat cand \<Longrightarrow> completion_match pat cand icase"
proof (induction rule: completes.induct)
  case (word_run run ks pre ext cs)
  obtain k r where run: "run = k # r" using word_run(1) by (cases run) (auto simp: run_of_def)
  have w: "is_word k" "\<forall>c \<in> set r. is_word c" using word_run(1) by (auto simp: run_of_def run)
  have tw: "takeWhile is_word (r @ ks) = r" "dropWhile is_word (r @ ks) = ks"
    using takeWhile_run[OF w(2) word_run(2)] by auto
  have len: "length pre = length run" using word_run(3) by (rule list_all2_lengthD)
  have "completion_match ks (dropWhile is_word (ext @ cs)) icase"
  proof (cases ks)
    case (Cons k' ks')
    with word_run(2) have "\<not> is_word k'" by simp
    with word_run.IH Cons obtain c cs' where c: "cs = c # cs'" "char_eq icase c k'"
      by (auto split: list.splits if_splits)
    then have "\<not> is_word c" using char_eq_word \<open>\<not> is_word k'\<close> by blast
    then have "dropWhile is_word (ext @ cs) = cs" using takeWhile_run[of ext is_word cs] word_run(4) c by auto
    with word_run.IH show ?thesis by simp
  qed simp
  then show ?case using w tw len word_run(3) by (simp add: run)
qed auto

lemma completion_match_iff: "completion_match pat cand icase \<longleftrightarrow> completes icase pat cand"
  using completion_match_sound completion_match_complete by blast

section \<open>Converted values\<close>

fun value_of_kind :: "ValueKind \<Rightarrow> Value \<Rightarrow> bool" where
  "value_of_kind Raw v = (\<exists>s. v = StrValue s)"
| "value_of_kind IntKind v = (\<exists>i. v = IntValue i)"
| "value_of_kind FloatKind v = (\<exists>f. v = FloatValue f)"
| "value_of_kind (Choice choices) v = (\<exists>s \<in> set choices. v = StrValue s)"
| "value_of_kind (Exact allowed) v = (\<exists>s \<in> set allowed. v = StrValue s)"

lemma choice_loop_value:
  "choice_loop canon cs = Inr v \<Longrightarrow> \<exists>s \<in> insert canon (set cs). v = StrValue s"
  by (induction canon cs rule: choice_loop.induct) (auto split: if_splits)

lemma convert_value:
  assumes "convert k v = Inr val" shows "value_of_kind k val"
proof (cases k)
  case (Choice choices)
  show ?thesis
  proof (cases "v \<in> set choices")
    case False
    let ?s = "sort_key length (filter (\<lambda>c. completion_match v c False) choices)"
    from assms Choice False obtain canon cs where s: "?s = canon # cs" "choice_loop canon cs = Inr val"
      by (auto split: list.splits)
    have "insert canon (set cs) = {c \<in> set choices. completion_match v c False}"
      using s(1) by (metis list.simps(15) set_filter set_sort)
    with choice_loop_value[OF s(2)] Choice show ?thesis by auto
  qed (use assms Choice in auto)
qed (use assms in \<open>auto split: if_splits\<close>)

section \<open>The items of a scan\<close>

text \<open>An item a command can rely on: its key and side stand in the table, and its value is there
  and of its kind as the style says.\<close>

definition fits_switch :: "bool \<Rightarrow> Value option \<Rightarrow> Switch \<Rightarrow> bool" where
  "fits_switch neg val sw =
     ((\<exists>n. (n, neg) \<in> set (sw_names sw))
      \<and> (case sw_style sw of
           Flag \<Rightarrow> val = None
         | Required \<Rightarrow> (\<exists>v. val = Some v \<and> value_of_kind (sw_kind sw) v)
         | Optional \<Rightarrow> (\<forall>v. val = Some v \<longrightarrow> value_of_kind (sw_kind sw) v)))"

fun item_ok :: "OptParser \<Rightarrow> Item \<Rightarrow> bool" where
  "item_ok p (Opt k neg val) = (\<exists>sw \<in> set (switches p). sw_key sw = k \<and> fits_switch neg val sw)"
| "item_ok p (Positional s) = True"

lemma long_switch_items:
  assumes "long_switch env p tok eq sw neg items rest = out" "sw \<in> set (switches p)"
    and "\<exists>n. (n, neg) \<in> set (sw_names sw)"
  shows "out \<noteq> Unreachable"
    and "out = Continue items' rest' \<Longrightarrow> \<exists>it. items' = items @ [it] \<and> item_ok p it"
    and "out \<noteq> Break items' rest'"
  using assms
  by (auto simp: long_switch_def fits_switch_def dest: convert_value
      split: ArgStyle.splits option.splits sum.splits if_splits prod.splits intro!: bexI[of _ sw])

definition is_option :: "string \<Rightarrow> bool" where
  "is_option t = (starts_with ''--'' t \<or> (starts_with ''-'' t \<and> length t > 1))"

lemma scan_token_None: "scan_token env p tok items rest = None \<longleftrightarrow> \<not> is_option tok"
  by (auto simp: scan_token_def is_option_def starts_with_iff strip_prefix_Some split: option.splits if_splits)

text \<open>How a token that is consumed changes the queue.\<close>

definition queue_step :: "string list \<Rightarrow> string list \<Rightarrow> bool" where
  "queue_step rest rest' =
     (rest' = rest \<or> (\<exists>t. rest = t # rest') \<or> (\<exists>t. rest' = t # rest \<and> is_option t \<and> t \<noteq> ''--''))"

lemma queue_step_refl [simp]: "queue_step rest rest"
  by (simp add: queue_step_def)

lemma take_argument_step: "take_argument eq rest = Some (v, rest') \<Longrightarrow> queue_step rest rest'"
  by (induction eq rest rule: take_argument.induct) (auto simp: queue_step_def)

lemma long_switch_step:
  "long_switch env p tok eq sw neg items rest = Continue items' rest' \<Longrightarrow> queue_step rest rest'"
  by (auto simp: long_switch_def dest: take_argument_step
      split: ArgStyle.splits option.splits sum.splits if_splits prod.splits)

lemma requeue_option:
  "queue_step rest (requeue True (Some lo) rest)"
proof (cases "dropWhile (\<lambda>c. c = CHR ''-'') lo")
  case (Cons c cs)
  then have "c \<noteq> CHR ''-''" using hd_dropWhile[of "\<lambda>c. c = CHR ''-''" lo] by auto
  then show ?thesis by (auto simp: requeue_def queue_step_def is_option_def Cons)
qed (simp add: requeue_def queue_step_def)

lemma short_fire_step:
  assumes "short_fire env p tok style kind val eq rest = Inr (fired, leftover, r)"
  shows "leftover = None \<and> queue_step rest r \<or> (r = rest \<and> leftover = val \<and> style = Flag)"
  using assms
  by (auto simp: short_fire_def dest: take_argument_step
      split: ArgStyle.splits option.splits sum.splits if_splits)

lemma short_fire_value:
  assumes "short_fire env p tok (sw_style sw) (sw_kind sw) val eq rest = Inr (fired, leftover, r)"
    and "(n, neg) \<in> set (sw_names sw)"
  shows "fits_switch neg fired sw"
  using assms
proof (cases "sw_style sw")
  case Required
  with assms(1) obtain v b cv where "convert (sw_kind sw) v = Inr cv" "fired = Some cv"
    by (auto simp: short_fire_def split: option.splits sum.splits)
  with assms(2) Required show ?thesis using convert_value by (auto simp: fits_switch_def)
next
  case Optional
  with assms(1) have "fired = None \<or> (\<exists>v cv. convert (sw_kind sw) v = Inr cv \<and> fired = Some cv)"
    by (auto simp: short_fire_def split: option.splits sum.splits)
  with assms(2) Optional show ?thesis using convert_value by (auto simp: fits_switch_def)
qed (use assms in \<open>auto simp: short_fire_def fits_switch_def split: option.splits if_splits\<close>)

text \<open>What one option token can do.\<close>

lemma short_option_outcome:
  assumes "short_option env p tok items rest = out" "length tok > 1"
  shows "out \<noteq> Unreachable \<and> (\<forall>i r. out \<noteq> Break i r)
    \<and> (\<forall>items' rest'. out = Continue items' rest' \<longrightarrow>
         (\<exists>it. items' = items @ [it] \<and> item_ok p it \<and> (\<forall>s. it \<noteq> Positional s)) \<and> queue_step rest rest')"
proof -
  have opt: "hd (utf8_chars (tl tok)) \<noteq> ''''"
    using utf8_chars_hd_length[of "tl tok"] assms(2) by (cases tok) auto
  note hit = complete_name_hit[of p "hd (utf8_chars (tl tok))" False]
  have nt: "style_of_hit p h \<noteq> None" if "complete_name p (hd (utf8_chars (tl tok))) False = Found h" for h
    using hit[OF that] opt by (cases h) auto
  have "out \<noteq> Unreachable \<and> (\<forall>i r. out \<noteq> Break i r)"
  proof -
    have "short_finish env p h fired hr lo items r \<noteq> Unreachable
        \<and> (\<forall>i r'. short_finish env p h fired hr lo items r \<noteq> Break i r')"
      if "complete_name p (hd (utf8_chars (tl tok))) False = Found h" for h fired hr lo r
      using hit[OF that] opt by (cases h) auto
    then show ?thesis using assms(1) nt unfolding short_option_def Let_def
      by (auto split: Lookup.splits option.splits sum.splits prod.splits)
  qed
  moreover have "(\<exists>it. items' = items @ [it] \<and> item_ok p it \<and> (\<forall>s. it \<noteq> Positional s)) \<and> queue_step rest rest'"
    if c: "out = Continue items' rest'" for items' rest'
  proof -
    obtain h style kind fired leftover r where
      f: "short_fire env p tok style kind
          (if drop (1 + length (hd (utf8_chars (tl tok)))) tok \<noteq> ''''
           then Some (drop (1 + length (hd (utf8_chars (tl tok)))) tok) else None)
          (\<not> drop (1 + length (hd (utf8_chars (tl tok)))) tok \<noteq> ''''
           \<or> starts_with ''='' (drop (1 + length (hd (utf8_chars (tl tok)))) tok)) rest = Inr (fired, leftover, r)"
      and g: "short_finish env p h fired (drop (1 + length (hd (utf8_chars (tl tok)))) tok \<noteq> '''')
          leftover items r = Continue items' rest'"
      and found: "complete_name p (hd (utf8_chars (tl tok))) False = Found h"
      and style: "style_of_hit p h = Some (style, kind)"
      by (rule short_option_shape[OF assms(1)[unfolded c]])
    from g obtain i neg where h: "h = SwitchHit i neg" by (cases h) auto
    with hit[OF found] obtain n where i: "i < length (switches p)" "(n, neg) \<in> set (sw_names (switches p ! i))"
      by auto
    have "fits_switch neg fired (switches p ! i)"
      using short_fire_value[OF _ i(2)] f style h by simp
    then have "item_ok p (Opt (sw_key (switches p ! i)) neg fired)" using i(1) by auto
    moreover have "items' = items @ [Opt (sw_key (switches p ! i)) neg fired]" using g h by simp
    moreover have "queue_step rest rest'"
    proof -
      have q: "rest' = requeue (drop (1 + length (hd (utf8_chars (tl tok)))) tok \<noteq> '''') leftover r"
        by (rule short_finish_Continue[OF g])
      from short_fire_step[OF f] show ?thesis
      proof
        assume "leftover = None \<and> queue_step rest r"
        then show ?thesis unfolding q by (simp add: requeue_def)
      next
        assume l: "r = rest \<and> leftover = (if drop (1 + length (hd (utf8_chars (tl tok)))) tok \<noteq> ''''
           then Some (drop (1 + length (hd (utf8_chars (tl tok)))) tok) else None) \<and> style = Flag"
        show ?thesis
        proof (cases "drop (1 + length (hd (utf8_chars (tl tok)))) tok = ''''")
          case True
          with l show ?thesis unfolding q by (simp add: requeue_def queue_step_def)
        next
          case False
          with l requeue_option show ?thesis unfolding q by simp
        qed
      qed
    qed
    ultimately show ?thesis by blast
  qed
  ultimately show ?thesis by blast
qed

lemma long_switch_opt:
  "long_switch env p tok eq sw neg items rest = Continue items' rest' \<Longrightarrow>
    \<exists>val. items' = items @ [Opt (sw_key sw) neg val]"
  by (auto simp: long_switch_def split: ArgStyle.splits option.splits sum.splits if_splits prod.splits)

lemma split_once_Nil: "split_once c s = Some ([], v) \<Longrightarrow> s = c # v"
  by (cases s) (auto simp: split_once_def split: list.splits if_splits)

lemma replace_char_Nil: "replace_char c [d] s = [] \<longleftrightarrow> s = []"
  by (cases s) (simp_all add: replace_char_def)

lemma long_option_outcome:
  assumes "long_option env p tok stripped items rest = out" "tok = ''--'' @ stripped"
  shows "out \<noteq> Unreachable
    \<and> (\<forall>i r. out = Break i r \<longrightarrow> tok = ''--'' \<and> i = items \<and> r = rest)
    \<and> (\<forall>items' rest'. out = Continue items' rest' \<longrightarrow>
         (\<exists>it. items' = items @ [it] \<and> item_ok p it \<and> (\<forall>s. it \<noteq> Positional s)) \<and> queue_step rest rest')"
proof -
  obtain name_raw eq where split: "(case split_once CHR ''='' stripped of
      Some (n, v) \<Rightarrow> (n, Some v) | None \<Rightarrow> (stripped, None)) = (name_raw, eq)" by force
  let ?name = "replace_char CHR ''_'' ''-'' name_raw"
  note out = assms(1)[unfolded long_option_def Let_def split prod.case]
  show ?thesis
  proof (cases "\<exists>i neg. complete_name p ?name True = Found (SwitchHit i neg)")
    case True
    then obtain i neg where sw: "complete_name p ?name True = Found (SwitchHit i neg)" by blast
    then have "switches p ! i \<in> set (switches p)" "\<exists>n. (n, neg) \<in> set (sw_names (switches p ! i))"
      using complete_name_hit[OF sw] by auto
    note facts = long_switch_items[OF _ this] long_switch_opt long_switch_step
    have o: "long_switch env p tok eq (switches p ! i) neg items rest = out" using out sw by simp
    show ?thesis
    proof (intro conjI allI impI)
      fix items' rest' assume c: "out = Continue items' rest'"
      show "\<exists>it. items' = items @ [it] \<and> item_ok p it \<and> (\<forall>s. it \<noteq> Positional s)"
        using facts(2)[OF o c] facts(4)[OF o[unfolded c]] by auto
      show "queue_step rest rest'" using facts(5)[OF o[unfolded c]] .
    qed (use facts(1,3)[OF o] in auto)
  next
    case False
    show ?thesis
    proof (cases "complete_name p ?name True = Found Terminator")
      case True
      then have "name_raw = ''''" using complete_name_hit[OF True] by (simp add: replace_char_Nil)
      then have "eq = None \<longrightarrow> tok = ''--''" using split assms(2) by (auto split: option.splits)
      with True out show ?thesis by (auto split: if_splits)
    next
      case not_terminator: False
      then have "\<exists>res. out = Done res"
        using out False by (auto split: Lookup.splits Resolved.splits if_splits option.splits)
      then show ?thesis by auto
    qed
  qed
qed

lemma scan_token_outcome:
  assumes "scan_token env p tok items rest = Some out"
  shows "out \<noteq> Unreachable
    \<and> (\<forall>i r. out = Break i r \<longrightarrow> tok = ''--'' \<and> i = items \<and> r = rest)
    \<and> (\<forall>items' rest'. out = Continue items' rest' \<longrightarrow>
         (\<exists>it. items' = items @ [it] \<and> item_ok p it \<and> (\<forall>s. it \<noteq> Positional s)) \<and> queue_step rest rest')"
proof (cases "strip_prefix ''--'' tok")
  case (Some stripped)
  then have "tok = ''--'' @ stripped" by (simp add: strip_prefix_Some)
  with assms Some show ?thesis by (intro long_option_outcome) (simp_all add: scan_token_def)
next
  case None
  with assms have o: "short_option env p tok items rest = out" "length tok > 1"
    by (simp_all add: scan_token_def split: if_splits)
  from short_option_outcome[OF o] show ?thesis by blast
qed

lemma exits [simp]:
  "err env p msg sug = Items its \<longleftrightarrow> False" "version_exit env pkg = Items its \<longleftrightarrow> False"
  "completion_exit p word = Items its \<longleftrightarrow> False"
  by (simp_all add: err_def version_exit_def completion_exit_def Let_def)

lemma long_switch_done: "long_switch env p tok eq sw neg items rest \<noteq> Done (Items its)"
  by (auto simp: long_switch_def split: ArgStyle.splits option.splits sum.splits if_splits prod.splits)

lemma short_fire_done: "short_fire env p tok style k val eq rest \<noteq> Inl (Items its)"
  by (auto simp: short_fire_def split: ArgStyle.splits option.splits sum.splits if_splits)

lemma short_finish_done: "short_finish env p hit fired hr lo items r \<noteq> Done (Items its)"
  by (cases hit) auto

lemma scan_token_done: "scan_token env p tok items rest \<noteq> Some (Done (Items its))"
proof (cases "strip_prefix ''--'' tok")
  case None
  have "short_option env p tok items rest \<noteq> Done (Items its)"
    unfolding short_option_def Let_def using short_fire_done short_finish_done
    by (auto split: Lookup.splits option.splits sum.splits prod.splits)
  with None show ?thesis by (simp add: scan_token_def)
next
  case (Some stripped)
  have "long_option env p tok stripped items rest \<noteq> Done (Items its)"
    unfolding long_option_def Let_def using long_switch_done
    by (auto split: Lookup.splits Resolved.splits option.splits if_splits prod.splits)
  with Some show ?thesis by (simp add: scan_token_def)
qed

section \<open>The whole scan\<close>

fun positionals :: "Item list \<Rightarrow> string list" where
  "positionals [] = []"
| "positionals (Positional s # its) = s # positionals its"
| "positionals (Opt _ _ _ # its) = positionals its"

lemma positionals_append [simp]: "positionals (xs @ ys) = positionals xs @ positionals ys"
  by (induction xs rule: positionals.induct) auto

lemma positionals_map [simp]: "positionals (map Positional ss) = ss"
  by (induction ss) auto

lemma parse_loop_items:
  assumes "\<forall>it \<in> set items. item_ok p it" "positionals items = []"
  shows "\<exists>out. parse_loop env p posix queue items nonopts = Some out
    \<and> (\<forall>its. out = Items its \<longrightarrow> (\<forall>it \<in> set its. item_ok p it)
        \<and> (\<exists>ps. positionals its = nonopts @ ps \<and> subseq ps queue
            \<and> (\<forall>t q. queue = t # q \<and> is_option t \<longrightarrow> subseq ps q)))"
  using assms
proof (induction env p posix queue items nonopts rule: parse_loop.induct)
  case (1 env p posix items nonopts)
  then show ?case by (auto simp: finish_def)
next
  case (2 env p posix tok rest items nonopts)
  show ?case
  proof (cases "scan_token env p tok items rest")
    case None
    then have not: "\<not> is_option tok" by (simp add: scan_token_None)
    show ?thesis
    proof (cases posix)
      case True
      with None not "2.prems" show ?thesis by (auto simp: finish_def)
    next
      case False
      from "2.IH"(1)[OF None False "2.prems"] None False not show ?thesis by auto
    qed
  next
    case (Some out)
    note o = scan_token_outcome[OF Some]
    show ?thesis
    proof (cases out)
      case (Continue items' rest')
      then obtain it where it: "items' = items @ [it]" "item_ok p it" "\<forall>s. it \<noteq> Positional s"
        and q: "queue_step rest rest'" using o by blast
      then have ok: "\<forall>it \<in> set items'. item_ok p it" "positionals items' = []"
        using "2.prems" by (cases it; auto)+
      from "2.IH"(2)[OF Some Continue ok] obtain res where
        res: "parse_loop env p posix rest' items' nonopts = Some res"
          "\<And>its. res = Items its \<Longrightarrow> (\<forall>it \<in> set its. item_ok p it)
            \<and> (\<exists>ps. positionals its = nonopts @ ps \<and> subseq ps rest'
              \<and> (\<forall>t q. rest' = t # q \<and> is_option t \<longrightarrow> subseq ps q))" by blast
      have "subseq ps rest" if "subseq ps rest'" "\<forall>t q. rest' = t # q \<and> is_option t \<longrightarrow> subseq ps q" for ps
        using q that unfolding queue_step_def by auto
      with res Some Continue show ?thesis by (fastforce intro: subseq_Cons')
    next
      case (Break i r)
      with o have "i = items" "r = rest" by auto
      with Some Break "2.prems" show ?thesis by (auto simp: finish_def)
    qed (use Some o scan_token_done in auto)
  qed
qed

end
