(* ===== verification/Command_Tables.thy ===== *)
theory Command_Tables
  imports Optparse
begin

text \<open>
  The switch tables of the commands, as the files of \<open>rigor-cli/src\<close> declare them: the order of
  the switches is the order of the help text and of the candidates of a completion. Strings are
  the bytes of the source.
\<close>

definition HELP_PARSER :: OptParser where
  "HELP_PARSER = \<lparr> banner = ''Usage: rigor help [--format=text|json] [<command>]'', switches = [
    switch_new ''format'' [(''format'', False)] Required (Exact [''text'', ''json'']) ''--format'' ''=FORMAT''
      [''Output format: text (default) or json'']] \<rparr>"

definition CHECK_PARSER :: OptParser where
  "CHECK_PARSER = \<lparr> banner = ''Usage: rigor check [options] [paths]'', switches = [
    switch_new ''config'' [(''config'', False)] Required Raw ''--config'' ''=PATH''
      [''Path to the Rigor configuration file''],
    switch_new ''format'' [(''format'', False)] Required (Exact [''text'', ''json'', ''sarif'', ''github'', ''gitlab'', ''checkstyle'', ''junit'', ''teamcity'']) ''--format'' ''=FORMAT''
      [''Output format: text, json, sarif, github, gitlab, checkstyle, junit, teamcity''],
    switch_new ''explain'' [(''explain'', False)] Flag Raw ''--explain'' ''''
      [''Surface fail-soft fallback events as :info diagnostics''],
    switch_new ''cache-stats'' [(''cache-stats'', False)] Flag Raw ''--cache-stats'' ''''
      [''Print on-disk cache inventory at end of run''],
    switch_new ''coverage'' [(''coverage'', False)] Flag Raw ''--coverage'' ''''
      [''Add a type-precision coverage block (an extra precision pass over the analyzed files)''],
    switch_new ''clear-cache'' [(''clear-cache'', False)] Flag Raw ''--clear-cache'' ''''
      [''Remove the .rigor/cache directory before running''],
    switch_new ''no-cache'' [(''no-cache'', False)] Flag Raw ''--no-cache'' ''''
      [''Disable the persistent cache for this run (with --incremental: no snapshot is read or written)''],
    switch_new ''stats'' [(''stats'', False), (''no-stats'', True)] Flag Raw ''--[no-]stats'' ''''
      [''Print run summary (files, classes, memory, wall time) to stderr (default: on)''],
    switch_new ''workers'' [(''workers'', False)] Required IntKind ''--workers'' ''=N''
      [''Dispatch per-file analysis across N Ractor workers (default: 0; sequential)''],
    switch_new ''tmp-file'' [(''tmp-file'', False)] Required Raw ''--tmp-file'' ''=PATH''
      [''Editor mode: read source bytes from PATH instead of --instead-of (paired)''],
    switch_new ''instead-of'' [(''instead-of'', False)] Required Raw ''--instead-of'' ''=PATH''
      [''Editor mode: the logical project path the buffer represents (paired with --tmp-file)''],
    switch_new ''baseline'' [(''baseline'', False)] Required Raw ''--baseline'' ''=PATH''
      [''load baseline from PATH (overrides .rigor.yml `baseline:`)''],
    switch_new ''no-baseline'' [(''no-baseline'', False)] Flag Raw ''--no-baseline'' ''''
      [''ignore any configured baseline for this run''],
    switch_new ''baseline-strict'' [(''baseline-strict'', False)] Flag Raw ''--baseline-strict'' ''''
      [''fail the run on any baseline drift (CI gate)''],
    switch_new ''fail-on'' [(''fail-on'', False)] Required Raw ''--fail-on'' ''=SEVERITY''
      [''exit non-zero on a diagnostic at or above SEVERITY: error (default), warning, or info''],
    switch_new ''treat-all-as-inline-rbs'' [(''treat-all-as-inline-rbs'', False)] Flag Raw ''--treat-all-as-inline-rbs'' ''''
      [''force-load rigor-rbs-inline with require_magic_comment: false''],
    switch_new ''verify-incremental'' [(''verify-incremental'', False)] Flag Raw ''--verify-incremental'' ''''
      [''assert incremental analysis matches a full run, then exit''],
    switch_new ''verify-incremental-edits'' [(''verify-incremental-edits'', False)] Required IntKind ''--verify-incremental-edits'' ''=N''
      [''with --verify-incremental, also replay edits (empty, class/module skeleton, up to 2 one-statement drops) on N files''],
    switch_new ''incremental'' [(''incremental'', False)] Flag Raw ''--incremental'' ''''
      [''re-analyze only files changed since the last run (cross-process cache)''],
    switch_new ''no-ci-detect'' [(''no-ci-detect'', False)] Flag Raw ''--no-ci-detect'' ''''
      [''do not auto-emit CI-native output when a CI environment is detected''],
    switch_new ''bleeding-edge'' [(''bleeding-edge'', False)] Optional Raw ''--bleeding-edge'' ''=[LIST]''
      [''adopt the bleeding-edge overlay for this run (all features, or a comma-separated feature-id list)''],
    switch_new ''no-bleeding-edge'' [(''no-bleeding-edge'', False)] Flag Raw ''--no-bleeding-edge'' ''''
      [''ignore any configured bleeding_edge: selection for this run''],
    switch_new ''no-tolerated-effects'' [(''no-tolerated-effects'', False)] Flag Raw ''--no-tolerated-effects'' ''''
      [''check effect envelopes as if effects.tolerated: were empty''],
    switch_hidden ''ruby'' [(''ruby'', False)] Required Raw,
    switch_hidden ''no-ruby'' [(''no-ruby'', False)] Flag Raw] \<rparr>"

definition TRACE_PARSER :: OptParser where
  "TRACE_PARSER = \<lparr> banner = ''Usage: rigor trace [options] FILE'', switches = [
    switch_new ''format'' [(''format'', False)] Required (Exact [''text'', ''json'']) ''--format'' ''=FORMAT''
      [''Output format: text (animation) or json (raw event stream)''],
    switch_new ''delay'' [(''delay'', False)] Required FloatKind ''--delay'' ''=SECONDS''
      [''Autoplay with SECONDS between frames (default: step on key press)''],
    switch_new ''line'' [(''line'', False)] Required IntKind ''--line'' ''=N''
      [''Only replay events whose source range starts on line N''],
    switch_new ''verbose'' [(''verbose'', False)] Flag Raw ''--verbose'' ''''
      [''Include every expression enter/result frame''],
    switch_new ''config'' [(''config'', False)] Required Raw ''--config'' ''=PATH''
      [''Path to the Rigor configuration file'']] \<rparr>"

definition TYPE_SCAN_PARSER :: OptParser where
  "TYPE_SCAN_PARSER = \<lparr> banner = ''Usage: rigor type-scan [options] PATH...'', switches = [
    switch_new ''format'' [(''format'', False)] Required (Exact [''text'', ''json'']) ''--format'' ''=FORMAT''
      [''Output format: text or json''],
    switch_new ''config'' [(''config'', False)] Required Raw ''--config'' ''=PATH''
      [''Path to the Rigor configuration file''],
    switch_new ''limit'' [(''limit'', False)] Required IntKind ''--limit'' ''=N''
      [''Max example events to print (text only)''],
    switch_new ''show-recognized'' [(''show-recognized'', False)] Flag Raw ''--show-recognized'' ''''
      [''Include classes with 0 unrecognized in the table''],
    switch_new ''threshold'' [(''threshold'', False)] Required FloatKind ''--threshold'' ''=RATIO''
      [''Exit non-zero when unrecognized/visits > RATIO'']] \<rparr>"

definition UNUSED_PARSER :: OptParser where
  "UNUSED_PARSER = \<lparr> banner = ''Usage: rigor unused [options] [paths]'', switches = [
    switch_new ''config'' [(''config'', False)] Required Raw ''--config'' ''=PATH''
      [''Path to the Rigor configuration file''],
    switch_new ''format'' [(''format'', False)] Required (Exact [''text'', ''json'']) ''--format'' ''=FORMAT''
      [''Output format: text (default) or json''],
    switch_new ''entry-point'' [(''entry-point'', False)] Required Raw ''--entry-point'' ''=GLOB''
      [''Treat declarations in files matching GLOB as roots (repeatable)''],
    switch_new ''limit'' [(''limit'', False)] Required IntKind ''--limit'' ''=N''
      [''Print at most N candidates (default: all)''],
    switch_new ''incremental'' [(''incremental'', False)] Flag Raw ''--incremental'' ''''
      [''(unsupported)'']] \<rparr>"

definition PLUGIN_PARSER :: OptParser where
  "PLUGIN_PARSER = \<lparr> banner = ''Usage: rigor plugin [<name>] [--path <name>] [--list] [--root]'', switches = [
    switch_new ''path'' [(''path'', False)] Required Raw ''--path'' '' NAME''
      [''Print the absolute directory path of a plugin''],
    switch_new ''list'' [(''list'', False)] Flag Raw ''--list'' ''''
      [''List bundled + example plugins''],
    switch_new ''root'' [(''root'', False)] Flag Raw ''--root'' ''''
      [''Print the gem root + key subdirectories'']] \<rparr>"

definition BASELINE_GENERATE_PARSER :: OptParser where
  "BASELINE_GENERATE_PARSER = \<lparr> banner = ''Usage: rigor baseline generate [options]'', switches = [
    switch_new ''config'' [(''config'', False)] Required Raw ''--config'' ''=PATH''
      [''Path to the Rigor configuration file''],
    switch_new ''output'' [(''output'', False)] Required Raw ''--output'' ''=PATH''
      [''Write baseline to PATH (default: .rigor-baseline.yml)''],
    switch_new ''match-mode'' [(''match-mode'', False)] Required (Choice [''rule'', ''message'']) ''--match-mode'' ''=MODE''
      [''Row form: rule (default) or message''],
    switch_new ''force'' [(''force'', False)] Flag Raw ''--force'' ''''
      [''Overwrite an existing baseline file'']] \<rparr>"

definition BASELINE_REGENERATE_PARSER :: OptParser where
  "BASELINE_REGENERATE_PARSER = \<lparr> banner = ''Usage: rigor baseline regenerate [options]'', switches = [
    switch_new ''config'' [(''config'', False)] Required Raw ''--config'' ''=PATH''
      [''Path to the Rigor configuration file''],
    switch_new ''output'' [(''output'', False)] Required Raw ''--output'' ''=PATH''
      [''Write baseline to PATH (default: .rigor-baseline.yml)''],
    switch_new ''match-mode'' [(''match-mode'', False)] Required (Choice [''rule'', ''message'']) ''--match-mode'' ''=MODE''
      [''Row form: rule (default) or message'']] \<rparr>"

definition BASELINE_DUMP_PARSER :: OptParser where
  "BASELINE_DUMP_PARSER = \<lparr> banner = ''Usage: rigor baseline dump [options]'', switches = [
    switch_new ''baseline'' [(''baseline'', False)] Required Raw ''--baseline'' ''=PATH''
      [''Path to the baseline file (default: .rigor-baseline.yml)''],
    switch_new ''format'' [(''format'', False)] Required (Exact [''text'', ''json'']) ''--format'' ''=FORMAT''
      [''Output format: text (default) or json''],
    switch_new ''rule'' [(''rule'', False)] Required Raw ''--rule'' ''=RULE''
      [''Filter rows by exact rule id''],
    switch_new ''file'' [(''file'', False)] Required Raw ''--file'' ''=GLOB''
      [''Filter rows by File.fnmatch? glob'']] \<rparr>"

definition BASELINE_DRIFT_PARSER :: OptParser where
  "BASELINE_DRIFT_PARSER = \<lparr> banner = ''Usage: rigor baseline drift [options]'', switches = [
    switch_new ''config'' [(''config'', False)] Required Raw ''--config'' ''=PATH''
      [''Path to the Rigor configuration file''],
    switch_new ''baseline'' [(''baseline'', False)] Required Raw ''--baseline'' ''=PATH''
      [''Path to the baseline file (default: .rigor-baseline.yml)''],
    switch_new ''only'' [(''only'', False)] Required (Choice [''within'', ''over'', ''cleared'', ''reducible'']) ''--only'' ''=STATUS''
      [''Show only buckets with the given status (within|over|cleared|reducible)'']] \<rparr>"

definition BASELINE_PRUNE_PARSER :: OptParser where
  "BASELINE_PRUNE_PARSER = \<lparr> banner = ''Usage: rigor baseline prune [options]'', switches = [
    switch_new ''config'' [(''config'', False)] Required Raw ''--config'' ''=PATH''
      [''Path to the Rigor configuration file''],
    switch_new ''baseline'' [(''baseline'', False)] Required Raw ''--baseline'' ''=PATH''
      [''Path to the baseline file (default: .rigor-baseline.yml)''],
    switch_new ''dry-run'' [(''dry-run'', False)] Flag Raw ''--dry-run'' ''''
      [''Show what would be dropped without writing the file'']] \<rparr>"

definition DIFF_PARSER :: OptParser where
  "DIFF_PARSER = \<lparr> banner = ''Usage: rigor diff [options] <rigor-check.json> [paths...]'', switches = [
    switch_new ''format'' [(''format'', False)] Required (Exact [''text'', ''json'']) ''--format'' ''=FORMAT''
      [''Output format (text | json). Default: text.''],
    switch_new ''current'' [(''current'', False)] Required Raw ''--current'' ''=PATH''
      [''Compare to the saved current JSON instead of running `rigor check`.''],
    switch_new ''config'' [(''config'', False)] Required Raw ''--config'' ''=PATH''
      [''Path to .rigor.yml. Forwarded to the implicit `rigor check` run.'']] \<rparr>"

definition TRIAGE_PARSER :: OptParser where
  "TRIAGE_PARSER = \<lparr> banner = ''Usage: rigor triage [options] [paths]'', switches = [
    switch_new ''config'' [(''config'', False)] Required Raw ''--config'' ''=PATH''
      [''Path to the Rigor configuration file''],
    switch_new ''format'' [(''format'', False)] Required (Exact [''text'', ''json'']) ''--format'' ''=FORMAT''
      [''Output format: text (default) or json''],
    switch_new ''top'' [(''top'', False)] Required IntKind ''--top'' ''=N''
      [''Hotspot-file count (default 10)''],
    switch_new ''include-info'' [(''include-info'', False)] Flag Raw ''--include-info'' ''''
      [(''Route info diagnostics into distribution / selectors / hotspots (excluded by default '' @ [CHR 0xE2, CHR 0x80, CHR 0x94] @ '' mostly plugin recognition trace)'')],
    switch_new ''hints-only'' [(''hints-only'', False)] Flag Raw ''--hints-only'' ''''
      [''Print only the heuristic-hints section''],
    switch_new ''no-hints'' [(''no-hints'', False)] Flag Raw ''--no-hints'' ''''
      [''Print distribution + selectors + hotspots only''],
    switch_new ''selectors-only'' [(''selectors-only'', False)] Flag Raw ''--selectors-only'' ''''
      [''Print only the class/method selectors section'']] \<rparr>"

definition ANNOTATE_PARSER :: OptParser where
  "ANNOTATE_PARSER = \<lparr> banner = ''Usage: rigor annotate [options] FILE'', switches = [
    switch_new ''config'' [(''config'', False)] Required Raw ''--config'' ''=PATH''
      [''Path to the Rigor configuration file''],
    switch_new ''format'' [(''format'', False)] Required (Exact [''text'', ''json'']) ''--format'' ''=FORMAT''
      [''Output format: text (default) or json (a { line => type } map)''],
    switch_new ''color'' [(''color'', False), (''no-color'', True)] Flag Raw ''--[no-]color'' ''''
      [''Force or disable ANSI colour (default: auto-detect a tty; honours NO_COLOR)''],
    switch_new ''bat'' [(''bat'', False), (''no-bat'', True)] Flag Raw ''--[no-]bat'' ''''
      [''Force or disable highlighting through bat (default: when colour is on and bat is found)'']] \<rparr>"

definition BLEEDING_EDGE_PARSER :: OptParser where
  "BLEEDING_EDGE_PARSER = \<lparr> banner = ''Usage: rigor show-bleedingedge [options]'', switches = [
    switch_new ''format'' [(''format'', False)] Required (Exact [''text'', ''json'']) ''--format'' ''=FORMAT''
      [''Output format (text | json). Default: text.''],
    switch_new ''config'' [(''config'', False)] Required Raw ''--config'' ''=PATH''
      [''Path to a .rigor.yml (default: auto-discovery).'']] \<rparr>"

definition DOCTOR_PARSER :: OptParser where
  "DOCTOR_PARSER = \<lparr> banner = ''Usage: rigor doctor [options]'', switches = [
    switch_new ''config'' [(''config'', False)] Required Raw ''--config'' ''=PATH''
      [''Path to the Rigor configuration file''],
    switch_new ''format'' [(''format'', False)] Required (Exact [''text'', ''json'']) ''--format'' ''=FORMAT''
      [''Output format: text (default) or json'']] \<rparr>"

definition EXPLAIN_PARSER :: OptParser where
  "EXPLAIN_PARSER = \<lparr> banner = ''Usage: rigor explain [options] [<rule>]'', switches = [
    switch_new ''format'' [(''format'', False)] Required (Exact [''text'', ''json'']) ''--format'' ''=FORMAT''
      [''Output format (text | json). Default: text.'']] \<rparr>"

definition INIT_PARSER :: OptParser where
  "INIT_PARSER = \<lparr> banner = ''Usage: rigor init [options]'', switches = [
    switch_new ''force'' [(''force'', False)] Flag Raw ''--force'' ''''
      [''Overwrite an existing configuration file''],
    switch_new ''path'' [(''path'', False)] Required Raw ''--path'' ''=PATH''
      [''Configuration file path''],
    switch_new ''no-plugins'' [(''no-plugins'', False)] Flag Raw ''--no-plugins'' ''''
      [''Write no commented plugin suggestions from Gemfile.lock'']] \<rparr>"

definition PLUGINS_PARSER :: OptParser where
  "PLUGINS_PARSER = \<lparr> banner = ''Usage: rigor plugins [options]'', switches = [
    switch_new ''config'' [(''config'', False)] Required Raw ''--config'' ''=PATH''
      [''Path to the Rigor configuration file''],
    switch_new ''format'' [(''format'', False)] Required (Exact [''text'', ''json'']) ''--format'' ''=FORMAT''
      [''Output format: text (default) or json''],
    switch_new ''strict'' [(''strict'', False)] Flag Raw ''--strict'' ''''
      [''Exit 1 if any plugin failed to load (CI gate)''],
    switch_new ''capabilities'' [(''capabilities'', False)] Flag Raw ''--capabilities'' ''''
      [''Emit the per-plugin extension-protocol catalogue (ADR-37)'']] \<rparr>"

definition TYPE_OF_PARSER :: OptParser where
  "TYPE_OF_PARSER = \<lparr> banner = ''Usage: rigor type-of [options] FILE:LINE[:COL] [FILE:LINE[:COL] ...]'', switches = [
    switch_new ''format'' [(''format'', False)] Required (Exact [''text'', ''json'']) ''--format'' ''=FORMAT''
      [''Output format: text or json''],
    switch_new ''trace'' [(''trace'', False)] Flag Raw ''--trace'' ''''
      [''Record fail-soft fallbacks via FallbackTracer''],
    switch_new ''config'' [(''config'', False)] Required Raw ''--config'' ''=PATH''
      [''Path to the Rigor configuration file''],
    switch_new ''tmp-file'' [(''tmp-file'', False)] Required Raw ''--tmp-file'' ''=PATH''
      [''Editor mode: read source bytes from PATH instead of --instead-of (paired)''],
    switch_new ''instead-of'' [(''instead-of'', False)] Required Raw ''--instead-of'' ''=PATH''
      [''Editor mode: the logical project path the buffer represents (paired with --tmp-file)'']] \<rparr>"

definition EFFECTS_PARSER :: OptParser where
  "EFFECTS_PARSER = \<lparr> banner = ''Usage: rigor effects [options] [paths]'', switches = [
    switch_new ''config'' [(''config'', False)] Required Raw ''--config'' ''=PATH''
      [''Path to the Rigor configuration file''],
    switch_new ''format'' [(''format'', False)] Required (Exact [''text'', ''json'']) ''--format'' ''=FORMAT''
      [''Output format: text (default) or json''],
    switch_new ''full'' [(''full'', False)] Flag Raw ''--full'' ''''
      [''List every method, including the ones with nothing to say''],
    switch_new ''label'' [(''label'', False)] Required Raw ''--label'' ''=LABEL''
      [''Only methods carrying LABEL (or a label under it), in either lane''],
    switch_new ''pure'' [(''pure'', False)] Flag Raw ''--pure'' ''''
      [(''Only methods proven to do nothing beyond mutate.local '' @ [CHR 0xE2, CHR 0x80, CHR 0x94] @ '' the %a{pure} set'')],
    switch_new ''limit'' [(''limit'', False)] Required IntKind ''--limit'' ''=N''
      [''Print at most N methods''],
    switch_new ''why'' [(''why'', False)] Flag Raw ''--why'' ''''
      [(''Expand each method'' @ [CHR 0x27] @ ''s unresolved reasons and declared-lane sources'')],
    switch_new ''list-labels'' [(''list-labels'', False)] Flag Raw ''--list-labels'' ''''
      [''Print the effect vocabulary this project can name, and exit''],
    switch_new ''no-tolerated-effects'' [(''no-tolerated-effects'', False)] Flag Raw ''--no-tolerated-effects'' ''''
      [''Judge as if effects.tolerated: were empty (inert on the report)'']] \<rparr>"

definition COVERAGE_PARSER :: OptParser where
  "COVERAGE_PARSER = \<lparr> banner = ''Usage: rigor coverage [options] PATH...'', switches = [
    switch_new ''format'' [(''format'', False)] Required (Exact [''text'', ''json'']) ''--format'' ''=FORMAT''
      [''Output format: text or json''],
    switch_new ''config'' [(''config'', False)] Required Raw ''--config'' ''=PATH''
      [''Path to the Rigor configuration file''],
    switch_new ''protection'' [(''protection'', False)] Flag Raw ''--protection'' ''''
      [''Report type-protection coverage (ADR-63 Tier 1) instead of type precision''],
    switch_new ''mutation'' [(''mutation'', False)] Flag Raw ''--mutation'' ''''
      [''With --protection: measure actual mutation effectiveness (ADR-63 Tier 2). Scopes to git-changed files when no paths are given; explicit paths override.''],
    switch_new ''with-tests'' [(''with-tests'', False)] Flag Raw ''--with-tests'' ''''
      [''With --mutation: also measure dynamic (test-suite) protection (ADR-70). Runs --test-command against each type-survivor; reports the fused map.''],
    switch_new ''test-command'' [(''test-command'', False)] Required Raw ''--test-command'' ''=CMD''
      [''The test runner hook for --with-tests (default: bundle exec rake)''],
    switch_new ''include-dynamic'' [(''include-dynamic'', False)] Flag Raw ''--include-dynamic'' ''''
      [''With --with-tests: also mutate Dynamic-receiver (untyped) sites, where a test is the only protection (ADR-69 Seam 2). Completes the map, runs more.''],
    switch_new ''limit'' [(''limit'', False)] Required IntKind ''--limit'' ''=N''
      [''Sample at most N mutations/file under --mutation (caps cost; ratios become estimates)''],
    switch_new ''seed'' [(''seed'', False)] Required IntKind ''--seed'' ''=N''
      [''RNG seed for --limit sampling (default 1)''],
    switch_new ''no-cache'' [(''no-cache'', False)] Flag Raw ''--no-cache'' ''''
      [''With --mutation: measure every file from scratch, neither reading nor writing the per-file mutation-result cache (#134 slice 2). The cold arm of the warm==cold gate; unrelated caches (RBS environment, plugin producers) are untouched.''],
    switch_new ''workers'' [(''workers'', False)] Required IntKind ''--workers'' ''=N''
      [''With --protection (with or without --mutation, but not --with-tests, which must stay sequential): fork N workers over the scanned files (default: config parallel.workers / RIGOR_RACTOR_WORKERS / 0)''],
    switch_new ''threshold'' [(''threshold'', False)] Required FloatKind ''--threshold'' ''=RATIO''
      [(''Exit 1 when the precision (or, with --protection, protection/effectiveness) ratio is below RATIO (0.0'' @ [CHR 0xE2, CHR 0x80, CHR 0x93] @ ''1.0)'')]] \<rparr>"

definition SIG_GEN_PARSER :: OptParser where
  "SIG_GEN_PARSER = \<lparr> banner = ''Usage: rigor sig-gen [options] [paths]'', switches = [
    switch_new ''print'' [(''print'', False)] Flag Raw ''--print'' ''''
      [''Write RBS skeletons to stdout (default)''],
    switch_new ''diff'' [(''diff'', False)] Flag Raw ''--diff'' ''''
      [''Write a unified diff against existing RBS''],
    switch_new ''write'' [(''write'', False)] Flag Raw ''--write'' ''''
      [''Write generated RBS to sig/<path>.rbs files''],
    switch_new ''check'' [(''check'', False)] Flag Raw ''--check'' ''''
      [''Exit 1 when --write would change sig/; write nothing''],
    switch_new ''overwrite'' [(''overwrite'', False)] Flag Raw ''--overwrite'' ''''
      [''Allow tighter-return updates, and inline declarations that disagree with sig/, to replace user-authored RBS''],
    switch_new ''include-private'' [(''include-private'', False)] Flag Raw ''--include-private'' ''''
      [''Emit private / protected instance methods (default: public only)''],
    switch_new ''effect-envelopes'' [(''effect-envelopes'', False)] Flag Raw ''--effect-envelopes'' ''''
      [''Also emit %a{rigor:v1:effect ...} for effectful methods (requires the effects: opt-in)''],
    switch_new ''no-cache'' [(''no-cache'', False)] Flag Raw ''--no-cache'' ''''
      [''Do not read or write the analysis cache (effect collection only)''],
    switch_new ''format'' [(''format'', False)] Required (Exact [''text'', ''json'']) ''--format'' ''=FORMAT''
      [''Output format: text or json''],
    switch_new ''params'' [(''params'', False)] Required Raw ''--params'' ''=POLICY''
      [''Parameter policy: untyped (default), observed, observed-strict''],
    switch_new ''observe'' [(''observe'', False)] Required Raw ''--observe'' ''=PATH''
      [''Directory / file to scan for call-site observations (repeatable; default: the configured test_paths)''],
    switch_new ''new-files'' [(''new-files'', False)] Flag Raw ''--new-files'' ''''
      [''Emit only new-file classifications''],
    switch_new ''new-methods'' [(''new-methods'', False)] Flag Raw ''--new-methods'' ''''
      [''Emit only new-method classifications''],
    switch_new ''tighter-returns'' [(''tighter-returns'', False)] Flag Raw ''--tighter-returns'' ''''
      [''Emit only tighter-return classifications''],
    switch_new ''config'' [(''config'', False)] Required Raw ''--config'' ''=PATH''
      [''Path to the Rigor configuration file'']] \<rparr>"

definition LSP_PARSER :: OptParser where
  "LSP_PARSER = \<lparr> banner = ''Usage: rigor lsp [options]'', switches = [
    switch_new ''transport'' [(''transport'', False)] Required Raw ''--transport'' ''=NAME''
      [''Transport (default: stdio; only stdio supported in v1)''],
    switch_new ''log'' [(''log'', False)] Required Raw ''--log'' ''=PATH''
      [''Append the LSP wire log and server debug output to PATH (default: no wire log; debug output goes to stderr)''],
    switch_new ''config'' [(''config'', False)] Required Raw ''--config'' ''=PATH''
      [''Path to the Rigor configuration file'']] \<rparr>"

definition MCP_PARSER :: OptParser where
  "MCP_PARSER = \<lparr> banner = ''Usage: rigor mcp [options]'', switches = [
    switch_new ''transport'' [(''transport'', False)] Required Raw ''--transport'' ''=NAME''
      [''Transport (default: stdio; only stdio is supported in v1)''],
    switch_new ''config'' [(''config'', False)] Required Raw ''--config'' ''=PATH''
      [''Session-level default config path (individual tool calls may override)'']] \<rparr>"

definition PARSERS :: "OptParser list" where
  "PARSERS = [HELP_PARSER, CHECK_PARSER, TRACE_PARSER, TYPE_SCAN_PARSER,
    UNUSED_PARSER, PLUGIN_PARSER, BASELINE_GENERATE_PARSER, BASELINE_REGENERATE_PARSER,
    BASELINE_DUMP_PARSER, BASELINE_DRIFT_PARSER, BASELINE_PRUNE_PARSER, DIFF_PARSER,
    TRIAGE_PARSER, ANNOTATE_PARSER, BLEEDING_EDGE_PARSER, DOCTOR_PARSER,
    EXPLAIN_PARSER, INIT_PARSER, PLUGINS_PARSER, TYPE_OF_PARSER,
    EFFECTS_PARSER, COVERAGE_PARSER, SIG_GEN_PARSER, LSP_PARSER,
    MCP_PARSER]"

end
