(* ===== verification/Optparse_Properties.thy ===== *)
theory Optparse_Properties
  imports Optparse_Laws Command_Tables
begin

text \<open>
  The properties of the option parser: that it always answers with well-typed items, what the
  terminator does, what a completion resolves to, the language of a completion, the integers that
  read back, and the suggestion distance.
\<close>

section \<open>The terminator\<close>

lemma long_switch_extend:
  "long_switch env p tok eq sw neg items rest = Continue items' rest' \<Longrightarrow>
    long_switch env p tok eq sw neg items (rest @ extra) = Continue items' (rest' @ extra)"
  by (cases eq; cases rest)
    (auto simp: long_switch_def split: ArgStyle.splits sum.splits if_splits)

lemma long_option_extend:
  "long_option env p tok stripped items rest = Continue items' rest' \<Longrightarrow>
    long_option env p tok stripped items (rest @ extra) = Continue items' (rest' @ extra)"
  by (auto simp: long_option_def Let_def long_switch_extend
      split: Lookup.splits Resolved.splits option.splits if_splits prod.splits)

lemma short_fire_extend:
  "short_fire env p tok style k val eq rest = Inr (fired, leftover, r) \<Longrightarrow>
    short_fire env p tok style k val eq (rest @ extra) = Inr (fired, leftover, r @ extra)"
  by (cases val; cases rest)
    (auto simp: short_fire_def split: ArgStyle.splits sum.splits if_splits)

lemma requeue_extend: "requeue hr lo (r @ extra) = requeue hr lo r @ extra"
  by (auto simp: requeue_def Let_def split: option.splits)

lemma short_option_extend:
  assumes "short_option env p tok items rest = Continue items' rest'"
  shows "short_option env p tok items (rest @ extra) = Continue items' (rest' @ extra)"
proof -
  have fin: "short_finish env p hit fired hr lo items r = Continue items' rest' \<Longrightarrow>
      short_finish env p hit fired hr lo items (r @ extra) = Continue items' (rest' @ extra)" for hit fired hr lo r
    by (cases hit) (auto simp: requeue_extend)
  define s where "s = drop (1 + length (hd (utf8_chars (tl tok)))) tok"
  obtain hit style kind fired leftover r where
    f: "short_fire env p tok style kind (if s \<noteq> '''' then Some s else None)
       (\<not> s \<noteq> '''' \<or> starts_with ''='' s) rest = Inr (fired, leftover, r)"
    and g: "short_finish env p hit fired (s \<noteq> '''') leftover items r = Continue items' rest'"
    and hit: "complete_name p (hd (utf8_chars (tl tok))) False = Found hit"
      "style_of_hit p hit = Some (style, kind)"
    using short_option_shape[OF assms] unfolding s_def by metis
  show ?thesis unfolding short_option_def Let_def s_def[symmetric]
    by (simp only: hit Lookup.case option.case short_fire_extend[OF f] sum.case prod.case fin[OF g])
qed

lemma scan_token_extend:
  "scan_token env p tok items rest = Some (Continue items' rest') \<Longrightarrow>
    scan_token env p tok items (rest @ extra) = Some (Continue items' (rest' @ extra))"
  by (auto simp: scan_token_def long_option_extend short_option_extend split: option.splits if_splits)

lemma scan_terminator:
  assumes "no_empty_name p"
  shows "scan_token env p ''--'' items rest = Some (Break items rest)"
proof -
  have "map_of (long_table p) '''' = None" using assms by (simp add: no_empty_name_def map_of_eq_None_iff)
  then have "complete_name p '''' True = Found Terminator"
    by (simp add: complete_name_def exact_name_def officious_def)
  then show ?thesis
    by (simp add: scan_token_def long_option_def split_once_def replace_char_def)
qed

lemma parse_loop_terminator:
  assumes "no_empty_name p" "''--'' \<notin> set queue"
    and "parse_loop env p False queue items nonopts = Some (Items its)"
  shows "parse_loop env p False (queue @ ''--'' # ys) items nonopts = Some (Items (its @ map Positional ys))"
  using assms
proof (induction env p "False" queue items nonopts rule: parse_loop.induct)
  case (1 env p items nonopts)
  then show ?case by (auto simp: scan_terminator finish_def)
next
  case (2 env p tok rest items nonopts)
  show ?case
  proof (cases "scan_token env p tok items rest")
    case None
    with "2.prems" have "parse_loop env p False rest items (nonopts @ [tok]) = Some (Items its)"
      "''--'' \<notin> set rest" by simp_all
    moreover have "scan_token env p tok items (rest @ ''--'' # ys) = None"
      using None by (simp add: scan_token_None)
    ultimately show ?thesis using "2.hyps"(1)[OF None] "2.prems"(1) by simp
  next
    case (Some out)
    note o = scan_token_outcome[OF Some]
    show ?thesis
    proof (cases out)
      case (Continue items' rest')
      with o have "queue_step rest rest'" by blast
      then have no: "''--'' \<notin> set rest'" using "2.prems"(2) by (auto simp: queue_step_def)
      have "parse_loop env p False rest' items' nonopts = Some (Items its)"
        using "2.prems"(3) Some Continue by simp
      from "2.hyps"(2)[OF Some Continue "2.prems"(1) no this]
        scan_token_extend[OF Some[unfolded Continue], of "''--'' # ys"]
      show ?thesis by simp
    next
      case (Break i r)
      with o "2.prems"(2) show ?thesis by auto
    next
      case (Done res)
      with Some scan_token_done "2.prems"(3) show ?thesis by auto
    qed (use o in simp)
  qed
qed

section \<open>Printed integers\<close>

lemma radix_loop_append:
  "radix_loop r (xs @ ys) a = Option.bind (radix_loop r xs a) (radix_loop r ys)"
  by (induction xs arbitrary: a) (auto split: option.splits)

lemma radix_loop_digits: "radix_loop 10 (digits_of n) 0 = Some (int n)"
proof (induction n rule: digits_of.induct)
  case (1 n)
  have digit: "digit_of_radix 10 (char_of (48 + k)) = Some k" if "k < 10" for k
    using that by (simp add: digit_of_radix_def is_ascii_digit_def between_def)
  show ?case
  proof (cases "n < 10")
    case True
    then show ?thesis using digit[of n] by (subst digits_of.simps) simp
  next
    case False
    have "int n = int (n div 10) * 10 + int (n mod 10)"
      by (metis div_mult_mod_eq of_nat_add of_nat_mult of_nat_numeral)
    with False 1 digit[of "n mod 10"] show ?thesis
      by (subst digits_of.simps) (simp add: radix_loop_append)
  qed
qed


lemma digits_prefixes:
  assumes "0 < n"
  shows "strip_prefix ''0'' (digits_of n) = None" "starts_with ''0'' (digits_of n) = False"
    "strip_any [''0x'', ''0X''] (digits_of n) = None" "strip_any [''0b'', ''0B''] (digits_of n) = None"
    "strip_any [''0o'', ''0O''] (digits_of n) = None"
proof -
  obtain c cs where d: "digits_of n = c # cs" "c \<noteq> CHR ''0''"
    using digits_of_props[of n] assms by (cases "digits_of n") auto
  show "strip_prefix ''0'' (digits_of n) = None" "starts_with ''0'' (digits_of n) = False"
    "strip_any [''0x'', ''0X''] (digits_of n) = None" "strip_any [''0b'', ''0B''] (digits_of n) = None"
    "strip_any [''0o'', ''0O''] (digits_of n) = None"
    using d by (simp_all add: starts_with_iff)
qed

lemma digits_plain:
  "\<forall>c \<in> set (digits_of n). c \<noteq> CHR ''_'' \<and> c \<noteq> CHR ''-'' \<and> c \<noteq> CHR ''+''"
  using digits_of_props[of n] by (auto simp: list_all_iff is_ascii_digit_def between_def)

lemma strip_sign_plain:
  assumes "s \<noteq> ''''" "\<forall>c \<in> set s. c \<noteq> CHR ''-'' \<and> c \<noteq> CHR ''+''"
  shows "strip_sign s = s"
  using assms by (cases s) (auto simp: strip_sign_def)

lemma group_rest_digits: "list_all is_ascii_digit s \<Longrightarrow> group_rest is_ascii_digit False s"
  by (induction s) (auto simp: is_ascii_digit_def between_def)

lemma lower_digits: "list_all is_ascii_digit s \<Longrightarrow> map to_ascii_lowercase s = s"
  by (induction s) (auto simp: is_ascii_digit_def between_def to_ascii_lowercase_def)


lemma digits_from_str:
  "from_str_radix (digits_of n) 10 = (if n < 2 ^ 63 then Some (int n) else None)"
proof -
  obtain c cs where d: "digits_of n = c # cs" using digits_of_props[of n] by (cases "digits_of n") auto
  then have "c \<noteq> CHR ''-''" "c \<noteq> CHR ''+''" using digits_plain[of n] by auto
  with d have "(case digits_of n of
      c # r \<Rightarrow> if c = CHR ''-'' then (True, r) else if c = CHR ''+'' then (False, r) else (False, digits_of n)
    | [] \<Rightarrow> (False, digits_of n)) = (False, digits_of n)" by simp
  then show ?thesis using digits_of_props[of n]
    by (simp only: from_str_radix_def Let_def prod.case radix_loop_digits option.case) auto
qed

lemma digits_int_pattern:
  assumes "0 < n"
  shows "int_pattern (digits_of n)" "int_pattern (CHR ''-'' # digits_of n)"
proof -
  have ok: "group_ok is_ascii_digit (digits_of n)"
    using digits_of_props[of n] group_rest_digits[of "digits_of n"]
    by (cases "digits_of n") (auto simp: group_ok_def)
  have low: "map to_ascii_lowercase (digits_of n) = digits_of n"
    using digits_of_props[of n] by (intro lower_digits) simp
  have sign: "strip_sign (digits_of n) = digits_of n"
    using digits_of_props[of n] digits_plain[of n] by (intro strip_sign_plain) auto
  show "int_pattern (digits_of n)" "int_pattern (CHR ''-'' # digits_of n)"
    using ok digits_of_props[of n] digits_prefixes(1)[OF assms]
    by (simp_all add: int_pattern_def Let_def sign low) (simp add: strip_sign_def low)
qed

lemma digits_ruby_int:
  assumes "0 < n"
  shows "parse_ruby_int (digits_of n) = (if n < 2 ^ 63 then Some (int n) else None)"
    "parse_ruby_int (CHR ''-'' # digits_of n) = (if n < 2 ^ 63 then Some (- int n) else None)"
proof -
  have plain: "filter (\<lambda>c. c \<noteq> CHR ''_'') (digits_of n) = digits_of n"
    using digits_plain[of n] by (simp add: filter_id_conv)
  obtain c cs where d: "digits_of n = c # cs" using digits_of_props[of n] by (cases "digits_of n") auto
  then have c: "c \<noteq> CHR ''-''" "c \<noteq> CHR ''+''" using digits_plain[of n] by auto
  have "(case digits_of n of
      c # r \<Rightarrow> if c = CHR ''-'' then (True, r) else if c = CHR ''+'' then (False, r) else (False, digits_of n)
    | [] \<Rightarrow> (False, digits_of n)) = (False, digits_of n)" using d c by simp
  then show "parse_ruby_int (digits_of n) = (if n < 2 ^ 63 then Some (int n) else None)"
    unfolding parse_ruby_int_def Let_def
    by (simp only: prod.case plain digits_prefixes[OF assms] option.case if_False HOL.simp_thms digits_from_str) simp
  show "parse_ruby_int (CHR ''-'' # digits_of n) = (if n < 2 ^ 63 then Some (- int n) else None)"
    unfolding parse_ruby_int_def Let_def
    by (simp only: list.case if_True prod.case plain digits_prefixes[OF assms] option.case if_False
        HOL.simp_thms digits_from_str) simp
qed

lemma convert_decimal:
  "convert IntKind (string_of_int n) =
     Inr (IntValue (if - (2 ^ 63) < n \<and> n < 2 ^ 63 then word_of_int n else word_of_int (2 ^ 63 - 1)))"
proof -
  consider "n = 0" | "0 < n" | "n < 0" by linarith
  then show ?thesis
  proof cases
    case 1
    have "digits_of 0 = ''0''" by (subst digits_of.simps) (simp add: char_of_eq_iff)
    then have zero: "string_of_int 0 = ''0''" by (simp add: string_of_int_def)
    have "int_pattern ''0''" "parse_ruby_int ''0'' = Some 0" by code_simp+
    then show ?thesis using 1 by (simp add: zero)
  next
    case 2
    then have "0 < nat n" "string_of_int n = digits_of (nat n)" by (simp_all add: string_of_int_def)
    moreover have "nat n < 2 ^ 63 \<longleftrightarrow> n < 2 ^ 63" using 2 by (simp add: nat_less_iff)
    ultimately show ?thesis using 2 digits_int_pattern(1) digits_ruby_int(1) by simp
  next
    case 3
    then have "0 < nat (- n)" "string_of_int n = CHR ''-'' # digits_of (nat (- n))"
      by (simp_all add: string_of_int_def)
    moreover have "nat (- n) < 2 ^ 63 \<longleftrightarrow> - (2 ^ 63) < n" using 3 nat_less_iff[of "- n" "2 ^ 63"] by auto
    ultimately show ?thesis using 3 digits_int_pattern(2) digits_ruby_int(2) by simp
  qed
qed

text \<open>C21: An integer argument above \<open>- (2 ^ 63)\<close>, printed in decimal, converts to the 64-bit
  integer of its value, and to the greatest one when it does not fit: the clamping that
  \<open>parse_ruby_int\<close> leaves to its caller.\<close>
theorem integer_argument:
  assumes "- (2 ^ 63) < n"
  shows "\<exists>w. convert IntKind (string_of_int n) = Inr (IntValue w) \<and> sint w = min n (2 ^ 63 - 1)"
proof -
  have fits: "sint (word_of_int m :: i64) = m" if "- (2 ^ 63) < m" "m < 2 ^ 63" for m
    using that by (simp add: sint_sbintrunc' signed_take_bit_int_eq_self)
  show ?thesis
  proof (cases "n < 2 ^ 63")
    case True
    then show ?thesis unfolding convert_decimal using assms fits[of n] by simp
  next
    case False
    then show ?thesis unfolding convert_decimal using fits[of "2 ^ 63 - 1"] by simp
  qed
qed

theorem integer_argument_witness:
  "(\<exists>w. convert IntKind (string_of_int (- 42)) = Inr (IntValue w) \<and> sint w = - 42)
   \<and> (\<exists>w. convert IntKind (string_of_int (2 ^ 70)) = Inr (IntValue w) \<and> sint w = 2 ^ 63 - 1)"
  using integer_argument[of "- 42"] integer_argument[of "2 ^ 70"] by simp

text \<open>Below that range the clamp has the wrong sign: the least 64-bit integer, which fits, and
  everything under it convert to the greatest one.\<close>
theorem negative_overflow_clamped:
  assumes "n \<le> - (2 ^ 63)"
  shows "convert IntKind (string_of_int n) = Inr (IntValue (word_of_int (2 ^ 63 - 1)))"
  unfolding convert_decimal using assms by simp


section \<open>The scan\<close>

text \<open>C9: The parser always answers, with items or with an exit, in either mode; the items fit the
  switch table (the key, the side of a negation, and a value that is there and of its kind exactly
  as the style of the switch says), and the positional ones are arguments of the list, in order.\<close>
theorem parse_items_typed:
  "\<exists>out. parse_mode env p argv posix = Some out
     \<and> (\<forall>its. out = Items its \<longrightarrow> (\<forall>it \<in> set its. item_ok p it) \<and> subseq (positionals its) argv)"
  using parse_loop_items[of "[]" p env posix argv "[]"] unfolding parse_mode_def by fastforce

text \<open>C17: A separator \<open>--\<close> ends the options: when the arguments before it, none of them a
  separator, parse to items, the arguments after it are appended as positionals, whatever they
  look like.\<close>
theorem terminator_ends_options:
  assumes "no_empty_name p" "''--'' \<notin> set xs" "parse_mode env p xs False = Some (Items its)"
  shows "parse_mode env p (xs @ ''--'' # ys) False = Some (Items (its @ map Positional ys))"
  using assms parse_loop_terminator unfolding parse_mode_def by blast

text \<open>\<open>diff --format=json old.json\<close>, with the separator before a file that looks like an option.\<close>

theorem parse_items_typed_witness:
  "item_ok DIFF_PARSER (Opt ''format'' False (Some (StrValue ''json'')))
   \<and> subseq [''old.json''] [''--format=json'', ''old.json'']"
proof -
  let ?env = "\<lparr>program_name = ''rigor'', lowercase = id\<rparr>"
  have run: "parse_mode ?env DIFF_PARSER [''--format=json'', ''old.json''] False
      = Some (Items [Opt ''format'' False (Some (StrValue ''json'')), Positional ''old.json''])"
    by code_simp
  show ?thesis
    using parse_items_typed[of ?env DIFF_PARSER "[''--format=json'', ''old.json'']" False] unfolding run by simp
qed

theorem terminator_ends_options_witness:
  "parse_mode \<lparr>program_name = ''rigor'', lowercase = id\<rparr> DIFF_PARSER
     [''--format=json'', ''old.json'', ''--'', ''--format=json''] False
   = Some (Items [Opt ''format'' False (Some (StrValue ''json'')), Positional ''old.json'',
       Positional ''--format=json''])"
proof -
  let ?env = "\<lparr>program_name = ''rigor'', lowercase = id\<rparr>"
  have run: "parse_mode ?env DIFF_PARSER [''--format=json'', ''old.json''] False
      = Some (Items [Opt ''format'' False (Some (StrValue ''json'')), Positional ''old.json''])"
    by code_simp
  have "no_empty_name DIFF_PARSER" by code_simp
  from terminator_ends_options[OF this _ run, of "[''--format=json'']"] show ?thesis by simp
qed

section \<open>The exits\<close>

text \<open>A text that is empty or ends its last line.\<close>

definition closed_text :: "string \<Rightarrow> bool" where
  "closed_text s = (s = '''' \<or> last s = CHR 0x0A)"

lemma closed_text_simps [simp]:
  "closed_text ''''"
  "closed_text (c # s) = (if s = '''' then c = CHR 0x0A else closed_text s)"
  "closed_text (s @ t) = (if t = '''' then closed_text s else closed_text t)"
  by (auto simp: closed_text_def)

lemma closed_text_concat: "\<forall>t \<in> set ts. closed_text t \<Longrightarrow> closed_text (concat ts)"
  by (induction ts) auto

lemma closed_rows:
  "closed_text (summary_row l r)" "closed_text (compsys_row flag esc)" "closed_text (paired_rows ls rs)"
proof -
  show row: "closed_text (summary_row l r)" for l r by (simp add: summary_row_def)
  show "closed_text (compsys_row flag esc)" by (simp add: compsys_row_def)
  show "closed_text (paired_rows ls rs)"
    by (induction ls rs rule: paired_rows.induct) (auto simp: row)
qed

lemma closed_wide_rows:
  "closed_text out \<Longrightarrow> wide_rows ls rs out = (ls', rs', out') \<Longrightarrow> closed_text out'"
proof (induction ls rs out rule: wide_rows.induct)
  case (2 l ls right out)
  then show ?case using closed_rows(1) by (auto split: if_splits)
qed auto

lemma closed_switch_rows: "closed_text (switch_rows sw)"
  using closed_wide_rows[of "''''"] closed_rows(3)
  by (auto simp: switch_rows_def Let_def split: prod.splits)

lemma closed_help: "closed_text (help_text p)" "help_text p \<noteq> ''''"
proof -
  have "closed_text (concat (map switch_rows (switches p)))"
    using closed_switch_rows by (intro closed_text_concat) auto
  then show "closed_text (help_text p)" "help_text p \<noteq> ''''"
    by (auto simp: help_text_def split: option.splits)
qed

lemma closed_compsys: "closed_text (compsys_text env p n)" "compsys_text env p n \<noteq> ''''"
  by (simp_all add: compsys_text_def)

text \<open>How an exit speaks: on the standard output exactly when it succeeds.\<close>

definition exit_ok :: "string \<Rightarrow> string \<Rightarrow> nat \<Rightarrow> bool" where
  "exit_ok out errs code =
     (code \<in> {0, 1, 64}
      \<and> (if code = 0 then errs = '''' \<and> out \<noteq> '''' \<and> closed_text out
         else out = '''' \<and> errs \<noteq> '''' \<and> closed_text errs))"

fun parsed_ok :: "Parsed \<Rightarrow> bool" where
  "parsed_ok (Items its) = True"
| "parsed_ok (Exit out errs code) = exit_ok out errs code"

lemma exits_ok [simp]:
  "parsed_ok (err env p msg sug)" "parsed_ok (version_exit env pkg)" "parsed_ok (completion_exit p word)"
  "parsed_ok (Exit (help_text p) '''' 0)" "parsed_ok (Exit (compsys_text env p n) '''' 0)"
proof -
  have "closed_text (concat (map (\<lambda>c. c @ nl) (candidates p word)))"
    by (intro closed_text_concat) auto
  then show "parsed_ok (completion_exit p word)"
    by (simp add: completion_exit_def Let_def exit_ok_def)
qed (auto simp: err_def version_exit_def exit_ok_def closed_help closed_compsys Let_def split: option.splits)

lemma long_switch_ok: "long_switch env p tok eq sw neg items rest = Done out \<Longrightarrow> parsed_ok out"
  by (auto simp: long_switch_def split: ArgStyle.splits option.splits sum.splits if_splits prod.splits)

lemma short_fire_ok: "short_fire env p tok style k val eq rest = Inl out \<Longrightarrow> parsed_ok out"
  by (auto simp: short_fire_def split: ArgStyle.splits option.splits sum.splits if_splits)

lemma short_finish_ok: "short_finish env p hit fired hr lo items r = Done out \<Longrightarrow> parsed_ok out"
  using exits_ok by (cases hit) auto

lemma scan_token_ok:
  assumes "scan_token env p tok items rest = Some (Done out)"
  shows "parsed_ok out"
proof (cases "strip_prefix ''--'' tok")
  case None
  with assms have "short_option env p tok items rest = Done out"
    by (simp add: scan_token_def split: if_splits)
  then show ?thesis unfolding short_option_def Let_def
    by (auto split: Lookup.splits option.splits sum.splits prod.splits
        dest: short_fire_ok short_finish_ok)
next
  case (Some stripped)
  with assms have "long_option env p tok stripped items rest = Done out" by (simp add: scan_token_def)
  then show ?thesis unfolding long_option_def Let_def
    using exits_ok by (auto split: Lookup.splits Resolved.splits option.splits if_splits prod.splits
        dest: long_switch_ok)
qed

lemma parse_loop_ok:
  "parse_loop env p posix queue items nonopts = Some out \<Longrightarrow> parsed_ok out"
  by (induction env p posix queue items nonopts rule: parse_loop.induct)
    (auto simp: finish_def dest: scan_token_ok split: option.splits Outcome.splits if_splits)

text \<open>C23: When the parser answers with an exit, the code is 0, 1 or 64 and exactly one text is
  printed, a whole number of lines: on the standard output when the code is 0, on the error output
  otherwise.\<close>
theorem parser_exits:
  assumes "parse_mode env p argv posix = Some (Exit out errs code)"
  shows "exit_ok out errs code"
  using parse_loop_ok assms unfolding parse_mode_def by fastforce

text \<open>\<open>diff --version\<close> is answered by the parser.\<close>

theorem parser_exits_witness:
  "exit_ok '''' (''rigor: version unknown'' @ nl) 1"
proof -
  have "parse_mode \<lparr>program_name = ''rigor'', lowercase = id\<rparr> DIFF_PARSER [''old.json'', ''--version''] False
      = Some (Exit '''' (''rigor: version unknown'' @ nl) 1)"
    by code_simp
  then show ?thesis by (rule parser_exits)
qed

section \<open>Completion\<close>

text \<open>The candidates a name is completed among: the entries of the table that match, and the
  built-in ones only when there are none.\<close>

definition completion_pool :: "OptParser \<Rightarrow> string \<Rightarrow> bool \<Rightarrow> (string \<times> Resolved) list" where
  "completion_pool p name icase =
     (if matching p name icase = [] then matching_officious name icase else matching p name icase)"

text \<open>C11: On a table with distinct ASCII names, a long name resolves to its exact entry; without
  one it resolves to the one entry of the pool whose name begins all the others, is ambiguous when
  the pool has entries but none like that, and invalid when the pool is empty.\<close>
theorem name_resolution:
  fixes name :: string and icase :: bool
  assumes "table_ok p"
  defines "pool \<equiv> completion_pool p name icase"
  shows "case exact_name p name of
      Some r \<Rightarrow> complete_name p name icase = Found r
    | None \<Rightarrow>
        (\<forall>r. complete_name p name icase = Found r \<longleftrightarrow> begins_all pool r)
        \<and> (complete_name p name icase = AmbiguousName \<longleftrightarrow> pool \<noteq> [] \<and> (\<nexists>r. begins_all pool r))
        \<and> (complete_name p name icase = InvalidName \<longleftrightarrow> pool = [])"
proof -
  note m = resolve_candidates_spec[OF matching_ok[OF assms(1), of name icase]]
  note q = resolve_candidates_spec[OF matching_officious_ok[of name icase]]
  have c: "complete_name p name icase = (case exact_name p name of Some r \<Rightarrow> Found r
      | None \<Rightarrow> (case resolve_candidates (matching p name icase) of Some r \<Rightarrow> r
          | None \<Rightarrow> (case resolve_candidates (matching_officious name icase) of Some r \<Rightarrow> r | None \<Rightarrow> InvalidName)))"
    unfolding complete_name_def matching_def matching_officious_def ..
  have "complete_name p name icase = Found r \<longleftrightarrow> begins_all pool r" if "exact_name p name = None" for r
    using m(1,2) q(1,2) that by (auto simp: c pool_def completion_pool_def begins_all_def split: option.splits)
  moreover have "complete_name p name icase = AmbiguousName \<longleftrightarrow> pool \<noteq> [] \<and> (\<nexists>r. begins_all pool r)"
    if "exact_name p name = None"
    using m(1,3) q(1,3) that by (auto simp: c pool_def completion_pool_def split: option.splits)
  moreover have "complete_name p name icase = InvalidName \<longleftrightarrow> pool = []" if "exact_name p name = None"
    using m(1,4) q(1,4) that by (auto simp: c pool_def completion_pool_def split: option.splits)
  ultimately show ?thesis by (simp add: c split: option.splits)
qed

text \<open>The table of \<open>diff\<close>: \<open>--c\<close> could be \<open>--current\<close> or \<open>--config\<close>, \<open>--cu\<close> is \<open>--current\<close>.\<close>

theorem name_resolution_witness:
  "complete_name DIFF_PARSER ''cu'' True = Found (SwitchHit 1 False)
   \<and> complete_name DIFF_PARSER ''c'' True = AmbiguousName"
proof -
  have ok: "table_ok DIFF_PARSER" by code_simp
  have e: "exact_name DIFF_PARSER ''cu'' = None" "exact_name DIFF_PARSER ''c'' = None" by code_simp+
  have pool: "completion_pool DIFF_PARSER ''cu'' True = [(''current'', SwitchHit 1 False)]"
    "completion_pool DIFF_PARSER ''c'' True = [(''current'', SwitchHit 1 False), (''config'', SwitchHit 2 False)]"
    by code_simp+
  have apart: "\<not> starts_with ''current'' ''config''" "\<not> starts_with ''config'' ''current''" by code_simp+
  have "begins_all [(''current'', SwitchHit 1 False)] (SwitchHit 1 False)"
    by (simp add: begins_all_def starts_with_iff)
  with name_resolution[OF ok, of "''cu''" True]
  have cu: "complete_name DIFF_PARSER ''cu'' True = Found (SwitchHit 1 False)"
    unfolding e pool option.case by blast
  have "\<nexists>r. begins_all [(''current'', SwitchHit 1 False), (''config'', SwitchHit 2 False)] r"
    using apart by (force simp: begins_all_def)
  with name_resolution[OF ok, of "''c''" True]
  have "complete_name DIFF_PARSER ''c'' True = AmbiguousName"
    unfolding e pool option.case by blast
  with cu show ?thesis by blast
qed

text \<open>C15: The hand-written matcher of a completion accepts exactly the language of the regular
  expression it stands for: each run of word characters of the key may be extended by word
  characters, any other character stands for itself, and anything may follow.\<close>
theorem completion_language: "completion_match pat cand icase \<longleftrightarrow> completes icase pat cand"
  by (rule completion_match_iff)


section \<open>The distance of the suggestions\<close>

lemma dym_row_correct:
  assumes "to = take j to @ rest" "j \<le> length to" "length d = length to + 1"
    and "\<forall>l < j. d ! l = edit_distance (p @ [c]) (take l to)"
    and "\<forall>l. j \<le> l \<longrightarrow> l \<le> length to \<longrightarrow> d ! l = edit_distance p (take l to)"
    and "i = edit_distance (p @ [c]) (take j to)" "rest = [] \<longrightarrow> x = i"
    and "dym_row c rest d i j x = (d', x')"
  shows "length d' = length to + 1 \<and> (\<forall>l < length to. d' ! l = edit_distance (p @ [c]) (take l to))
    \<and> x' = edit_distance (p @ [c]) to"
  using assms
proof (induction rest arbitrary: d i j x)
  case Nil
  then have "j = length to" by (metis append_Nil2 length_take min_absorb2)
  with Nil show ?case by simp
next
  case (Cons c2 cs)
  have lt: "j < length to" using Cons.prems(1,2)
    by (metis append_Nil2 length_take list.distinct(1) min_absorb2 nat_less_le same_append_eq take_all_iff)
  have snoc: "take (j + 1) to = take j to @ [c2]"
    using Cons.prems(1) lt
    by (metis nth_append_length length_take less_imp_le min_absorb2 take_Suc_conv_app_nth Suc_eq_plus1)
  define m where "m = (let cost = (if c \<noteq> c2 then 1 else 0);
      a = d ! (j + 1) + 1; b = i + 1; k = d ! j + cost
    in if a < b \<and> a < k then a else if b < k then b else k)"
  have m: "m = edit_distance (p @ [c]) (take (j + 1) to)"
  proof -
    have d: "d ! (j + 1) = edit_distance p (take j to @ [c2])" "d ! j = edit_distance p (take j to)"
      using Cons.prems(5) lt snoc by (auto simp flip: snoc)
    have least: "(if a < b \<and> a < k then a else if b < k then b else k) = min (min a b) k" for a b k :: nat
      by (auto simp: min_def)
    show ?thesis unfolding snoc edit_distance_snoc m_def Let_def Cons.prems(6) least d ..
  qed
  have step: "dym_row c (c2 # cs) d i j x = dym_row c cs (d[j := i]) m (j + 1) m"
    by (simp add: m_def Let_def)
  show ?case
  proof (rule Cons.IH)
    show "to = take (j + 1) to @ cs" using Cons.prems(1) snoc by simp
    show "j + 1 \<le> length to" "length (d[j := i]) = length to + 1" using lt Cons.prems(3) by simp_all
    show "\<forall>l < j + 1. d[j := i] ! l = edit_distance (p @ [c]) (take l to)"
      using Cons.prems(3,4,6) lt by (auto simp: nth_list_update less_Suc_eq)
    show "\<forall>l. j + 1 \<le> l \<longrightarrow> l \<le> length to \<longrightarrow> d[j := i] ! l = edit_distance p (take l to)"
      using Cons.prems(5) by (auto simp: nth_list_update)
    show "dym_row c cs (d[j := i]) m (j + 1) m = (d', x')" using Cons.prems(8) step by simp
  qed (use m in simp_all)
qed

lemma dym_rows_correct:
  assumes "to \<noteq> []"
  shows "dym_rows (length p) cs to (dist_row p to) (edit_distance p to) = edit_distance (p @ cs) to"
proof (induction cs arbitrary: p)
  case (Cons c cs)
  obtain d' x' where r: "dym_row c to (dist_row p to) (length p + 1) 0 (edit_distance p to) = (d', x')"
    by force
  have row: "length d' = length to + 1 \<and> (\<forall>l < length to. d' ! l = edit_distance (p @ [c]) (take l to))
      \<and> x' = edit_distance (p @ [c]) to"
  proof (rule dym_row_correct[OF _ _ _ _ _ _ _ r])
    show "\<forall>l. 0 \<le> l \<longrightarrow> l \<le> length to \<longrightarrow> dist_row p to ! l = edit_distance p (take l to)"
      by (auto simp: dist_row_def nth_append simp del: upt_Suc)
  qed (use assms in \<open>simp_all add: dist_row_def\<close>)
  have "d'[length to := x'] = dist_row (p @ [c]) to"
    using row by (intro nth_equalityI) (auto simp: dist_row_def nth_list_update nth_append simp del: upt_Suc)
  then show ?case using Cons.IH[of "p @ [c]"] r row by simp
qed simp

text \<open>The one-row loop behind the suggestions, which reuses the row it is overwriting, computes
  the edit distance of the two texts, character by character.\<close>
theorem suggestion_distance_exact:
  "dym_levenshtein a b = edit_distance (utf8_chars a) (utf8_chars b)"
proof (cases "utf8_chars a = [] \<or> utf8_chars b = []")
  case True
  then show ?thesis by (auto simp: dym_levenshtein_def Let_def)
next
  case False
  obtain c cs where a: "utf8_chars a = c # cs" using False by (cases "utf8_chars a") auto
  let ?to = "utf8_chars b"
  obtain d' x' where r: "dym_row c ?to (dist_row [] ?to) 1 0 0 = (d', x')" by force
  have "dym_row c ?to (dist_row [] ?to) (length ([] :: string list) + 1) 0 0
      = dym_row c ?to (dist_row [] ?to) (length ([] :: string list) + 1) 0 (edit_distance [] ?to)"
    using False by (cases ?to) simp_all
  then have "dym_rows 0 (c # cs) ?to (dist_row [] ?to) 0
      = dym_rows (length ([] :: string list)) (c # cs) ?to (dist_row [] ?to) (edit_distance [] ?to)"
    by simp
  also have "\<dots> = edit_distance (c # cs) ?to" using dym_rows_correct[of ?to "[]" "c # cs"] False by simp
  finally show ?thesis using False a by (simp add: dym_levenshtein_def Let_def dist_row_start)
qed

end
