(* ===== verification/Command_Options.thy ===== *)
theory Command_Options
  imports Command_Tables Optparse_Scan Suppression
begin

text \<open>
  How each command folds the items of its parser into its options (the loops over the items in
  \<open>main.rs\<close> and in the files of the commands), with the checks that follow before any file is
  read. A panic of \<open>unwrap\<close> or \<open>unreachable!\<close> is the value \<open>Panic\<close>, an early return carries the two
  texts printed and the exit code. The record \<open>Host\<close> is what the loops ask of the file system and
  of the standard library: whether a path is a directory, a file, exists and opens, and the quoted
  form that \<open>{:?}\<close> gives a string.
\<close>

section \<open>Flow\<close>

type_synonym exit = "string \<times> string \<times> nat"

datatype 'a Flow = Go 'a | Return exit | Panic

record Host =
  is_dir :: "string \<Rightarrow> bool"
  is_file :: "string \<Rightarrow> bool"
  exists_path :: "string \<Rightarrow> bool"
  opens :: "string \<Rightarrow> bool"
  debug_str :: "string \<Rightarrow> string"

definition usage_error :: "string \<Rightarrow> exit" where
  "usage_error msg = ('''', msg @ nl, 64)"

fun fold_items :: "('s \<Rightarrow> Item \<Rightarrow> 's Flow) \<Rightarrow> Item list \<Rightarrow> 's \<Rightarrow> 's Flow" where
  "fold_items step [] st = Go st"
| "fold_items step (it # its) st =
     (case step st it of
        Go st' \<Rightarrow> fold_items step its st'
      | Return e \<Rightarrow> Return e
      | Panic \<Rightarrow> Panic)"

definition parse_items :: "Env \<Rightarrow> bool \<Rightarrow> OptParser \<Rightarrow> string list \<Rightarrow> Item list Flow" where
  "parse_items env posix p argv =
     (case parse_mode env p argv posix of
        None \<Rightarrow> Panic
      | Some out \<Rightarrow> (case items_or_exit out of Inl e \<Rightarrow> Return e | Inr items \<Rightarrow> Go items))"

definition parse_items_usage :: "Env \<Rightarrow> bool \<Rightarrow> OptParser \<Rightarrow> string \<Rightarrow> string list \<Rightarrow> Item list Flow" where
  "parse_items_usage env posix p usage argv =
     (case parse_mode env p argv posix of
        None \<Rightarrow> Panic
      | Some out \<Rightarrow> (case items_or_exit_usage out usage of Inl e \<Rightarrow> Return e | Inr items \<Rightarrow> Go items))"

fun then_do :: "'a Flow \<Rightarrow> ('a \<Rightarrow> 'b Flow) \<Rightarrow> 'b Flow" where
  "then_do (Go x) f = f x"
| "then_do (Return e) f = Return e"
| "then_do Panic f = Panic"

text \<open>\<open>value.unwrap()\<close>.\<close>

definition unwrap :: "Value option \<Rightarrow> (Value \<Rightarrow> 'a Flow) \<Rightarrow> 'a Flow" where
  "unwrap v f = (case v of None \<Rightarrow> Panic | Some x \<Rightarrow> f x)"

definition ascii_space_or_nul :: "char \<Rightarrow> bool" where
  "ascii_space_or_nul c = (c \<in> {CHR '' '', CHR 0x09, CHR 0x0A, CHR 0x0C, CHR 0x0D, CHR 0x00})"

definition checked_config_path :: "Host \<Rightarrow> string \<Rightarrow> exit + string" where
  "checked_config_path h value =
     (if list_all ascii_space_or_nul value then Inl (usage_error ''rigor: empty config path'')
      else if is_dir h value then Inl (usage_error (''rigor: config path is a directory: '' @ value))
      else if \<not> exists_path h value then Inl (usage_error (''rigor: config file not found: '' @ value))
      else if \<not> opens h value then Inl (usage_error (''rigor: config file not readable: '' @ value))
      else Inr value)"

text \<open>The arm of the key \<open>config\<close>, the same in every command that has it.\<close>

definition config_arm :: "Host \<Rightarrow> Value option \<Rightarrow> (string \<Rightarrow> 'a Flow) \<Rightarrow> 'a Flow" where
  "config_arm h v f =
     unwrap v (\<lambda>x. case checked_config_path h (as_str x) of Inr path \<Rightarrow> f path | Inl e \<Rightarrow> Return e)"

text \<open>The validation that several commands repeat after the fold.\<close>

definition format_ok :: "string \<Rightarrow> bool" where
  "format_ok f = (f = ''text'' \<or> f = ''json'')"

section \<open>\<open>rigor check\<close>\<close>

datatype RubyMode = Require | Auto | Off | RubyPath string

definition parse_value :: "string \<Rightarrow> RubyMode" where
  "parse_value s =
     (if s = ''require'' then Require else if s = ''auto'' then Auto else if s = ''off'' then Off
      else RubyPath s)"

definition env_flag_set :: "string \<Rightarrow> bool" where
  "env_flag_set val = (val \<noteq> '''' \<and> val \<noteq> ''0'' \<and> map to_ascii_lowercase val \<noteq> ''false'')"

text \<open>The two variables of the environment are arguments, \<open>None\<close> when unset or not UTF-8.\<close>

definition resolve_ruby ::
  "string option \<Rightarrow> string option \<Rightarrow> RubyMode option \<Rightarrow> string option \<Rightarrow> RubyMode \<Rightarrow> string + RubyMode" where
  "resolve_ruby rigor_ruby rigor_no_ruby cli config_value default_mode =
     (case cli of
        Some mode \<Rightarrow> Inr mode
      | None \<Rightarrow>
          (let env_ruby = (case rigor_ruby of Some s \<Rightarrow> if s = '''' then None else Some s | None \<Rightarrow> None);
               env_no_ruby = (case rigor_no_ruby of Some s \<Rightarrow> if env_flag_set s then Some s else None | None \<Rightarrow> None)
           in case (env_ruby, env_no_ruby) of
                (Some _, Some _) \<Rightarrow>
                  Inl (''RIGOR_RUBY and RIGOR_NO_RUBY are both set '' @ [CHR 0xE2, CHR 0x80, CHR 0x94] @ '' set at most one'')
              | (Some v, None) \<Rightarrow> Inr (parse_value v)
              | (None, Some _) \<Rightarrow> Inr Off
              | (None, None) \<Rightarrow>
                  (case config_value of Some v \<Rightarrow> Inr (parse_value v) | None \<Rightarrow> Inr default_mode)))"

datatype BaselineArg = Unset | BaselinePath string | BaselineOff

datatype BleedingEdgeSelector = NoFeatures | AllExcept "string list" | Features "string list"

fun activates :: "BleedingEdgeSelector \<Rightarrow> string \<Rightarrow> bool" where
  "activates NoFeatures i = False"
| "activates (AllExcept except) i = (i \<notin> set except)"
| "activates (Features ids) i = (i \<in> set ids)"

record CheckOptions =
  ck_format :: string
  ck_files :: "string list"
  ck_config :: "string option"
  ck_baseline :: BaselineArg
  ck_ruby :: "RubyMode option"
  ck_no_ruby :: bool
  ck_strict :: bool
  ck_bleeding_edge :: "BleedingEdgeSelector option"
  ck_fail_on :: "string option"
  ck_ci_detect :: bool
  ck_tmp_file :: "string option"
  ck_instead_of :: "string option"
  ck_workers :: bool
  ck_unsupported :: "string option"

definition check_init :: CheckOptions where
  "check_init = \<lparr> ck_format = ''text'', ck_files = [], ck_config = None, ck_baseline = Unset,
     ck_ruby = None, ck_no_ruby = False, ck_strict = False, ck_bleeding_edge = None,
     ck_fail_on = None, ck_ci_detect = True, ck_tmp_file = None, ck_instead_of = None,
     ck_workers = False, ck_unsupported = None \<rparr>"

definition CHECK_UNSUPPORTED :: "string list" where
  "CHECK_UNSUPPORTED = [''explain'', ''cache-stats'', ''coverage'', ''treat-all-as-inline-rbs'',
     ''verify-incremental'', ''verify-incremental-edits'', ''incremental'', ''no-tolerated-effects'']"

fun check_step :: "Env \<Rightarrow> Host \<Rightarrow> CheckOptions \<Rightarrow> Item \<Rightarrow> CheckOptions Flow" where
  "check_step env h st (Positional p) = Go (st\<lparr>ck_files := ck_files st @ [p]\<rparr>)"
| "check_step env h st (Opt k neg v) =
     (if k = ''config'' then config_arm h v (\<lambda>path. Go (st\<lparr>ck_config := Some path\<rparr>))
      else if k = ''format'' then unwrap v (\<lambda>x. Go (st\<lparr>ck_format := as_str x\<rparr>))
      else if k \<in> set [''no-cache'', ''clear-cache'', ''stats''] then Go st
      else if k = ''workers'' then Go (st\<lparr>ck_workers := True\<rparr>)
      else if k = ''tmp-file'' then unwrap v (\<lambda>x. Go (st\<lparr>ck_tmp_file := Some (as_str x)\<rparr>))
      else if k = ''instead-of'' then unwrap v (\<lambda>x. Go (st\<lparr>ck_instead_of := Some (as_str x)\<rparr>))
      else if k = ''baseline'' then unwrap v (\<lambda>x. Go (st\<lparr>ck_baseline := BaselinePath (as_str x)\<rparr>))
      else if k = ''no-baseline'' then Go (st\<lparr>ck_baseline := BaselineOff\<rparr>)
      else if k = ''baseline-strict'' then Go (st\<lparr>ck_strict := True\<rparr>)
      else if k = ''fail-on'' then unwrap v (\<lambda>x. Go (st\<lparr>ck_fail_on := Some (lowercase env (as_str x))\<rparr>))
      else if k \<in> set CHECK_UNSUPPORTED then
        (if ck_unsupported st = None then Go (st\<lparr>ck_unsupported := Some k\<rparr>) else Go st)
      else if k = ''no-ci-detect'' then Go (st\<lparr>ck_ci_detect := False\<rparr>)
      else if k = ''bleeding-edge'' then
        (case v of
           None \<Rightarrow> Go (st\<lparr>ck_bleeding_edge := Some (AllExcept [])\<rparr>)
         | Some (StrValue l) \<Rightarrow> Go (st\<lparr>ck_bleeding_edge := Some (Features
               (filter (\<lambda>s. s \<noteq> '''') (map str_trim (split_any (\<lambda>c. c = CHR '','') l))))\<rparr>)
         | _ \<Rightarrow> Panic)
      else if k = ''no-bleeding-edge'' then Go (st\<lparr>ck_bleeding_edge := Some NoFeatures\<rparr>)
      else if k = ''ruby'' then unwrap v (\<lambda>x. Go (st\<lparr>ck_ruby := Some (parse_value (as_str x))\<rparr>))
      else if k = ''no-ruby'' then Go (st\<lparr>ck_no_ruby := True\<rparr>)
      else Panic)"

definition check_unsupported :: "string \<Rightarrow> exit" where
  "check_unsupported flag = usage_error (''rigor: '' @ flag @ '' is not supported by rigor-rs'')"

text \<open>The checks from \<open>--fail-on\<close> to the load of the configuration: the severity of the gate and the
  mode of the command line.\<close>

definition check_fail_on :: "string option \<Rightarrow> exit + Severity" where
  "check_fail_on f =
     (case f of
        None \<Rightarrow> Inr Error
      | Some v \<Rightarrow>
          if v = ''error'' then Inr Error
          else if v = ''warning'' then Inr Warning
          else if v = ''info'' then Inr Info
          else Inl (usage_error (''rigor: invalid --fail-on value: '' @ v @ '' (expected error, warning, or info)'')))"

definition buffer_binding :: "Host \<Rightarrow> string option \<Rightarrow> string option \<Rightarrow> exit option" where
  "buffer_binding h tmp_file instead_of =
     (case (tmp_file, instead_of) of
        (Some _, None) \<Rightarrow> Some (usage_error ''--tmp-file and --instead-of must appear together'')
      | (None, Some _) \<Rightarrow> Some (usage_error ''--tmp-file and --instead-of must appear together'')
      | (Some tmp, Some _) \<Rightarrow>
          Some (if \<not> is_file h tmp
            then usage_error (''--tmp-file '' @ debug_str h tmp @ '': no such file or not readable'')
            else check_unsupported ''--tmp-file/--instead-of'')
      | (None, None) \<Rightarrow> None)"

definition check_settle :: "Host \<Rightarrow> CheckOptions \<Rightarrow> (CheckOptions \<times> Severity \<times> RubyMode option) Flow" where
  "check_settle h st =
     (case check_fail_on (ck_fail_on st) of
        Inl e \<Rightarrow> Return e
      | Inr sev \<Rightarrow>
          (case buffer_binding h (ck_tmp_file st) (ck_instead_of st) of
             Some e \<Rightarrow> Return e
           | None \<Rightarrow>
               (case ck_unsupported st of
                  Some flag \<Rightarrow> Return (check_unsupported (''--'' @ flag))
                | None \<Rightarrow>
                    if ck_ruby st \<noteq> None \<and> ck_no_ruby st
                    then Return (usage_error ''rigor check: --ruby and --no-ruby are mutually exclusive (specify at most one)'')
                    else Go (st, sev,
                      (case ck_ruby st of Some m \<Rightarrow> Some m | None \<Rightarrow> if ck_no_ruby st then Some Off else None)))))"

definition check_options ::
  "Env \<Rightarrow> Host \<Rightarrow> bool \<Rightarrow> string list \<Rightarrow> (CheckOptions \<times> Severity \<times> RubyMode option) Flow" where
  "check_options env h posix argv =
     then_do (parse_items env posix CHECK_PARSER argv) (\<lambda>items.
       then_do (fold_items (check_step env h) items check_init) (check_settle h))"

end
