(* ===== verification/Positions.thy ===== *)
theory Positions
  imports Optparse Suppression
begin

text \<open>
  Positions in a source text: the line and the column of a byte offset (\<open>line_col\<close> of
  \<open>rigor-cli/src/main.rs\<close>), the offset of a line and a column and the reading of a position
  argument (\<open>type_of.rs\<close>). A source is its bytes; \<open>usize\<close> values are natural numbers, bounded by
  the parser of the argument.
\<close>

abbreviation line_feed :: char where
  "line_feed \<equiv> CHR 0x0A"

text \<open>The loop of \<open>line_col\<close> over the bytes before the offset.\<close>

fun line_col_loop :: "string \<Rightarrow> nat \<Rightarrow> nat \<Rightarrow> nat \<Rightarrow> nat \<Rightarrow> nat \<times> nat" where
  "line_col_loop [] i clamped line line_start = (line, line_start)"
| "line_col_loop (b # bs) i clamped line line_start =
     (if i \<ge> clamped then (line, line_start)
      else if b = line_feed then line_col_loop bs (i + 1) clamped (line + 1) (i + 1)
      else line_col_loop bs (i + 1) clamped line line_start)"

definition line_col :: "string \<Rightarrow> nat \<Rightarrow> nat \<times> nat" where
  "line_col source byte_offset =
     (if source = '''' then (1, 1)
      else
        let clamped = min byte_offset (length source);
            (line, line_start) = line_col_loop source 0 clamped 1 0
        in (line, clamped - line_start + 1))"

text \<open>The walk to the start of a line: \<open>None\<close> when the text ends first.\<close>

fun seek_line :: "string \<Rightarrow> nat \<Rightarrow> nat \<Rightarrow> nat \<Rightarrow> nat \<Rightarrow> nat option" where
  "seek_line bs i current line line_start =
     (if current \<ge> line then Some line_start
      else case bs of
        [] \<Rightarrow> None
      | b # rest \<Rightarrow>
          if b = line_feed then seek_line rest (i + 1) (current + 1) line (i + 1)
          else seek_line rest (i + 1) current line line_start)"

declare seek_line.simps [simp del]

definition position_to_offset :: "string \<Rightarrow> nat \<Rightarrow> nat \<Rightarrow> string + nat" where
  "position_to_offset source line column =
     (if line = 0 \<or> column = 0 then Inl ''line and column are 1-based''
      else case seek_line source 0 1 line 0 of
        None \<Rightarrow> Inl (''line '' @ digits_of line @ '' is past the end of the source buffer'')
      | Some line_start \<Rightarrow>
          (let line_text = takeWhile (\<lambda>c. c \<noteq> line_feed) (drop line_start source);
               line_end = line_start + length line_text;
               col_offset = column - 1
           in if col_offset < length line_text then
                if \<not> char_boundary line_text col_offset
                then Inl (''column '' @ digits_of column @ '' is inside a multi-byte character on line '' @ digits_of line)
                else Inr (line_start + col_offset)
              else if col_offset = length line_text then Inr line_end
              else Inl (''column '' @ digits_of column @ '' is past the end of line '' @ digits_of line)))"

text \<open>\<open>str::parse::<usize>\<close>: an optional plus sign, at least one digit, a value of 64 bits.\<close>

definition parse_usize :: "string \<Rightarrow> nat option" where
  "parse_usize s =
     (let ds = (case s of c # r \<Rightarrow> if c = CHR ''+'' then r else s | [] \<Rightarrow> s) in
      if ds = '''' then None
      else case radix_loop 10 ds 0 of
        Some n \<Rightarrow> if n < 2 ^ 64 then Some (nat n) else None
      | None \<Rightarrow> None)"

datatype PositionError = BadCount | BadForm string | BadNumbers

definition decode_position :: "string \<Rightarrow> string \<Rightarrow> string \<Rightarrow> PositionError + string \<times> nat \<times> nat" where
  "decode_position file line column =
     (case (parse_usize line, parse_usize column) of
        (Some l, Some c) \<Rightarrow> Inr (file, l, c)
      | _ \<Rightarrow> Inl BadNumbers)"

definition parse_colon_form :: "string \<Rightarrow> PositionError + string \<times> nat \<times> nat" where
  "parse_colon_form arg =
     (let parts = split_any (\<lambda>c. c = CHR '':'') arg in
      if length parts < 3 then Inl (BadForm arg)
      else
        let column = parts ! (length parts - 1);
            line = parts ! (length parts - 2);
            file_end = length arg - length column - length line - 2
        in decode_position (take file_end arg) line column)"

definition parse_position :: "string list \<Rightarrow> PositionError + string \<times> nat \<times> nat" where
  "parse_position argv =
     (case argv of
        [a] \<Rightarrow> parse_colon_form a
      | [a, b, c] \<Rightarrow> decode_position a b c
      | _ \<Rightarrow> Inl BadCount)"

section \<open>Lines\<close>

definition newlines :: "string \<Rightarrow> nat" where
  "newlines s = length (filter (\<lambda>c. c = line_feed) s)"

definition last_line_start :: "string \<Rightarrow> nat" where
  "last_line_start s = length s - length (takeWhile (\<lambda>c. c \<noteq> line_feed) (rev s))"

lemma last_line_start_simps:
  "last_line_start [] = 0"
  "last_line_start (s @ [c]) = (if c = line_feed then Suc (length s) else last_line_start s)"
  using length_takeWhile_le[of "\<lambda>c. c \<noteq> line_feed" "rev s"]
  by (auto simp: last_line_start_def)

lemma newlines_simps: "newlines [] = 0" "newlines (s @ t) = newlines s + newlines t"
    "newlines (c # s) = (if c = line_feed then 1 else 0) + newlines s"
  by (simp_all add: newlines_def)

lemma last_line_start_Cons:
  "last_line_start (c # t) =
     (if newlines t = 0 then (if c = line_feed then 1 else 0) else Suc (last_line_start t))"
proof (induction t rule: rev_induct)
  case Nil
  then show ?case by (simp add: last_line_start_def newlines_def)
next
  case (snoc x t)
  then show ?case using last_line_start_simps(2)[of "c # t" x]
    by (auto simp: last_line_start_simps newlines_simps)
qed

lemma last_line_start_append:
  "newlines t = 0 \<Longrightarrow> last_line_start (s @ t) = last_line_start s"
proof (induction t rule: rev_induct)
  case (snoc x t)
  then have "newlines t = 0" "x \<noteq> line_feed" by (auto simp: newlines_simps split: if_splits)
  with snoc.IH show ?case using last_line_start_simps(2)[of "s @ t" x] by simp
qed simp

lemma after_line_start: "newlines (drop (last_line_start s) s) = 0" "last_line_start s \<le> length s"
proof -
  let ?t = "takeWhile (\<lambda>c. c \<noteq> line_feed) (rev s)"
  have "drop (last_line_start s) s = rev (take (length ?t) (rev s))"
    unfolding last_line_start_def take_rev rev_rev_ident ..
  also have "take (length ?t) (rev s) = ?t" by (metis takeWhile_eq_take)
  finally show "newlines (drop (last_line_start s) s) = 0"
    by (auto simp: newlines_def filter_empty_conv dest: set_takeWhileD)
qed (simp add: last_line_start_def)

text \<open>The loop counts the newlines of the prefix it has walked.\<close>

lemma line_col_loop_prefix:
  assumes "clamped \<le> i + length s"
  shows "line_col_loop s i clamped line ls =
    (line + newlines (take (clamped - i) s),
     if newlines (take (clamped - i) s) = 0 then ls else i + last_line_start (take (clamped - i) s))"
  using assms
proof (induction s arbitrary: i line ls)
  case (Cons b bs)
  show ?case
  proof (cases "i \<ge> clamped")
    case False
    then have "clamped - i = Suc (clamped - Suc i)" by simp
    then have t: "take (clamped - i) (b # bs) = b # take (clamped - Suc i) bs" by (metis take_Suc_Cons)
    show ?thesis
    proof (cases "b = line_feed")
      case True
      with Cons.IH[of "Suc i"] Cons.prems False show ?thesis
        by (simp add: t[unfolded True] last_line_start_Cons newlines_simps)
    next
      case nb: False
      with Cons.IH[of "Suc i"] Cons.prems False show ?thesis by (simp add: t last_line_start_Cons newlines_simps)
    qed
  qed (simp add: newlines_simps)
qed (simp add: newlines_simps)

lemma line_col_prefix:
  assumes "off \<le> length source"
  shows "line_col source off =
    (1 + newlines (take off source), off - last_line_start (take off source) + 1)"
proof -
  have "last_line_start s = 0" if "newlines s = 0" for s
  proof -
    have "takeWhile (\<lambda>c. c \<noteq> line_feed) (rev s) = rev s"
      unfolding takeWhile_eq_all_conv using that by (auto simp: newlines_def filter_empty_conv)
    then show ?thesis unfolding last_line_start_def by (simp only: length_rev diff_self_eq_0)
  qed
  then have loop: "line_col_loop source 0 off 1 0 = (1 + newlines (take off source), last_line_start (take off source))"
    using line_col_loop_prefix[of off 0 source 1 0] assms by simp
  show ?thesis
  proof (cases "source = ''''")
    case True
    then show ?thesis using assms by (simp add: line_col_def newlines_simps last_line_start_simps)
  next
    case False
    then show ?thesis using assms by (simp add: line_col_def Let_def min_absorb1 loop[unfolded One_nat_def])
  qed
qed


lemma seek_line_prefix:
  assumes "newlines (take n s) = line - cur" "cur \<le> line" "n \<le> length s"
  shows "seek_line s i cur line ls =
    Some (if line \<le> cur then ls else i + last_line_start (take n s))"
  using assms
proof (induction s arbitrary: n i cur ls)
  case Nil
  then show ?case by (simp add: seek_line.simps newlines_simps)
next
  case (Cons b bs)
  show ?case
  proof (cases "line \<le> cur")
    case False
    with Cons.prems obtain m where n: "n = Suc m" by (cases n) (auto simp: newlines_simps)
    show ?thesis
    proof (cases "b = line_feed")
      case True
      then have "newlines (take m bs) = line - Suc cur" using Cons.prems n by (simp add: newlines_simps)
      then show ?thesis using Cons.IH[of m "Suc cur" "Suc i" "Suc i"] Cons.prems False True n
        by (subst seek_line.simps) (simp add: last_line_start_Cons)
    next
      case nb: False
      then show ?thesis using Cons.IH[of m cur "Suc i" ls] Cons.prems False n
        by (subst seek_line.simps) (simp add: newlines_simps last_line_start_Cons)
    qed
  qed (simp add: seek_line.simps)
qed

lemma seek_line_found:
  assumes "seek_line s i cur line ls = Some r" "cur < line"
  shows "\<exists>n. r = i + n \<and> n \<le> length s \<and> newlines (take n s) = line - cur \<and> last_line_start (take n s) = n"
  using assms
proof (induction s arbitrary: i cur ls)
  case (Cons b bs)
  have start: "r = i \<longleftrightarrow> False" if "\<exists>n. r = Suc i + n" using that by auto
  show ?case
  proof (cases "b = line_feed \<and> line = Suc cur")
    case True
    then have "r = Suc i" using Cons.prems by (simp add: seek_line.simps)
    with True show ?thesis by (intro exI[of _ 1]) (simp add: newlines_simps last_line_start_Cons)
  next
    case False
    have s: "seek_line bs (Suc i) (if b = line_feed then Suc cur else cur) line
        (if b = line_feed then Suc i else ls) = Some r"
      using Cons.prems by (subst (asm) seek_line.simps) (auto split: if_splits)
    have "(if b = line_feed then Suc cur else cur) < line" using False Cons.prems(2) by auto
    from Cons.IH[OF s this] obtain n where n: "r = Suc i + n" "n \<le> length bs"
      "newlines (take n bs) = line - (if b = line_feed then Suc cur else cur)"
      "last_line_start (take n bs) = n" by blast
    moreover have "newlines (take n bs) > 0" using n(3) False Cons.prems(2) by (auto split: if_splits)
    ultimately show ?thesis using Cons.prems(2)
      by (intro exI[of _ "Suc n"]) (auto simp: newlines_simps last_line_start_Cons split: if_splits)
  qed
qed (simp add: seek_line.simps)

end
