(* ===== verification/Command_Folds.thy ===== *)
theory Command_Folds
  imports Command_Options Positions Baseline Triage
begin

text \<open>
  The folds of the other commands over their items: \<open>diff\<close>, \<open>triage\<close>, \<open>annotate\<close>, \<open>explain\<close>,
  \<open>init\<close>, \<open>plugins\<close>, \<open>doctor\<close>, \<open>show-bleedingedge\<close>, \<open>type-of\<close>, \<open>effects\<close>, \<open>coverage\<close>,
  \<open>sig-gen\<close>, \<open>lsp\<close>, \<open>mcp\<close> and the subcommands of \<open>baseline\<close>, each up to the point where it
  reads a file or a configuration.
\<close>

section \<open>\<open>diff\<close> and \<open>triage\<close>\<close>

record DiffOptions =
  df_format :: string
  df_current :: "string option"
  df_config :: "string option"
  df_positionals :: "string list"

fun diff_step :: "Host \<Rightarrow> DiffOptions \<Rightarrow> Item \<Rightarrow> DiffOptions Flow" where
  "diff_step h st (Positional p) = Go (st\<lparr>df_positionals := df_positionals st @ [p]\<rparr>)"
| "diff_step h st (Opt k neg v) =
     (if k = ''format'' then unwrap v (\<lambda>x. Go (st\<lparr>df_format := as_str x\<rparr>))
      else if k = ''current'' then unwrap v (\<lambda>x. Go (st\<lparr>df_current := Some (as_str x)\<rparr>))
      else if k = ''config'' then config_arm h v (\<lambda>path. Go (st\<lparr>df_config := Some path\<rparr>))
      else Panic)"

text \<open>The options with the baseline's path and the roots split off the positionals.\<close>

definition diff_options :: "Env \<Rightarrow> Host \<Rightarrow> bool \<Rightarrow> string list \<Rightarrow> (DiffOptions \<times> string \<times> string list) Flow" where
  "diff_options env h posix argv =
     then_do (parse_items env posix DIFF_PARSER argv) (\<lambda>items.
       then_do (fold_items (diff_step h) items
         \<lparr>df_format = ''text'', df_current = None, df_config = None, df_positionals = []\<rparr>) (\<lambda>st.
           case df_positionals st of
             [] \<Rightarrow> Return (usage_error (banner DIFF_PARSER))
           | b # paths \<Rightarrow> Go (st, b, paths)))"

record TriageOptions =
  tr_format :: string
  tr_limit :: nat
  tr_include_info :: bool
  tr_sections :: "Section list"
  tr_config :: "string option"
  tr_paths :: "string list"

definition triage_init :: TriageOptions where
  "triage_init = \<lparr> tr_format = ''text'', tr_limit = 10, tr_include_info = False,
     tr_sections = [Distribution, Selectors, Hotspots, Hints],
     tr_config = None, tr_paths = [] \<rparr>"

fun triage_step :: "Host \<Rightarrow> TriageOptions \<Rightarrow> Item \<Rightarrow> TriageOptions Flow" where
  "triage_step h st (Positional p) = Go (st\<lparr>tr_paths := tr_paths st @ [p]\<rparr>)"
| "triage_step h st (Opt k neg v) =
     (if k = ''config'' then config_arm h v (\<lambda>path. Go (st\<lparr>tr_config := Some path\<rparr>))
      else if k = ''format'' then unwrap v (\<lambda>x. Go (st\<lparr>tr_format := as_str x\<rparr>))
      else if k = ''top'' then unwrap v (\<lambda>x. Go (st\<lparr>tr_limit := nat (max 0 (sint (as_int x)))\<rparr>))
      else if k = ''include-info'' then Go (st\<lparr>tr_include_info := True\<rparr>)
      else if k = ''hints-only'' then Go (st\<lparr>tr_sections := [Hints]\<rparr>)
      else if k = ''no-hints'' then Go (st\<lparr>tr_sections := [Distribution, Selectors, Hotspots]\<rparr>)
      else if k = ''selectors-only'' then Go (st\<lparr>tr_sections := [Selectors]\<rparr>)
      else Panic)"

definition triage_options :: "Env \<Rightarrow> Host \<Rightarrow> bool \<Rightarrow> string list \<Rightarrow> TriageOptions Flow" where
  "triage_options env h posix argv =
     then_do (parse_items env posix TRIAGE_PARSER argv) (\<lambda>items.
       then_do (fold_items (triage_step h) items triage_init) (\<lambda>st.
         if \<not> format_ok (tr_format st)
         then Return (usage_error (''invalid argument: unsupported format: '' @ tr_format st))
         else Go st))"

section \<open>Commands with a format and a configuration\<close>

text \<open>The shape shared by \<open>show-bleedingedge\<close>, \<open>doctor\<close>, \<open>plugins\<close>, \<open>annotate\<close> and \<open>explain\<close>: their
  options are these, with what a command has no use for left at its start value.\<close>

record ReportOptions =
  rp_format :: string
  rp_config :: "string option"
  rp_positionals :: "string list"
  rp_capabilities :: bool

definition report_init :: ReportOptions where
  "report_init = \<lparr> rp_format = ''text'', rp_config = None, rp_positionals = [], rp_capabilities = False \<rparr>"

fun annotate_step :: "Host \<Rightarrow> ReportOptions \<Rightarrow> Item \<Rightarrow> ReportOptions Flow" where
  "annotate_step h st (Positional p) = Go (st\<lparr>rp_positionals := rp_positionals st @ [p]\<rparr>)"
| "annotate_step h st (Opt k neg v) =
     (if k = ''config'' then config_arm h v (\<lambda>path. Go (st\<lparr>rp_config := Some path\<rparr>))
      else if k = ''format'' then unwrap v (\<lambda>x. Go (st\<lparr>rp_format := as_str x\<rparr>))
      else if k = ''color'' \<or> k = ''bat'' then Go st
      else Panic)"

definition annotate_options :: "Env \<Rightarrow> Host \<Rightarrow> bool \<Rightarrow> string list \<Rightarrow> (ReportOptions \<times> string) Flow" where
  "annotate_options env h posix argv =
     then_do (parse_items env posix ANNOTATE_PARSER argv) (\<lambda>items.
       then_do (fold_items (annotate_step h) items report_init) (\<lambda>st.
         case rp_positionals st of
           [] \<Rightarrow> Return (usage_error (banner ANNOTATE_PARSER))
         | file # _ \<Rightarrow>
             if \<not> is_file h file then Return ('''', ''annotate: file not found: '' @ file @ nl, 1)
             else Go (st, file)))"

fun bleeding_edge_step :: "Host \<Rightarrow> ReportOptions \<Rightarrow> Item \<Rightarrow> ReportOptions Flow" where
  "bleeding_edge_step h st (Positional p) = Go st"
| "bleeding_edge_step h st (Opt k neg v) =
     (if k = ''format'' then unwrap v (\<lambda>x. Go (st\<lparr>rp_format := as_str x\<rparr>))
      else if k = ''config'' then config_arm h v (\<lambda>path. Go (st\<lparr>rp_config := Some path\<rparr>))
      else Panic)"

definition bleeding_edge_options :: "Env \<Rightarrow> Host \<Rightarrow> bool \<Rightarrow> string list \<Rightarrow> ReportOptions Flow" where
  "bleeding_edge_options env h posix argv =
     then_do (parse_items env posix BLEEDING_EDGE_PARSER argv) (\<lambda>items.
       fold_items (bleeding_edge_step h) items report_init)"

fun doctor_step :: "Host \<Rightarrow> ReportOptions \<Rightarrow> Item \<Rightarrow> ReportOptions Flow" where
  "doctor_step h st (Positional p) = Go st"
| "doctor_step h st (Opt k neg v) =
     (if k = ''config'' then config_arm h v (\<lambda>path. Go (st\<lparr>rp_config := Some path\<rparr>))
      else if k = ''format'' then unwrap v (\<lambda>x. Go (st\<lparr>rp_format := as_str x\<rparr>))
      else Panic)"

definition doctor_options :: "Env \<Rightarrow> Host \<Rightarrow> bool \<Rightarrow> string list \<Rightarrow> ReportOptions Flow" where
  "doctor_options env h posix argv =
     then_do (parse_items env posix DOCTOR_PARSER argv) (\<lambda>items.
       then_do (fold_items (doctor_step h) items report_init) (\<lambda>st.
         if \<not> format_ok (rp_format st)
         then Return (usage_error (''invalid argument: unsupported format: '' @ rp_format st))
         else if rp_format st = ''json''
         then Return (usage_error ''rigor: doctor --format=json is not supported by rigor-rs'')
         else Go st))"

fun plugins_step :: "Host \<Rightarrow> ReportOptions \<Rightarrow> Item \<Rightarrow> ReportOptions Flow" where
  "plugins_step h st (Positional p) = Go st"
| "plugins_step h st (Opt k neg v) =
     (if k = ''config'' then config_arm h v (\<lambda>path. Go (st\<lparr>rp_config := Some path\<rparr>))
      else if k = ''format'' then unwrap v (\<lambda>x. Go (st\<lparr>rp_format := as_str x\<rparr>))
      else if k = ''strict'' then Go st
      else if k = ''capabilities'' then Go (st\<lparr>rp_capabilities := True\<rparr>)
      else Panic)"

definition plugins_options :: "Env \<Rightarrow> Host \<Rightarrow> bool \<Rightarrow> string list \<Rightarrow> ReportOptions Flow" where
  "plugins_options env h posix argv =
     then_do (parse_items env posix PLUGINS_PARSER argv) (\<lambda>items.
       then_do (fold_items (plugins_step h) items report_init) (\<lambda>st.
         if \<not> format_ok (rp_format st)
         then Return (usage_error (''invalid argument: unsupported format: '' @ rp_format st))
         else if rp_format st = ''json''
         then Return (usage_error ''rigor: plugins --format=json is not supported by rigor-rs'')
         else if rp_capabilities st
         then Return (usage_error ''rigor: plugins --capabilities is not supported by rigor-rs'')
         else Go st))"

fun explain_step :: "ReportOptions \<Rightarrow> Item \<Rightarrow> ReportOptions Flow" where
  "explain_step st (Positional p) = Go (st\<lparr>rp_positionals := rp_positionals st @ [p]\<rparr>)"
| "explain_step st (Opt k neg v) =
     (if k = ''format'' then unwrap v (\<lambda>x. Go (st\<lparr>rp_format := as_str x\<rparr>)) else Panic)"

definition explain_options :: "Env \<Rightarrow> bool \<Rightarrow> string list \<Rightarrow> ReportOptions Flow" where
  "explain_options env posix argv =
     then_do (parse_items env posix EXPLAIN_PARSER argv) (\<lambda>items.
       fold_items explain_step items report_init)"

section \<open>\<open>init\<close> and the servers\<close>

record InitOptions =
  in_force :: bool
  in_path :: string

fun init_step :: "InitOptions \<Rightarrow> Item \<Rightarrow> InitOptions Flow" where
  "init_step st (Positional p) = Go st"
| "init_step st (Opt k neg v) =
     (if k = ''force'' then Go (st\<lparr>in_force := True\<rparr>)
      else if k = ''path'' then unwrap v (\<lambda>x. Go (st\<lparr>in_path := as_str x\<rparr>))
      else if k = ''no-plugins'' then Go st
      else Panic)"

definition init_options :: "Env \<Rightarrow> Host \<Rightarrow> bool \<Rightarrow> string list \<Rightarrow> InitOptions Flow" where
  "init_options env h posix argv =
     then_do (parse_items env posix INIT_PARSER argv) (\<lambda>items.
       then_do (fold_items init_step items \<lparr>in_force = False, in_path = ''.rigor.dist.yml''\<rparr>) (\<lambda>st.
         if exists_path h (in_path st) \<and> \<not> in_force st
         then Return ('''', in_path st @ '' already exists; use --force to overwrite it'' @ nl, 1)
         else Go st))"

record ServerOptions =
  sv_transport :: string
  sv_config :: "string option"

fun lsp_step :: "Host \<Rightarrow> ServerOptions \<Rightarrow> Item \<Rightarrow> ServerOptions Flow" where
  "lsp_step h st (Positional p) = Go st"
| "lsp_step h st (Opt k neg v) =
     (if k = ''transport'' then unwrap v (\<lambda>x. Go (st\<lparr>sv_transport := as_str x\<rparr>))
      else if k = ''log'' then Go st
      else if k = ''config'' then
        config_arm h v (\<lambda>path. Return (usage_error ''rigor: lsp --config is not supported by rigor-rs''))
      else Panic)"

fun mcp_step :: "ServerOptions \<Rightarrow> Item \<Rightarrow> ServerOptions Flow" where
  "mcp_step st (Positional p) = Go st"
| "mcp_step st (Opt k neg v) =
     (if k = ''transport'' then unwrap v (\<lambda>x. Go (st\<lparr>sv_transport := as_str x\<rparr>))
      else if k = ''config'' then unwrap v (\<lambda>x. Go (st\<lparr>sv_config := Some (as_str x)\<rparr>))
      else Panic)"

definition transport_check :: "Host \<Rightarrow> string \<Rightarrow> ServerOptions \<Rightarrow> ServerOptions Flow" where
  "transport_check h name st =
     (if sv_transport st \<noteq> ''stdio''
      then Return (usage_error (''rigor '' @ name @ '': unsupported transport: '' @ debug_str h (sv_transport st)
        @ '' (only `stdio` is supported in v1)''))
      else Go st)"

definition lsp_options :: "Env \<Rightarrow> Host \<Rightarrow> bool \<Rightarrow> string list \<Rightarrow> ServerOptions Flow" where
  "lsp_options env h posix argv =
     then_do (parse_items_usage env posix LSP_PARSER (banner LSP_PARSER) argv) (\<lambda>items.
       then_do (fold_items (lsp_step h) items \<lparr>sv_transport = ''stdio'', sv_config = None\<rparr>)
         (transport_check h ''lsp''))"

definition mcp_options :: "Env \<Rightarrow> Host \<Rightarrow> bool \<Rightarrow> string list \<Rightarrow> ServerOptions Flow" where
  "mcp_options env h posix argv =
     then_do (parse_items_usage env posix MCP_PARSER (banner MCP_PARSER) argv) (\<lambda>items.
       then_do (fold_items mcp_step items \<lparr>sv_transport = ''stdio'', sv_config = None\<rparr>)
         (transport_check h ''mcp''))"

section \<open>\<open>type-of\<close>\<close>

record TypeOfOptions =
  ty_format :: string
  ty_trace :: bool
  ty_config :: "string option"
  ty_tmp_file :: "string option"
  ty_instead_of :: "string option"
  ty_positionals :: "string list"

fun type_of_step :: "Host \<Rightarrow> TypeOfOptions \<Rightarrow> Item \<Rightarrow> TypeOfOptions Flow" where
  "type_of_step h st (Positional p) = Go (st\<lparr>ty_positionals := ty_positionals st @ [p]\<rparr>)"
| "type_of_step h st (Opt k neg v) =
     (if k = ''format'' then unwrap v (\<lambda>x. Go (st\<lparr>ty_format := as_str x\<rparr>))
      else if k = ''trace'' then Go (st\<lparr>ty_trace := True\<rparr>)
      else if k = ''config'' then config_arm h v (\<lambda>path. Go (st\<lparr>ty_config := Some path\<rparr>))
      else if k = ''tmp-file'' then unwrap v (\<lambda>x. Go (st\<lparr>ty_tmp_file := Some (as_str x)\<rparr>))
      else if k = ''instead-of'' then unwrap v (\<lambda>x. Go (st\<lparr>ty_instead_of := Some (as_str x)\<rparr>))
      else Panic)"

text \<open>The text that goes with a rejected position.\<close>

fun position_message :: "Host \<Rightarrow> PositionError \<Rightarrow> string" where
  "position_message h BadCount =
     ''type-of: expected FILE:LINE:COL or FILE LINE COL'' @ nl
       @ ''Usage: rigor type-of [options] FILE:LINE:COL''"
| "position_message h (BadForm arg) =
     ''type-of: expected FILE:LINE:COL, got '' @ debug_str h arg @ nl
       @ ''Usage: rigor type-of [options] FILE:LINE:COL''"
| "position_message h BadNumbers = ''type-of: line and column must be integers''"

definition type_of_options ::
  "Env \<Rightarrow> Host \<Rightarrow> bool \<Rightarrow> string list \<Rightarrow> (TypeOfOptions \<times> string \<times> nat \<times> nat) Flow" where
  "type_of_options env h posix argv =
     then_do (parse_items env posix TYPE_OF_PARSER argv) (\<lambda>items.
       then_do (fold_items (type_of_step h) items
         \<lparr>ty_format = ''text'', ty_trace = False, ty_config = None, ty_tmp_file = None,
          ty_instead_of = None, ty_positionals = []\<rparr>) (\<lambda>st.
         case buffer_binding h (ty_tmp_file st) (ty_instead_of st) of
           Some e \<Rightarrow> Return e
         | None \<Rightarrow>
             (case parse_position (ty_positionals st) of
                Inl e \<Rightarrow> Return (usage_error (position_message h e))
              | Inr target \<Rightarrow>
                  if ty_trace st then Return (usage_error ''rigor: --trace is not supported by rigor-rs'')
                  else Go (st, target))))"

end
