(* ===== verification/Command_Folds2.thy ===== *)
theory Command_Folds2
  imports Command_Folds
begin

text \<open>
  More folds: \<open>effects\<close>, \<open>coverage\<close>, \<open>sig-gen\<close> and the five subcommands of \<open>baseline\<close>, with the
  checks they make before the configuration is loaded.
\<close>

abbreviation emdash :: string where
  "emdash \<equiv> [CHR 0xE2, CHR 0x80, CHR 0x94]"

section \<open>\<open>effects\<close>\<close>

record EffectsOptions =
  ef_format :: string
  ef_full :: bool
  ef_config :: "string option"
  ef_positionals :: "string list"
  ef_unsupported :: "string option"

text \<open>The closures \<open>note\<close> and \<open>defer\<close>: the first flag stays.\<close>

definition first_flag :: "string \<Rightarrow> string option \<Rightarrow> string option" where
  "first_flag flag old = (if old = None then Some flag else old)"

fun effects_step :: "Host \<Rightarrow> EffectsOptions \<Rightarrow> Item \<Rightarrow> EffectsOptions Flow" where
  "effects_step h st (Positional p) = Go (st\<lparr>ef_positionals := ef_positionals st @ [p]\<rparr>)"
| "effects_step h st (Opt k neg v) =
     (if k = ''config'' then config_arm h v (\<lambda>path. Go (st\<lparr>ef_config := Some path\<rparr>))
      else if k = ''format'' then unwrap v (\<lambda>x. Go (st\<lparr>ef_format := as_str x\<rparr>))
      else if k = ''full'' then Go (st\<lparr>ef_full := True\<rparr>)
      else if k = ''no-tolerated-effects'' then Go st
      else if k \<in> set [''label'', ''pure'', ''limit'', ''why'', ''list-labels'']
      then Go (st\<lparr>ef_unsupported := first_flag (''--'' @ k) (ef_unsupported st)\<rparr>)
      else Panic)"

definition EFFECTS_VERBS :: "string list" where
  "EFFECTS_VERBS = [''update'', ''check'', ''diff'', ''explain'']"

text \<open>The routing by the first word; the text of the help is an argument.\<close>

definition effects_options :: "Env \<Rightarrow> Host \<Rightarrow> bool \<Rightarrow> string \<Rightarrow> string list \<Rightarrow> EffectsOptions Flow" where
  "effects_options env h posix help argv =
     (if argv \<noteq> [] \<and> hd argv \<in> set [''help'', ''--help'', ''-h''] then Return (help @ nl, '''', 0)
      else if argv \<noteq> [] \<and> hd argv \<in> set EFFECTS_VERBS then
        Return ('''', ''rigor-rs: `effects '' @ hd argv @ ''` (the committed effect snapshot) is not yet implemented ''
          @ emdash @ '' ADR-0043 slice 5'' @ nl, 2)
      else
        then_do (parse_items env posix EFFECTS_PARSER argv) (\<lambda>items.
          then_do (fold_items (effects_step h) items
            \<lparr>ef_format = ''text'', ef_full = False, ef_config = None, ef_positionals = [], ef_unsupported = None\<rparr>) (\<lambda>st.
            if \<not> format_ok (ef_format st)
            then Return (usage_error (''unsupported format: '' @ ef_format st @ nl @ banner EFFECTS_PARSER))
            else case ef_positionals st of
              word # _ \<Rightarrow>
                if \<not> (CHR ''/'' \<in> set word \<or> CHR ''.'' \<in> set word) \<and> \<not> exists_path h word then
                  (case spell_checker_correct (lowercase env) EFFECTS_VERBS word of
                     nearest # _ \<Rightarrow>
                       Return (usage_error (''rigor: unknown effects subcommand: '' @ word @ nl
                         @ ''Did you mean `rigor effects '' @ nearest @ ''`?''))
                   | [] \<Rightarrow> Go st)
                else Go st
            | [] \<Rightarrow> Go st)))"

section \<open>\<open>coverage\<close>\<close>

record CoverageOptions =
  cv_format :: string
  cv_threshold :: "f64 option"
  cv_config :: "string option"
  cv_workers :: "nat option"
  cv_protection :: bool
  cv_mutation :: bool
  cv_with_tests :: bool
  cv_include_dynamic :: bool
  cv_positionals :: "string list"

definition coverage_init :: CoverageOptions where
  "coverage_init = \<lparr> cv_format = ''text'', cv_threshold = None, cv_config = None, cv_workers = None,
     cv_protection = False, cv_mutation = False, cv_with_tests = False, cv_include_dynamic = False,
     cv_positionals = [] \<rparr>"

fun coverage_step :: "Host \<Rightarrow> CoverageOptions \<Rightarrow> Item \<Rightarrow> CoverageOptions Flow" where
  "coverage_step h st (Positional p) = Go (st\<lparr>cv_positionals := cv_positionals st @ [p]\<rparr>)"
| "coverage_step h st (Opt k neg v) =
     (if k = ''format'' then unwrap v (\<lambda>x. Go (st\<lparr>cv_format := as_str x\<rparr>))
      else if k = ''config'' then config_arm h v (\<lambda>path. Go (st\<lparr>cv_config := Some path\<rparr>))
      else if k = ''protection'' then Go (st\<lparr>cv_protection := True\<rparr>)
      else if k = ''mutation'' then Go (st\<lparr>cv_mutation := True\<rparr>)
      else if k = ''with-tests'' then Go (st\<lparr>cv_with_tests := True\<rparr>)
      else if k = ''include-dynamic'' then Go (st\<lparr>cv_include_dynamic := True\<rparr>)
      else if k \<in> set [''test-command'', ''limit'', ''seed'', ''no-cache''] then Go st
      else if k = ''workers'' then
        (let n = (case v of Some x \<Rightarrow> sint (as_int x) | None \<Rightarrow> 0)
         in Go (st\<lparr>cv_workers := if n > 0 then Some (nat n) else None\<rparr>))
      else if k = ''threshold'' then Go (st\<lparr>cv_threshold := map_option as_float v\<rparr>)
      else Panic)"

definition coverage_misuse :: "string \<Rightarrow> exit" where
  "coverage_misuse msg = usage_error (''coverage: '' @ msg @ nl @ banner COVERAGE_PARSER)"

definition coverage_settle :: "CoverageOptions \<Rightarrow> CoverageOptions Flow" where
  "coverage_settle st =
     (if cv_mutation st \<and> \<not> cv_protection st then Return (coverage_misuse ''--mutation requires --protection'')
      else if cv_with_tests st \<and> \<not> cv_mutation st
      then Return (coverage_misuse ''--with-tests requires --mutation (and --protection)'')
      else if cv_include_dynamic st \<and> \<not> cv_with_tests st
      then Return (coverage_misuse ''--include-dynamic requires --with-tests (a Dynamic site's only protection is a test)'')
      else if cv_mutation st then
        Return ('''', ''coverage: --mutation (type-protection / mutation coverage) is not yet implemented in this port'' @ nl, 2)
      else Go st)"

definition coverage_options :: "Env \<Rightarrow> Host \<Rightarrow> bool \<Rightarrow> string list \<Rightarrow> CoverageOptions Flow" where
  "coverage_options env h posix argv =
     then_do (parse_items env posix COVERAGE_PARSER argv) (\<lambda>items.
       then_do (fold_items (coverage_step h) items coverage_init) coverage_settle)"

section \<open>\<open>sig-gen\<close>\<close>

record SigGenOptions =
  sg_format :: string
  sg_params :: string
  sg_include_private :: bool
  sg_mode :: string
  sg_overwrite :: bool
  sg_config :: "string option"
  sg_positionals :: "string list"
  sg_deferred :: "string option"

definition sig_gen_init :: SigGenOptions where
  "sig_gen_init = \<lparr> sg_format = ''text'', sg_params = ''untyped'', sg_include_private = False,
     sg_mode = ''print'', sg_overwrite = False, sg_config = None, sg_positionals = [], sg_deferred = None \<rparr>"

fun sig_gen_step :: "Host \<Rightarrow> SigGenOptions \<Rightarrow> Item \<Rightarrow> SigGenOptions Flow" where
  "sig_gen_step h st (Positional p) = Go (st\<lparr>sg_positionals := sg_positionals st @ [p]\<rparr>)"
| "sig_gen_step h st (Opt k neg v) =
     (if k = ''print'' then Go (st\<lparr>sg_mode := ''print''\<rparr>)
      else if k = ''diff'' then Go (st\<lparr>sg_mode := ''diff''\<rparr>)
      else if k = ''write'' then Go (st\<lparr>sg_mode := ''write''\<rparr>)
      else if k = ''overwrite'' then Go (st\<lparr>sg_overwrite := True\<rparr>)
      else if k = ''include-private'' then Go (st\<lparr>sg_include_private := True\<rparr>)
      else if k = ''no-cache'' then Go st
      else if k = ''format'' then unwrap v (\<lambda>x. Go (st\<lparr>sg_format := as_str x\<rparr>))
      else if k = ''params'' then unwrap v (\<lambda>x. Go (st\<lparr>sg_params := as_str x\<rparr>))
      else if k \<in> set [''observe'', ''check'', ''effect-envelopes'', ''new-files'', ''new-methods'', ''tighter-returns'']
      then Go (st\<lparr>sg_deferred := first_flag (''--'' @ k) (sg_deferred st)\<rparr>)
      else if k = ''config'' then config_arm h v (\<lambda>path. Go (st\<lparr>sg_config := Some path\<rparr>))
      else Panic)"

definition sig_gen_settle :: "SigGenOptions \<Rightarrow> SigGenOptions Flow" where
  "sig_gen_settle st =
     (if \<not> format_ok (sg_format st) then Return (usage_error (''sig-gen: unsupported --format='' @ sg_format st))
      else if sg_params st \<notin> set [''untyped'', ''observed'', ''observed-strict'']
      then Return (usage_error (''sig-gen: unsupported --params='' @ sg_params st))
      else if sg_params st = ''observed-strict''
      then Return (usage_error ''sig-gen: --params=observed-strict is reserved until the capability-role catalog ships'')
      else
        let deferred = (if sg_params st = ''observed'' then first_flag ''--params=observed'' (sg_deferred st)
                        else sg_deferred st)
        in case deferred of
          Some flag \<Rightarrow> Return ('''', ''sig-gen: `'' @ flag @ ''` is not yet implemented in this slice'' @ nl, 2)
        | None \<Rightarrow> Go st)"

definition sig_gen_options :: "Env \<Rightarrow> Host \<Rightarrow> bool \<Rightarrow> string list \<Rightarrow> SigGenOptions Flow" where
  "sig_gen_options env h posix argv =
     then_do (parse_items env posix SIG_GEN_PARSER argv) (\<lambda>items.
       then_do (fold_items (sig_gen_step h) items sig_gen_init) sig_gen_settle)"

section \<open>\<open>baseline\<close>\<close>

definition DEFAULT_BASELINE_PATH :: string where
  "DEFAULT_BASELINE_PATH = ''.rigor-baseline.yml''"

definition baseline_positional_error :: "Host \<Rightarrow> string \<Rightarrow> string list \<Rightarrow> exit" where
  "baseline_positional_error h subcommand args =
     (let hint = (if subcommand = ''dump'' then
            ''dump reads the baseline file, so pass none: use --file=GLOB to filter rows or --baseline=PATH to pick a file''
          else if subcommand = ''drift'' \<or> subcommand = ''prune''
          then subcommand @ '' audits the configured `paths:`, so pass none''
          else ''the baseline is generated from the configured `paths:`, so pass none'')
      in usage_error (''rigor baseline '' @ subcommand @ '': unexpected argument(s) ''
        @ join_str '' '' (map (debug_str h) args) @ ''; '' @ hint))"

record BaselineOptions =
  bl_files :: "string list"
  bl_path :: string
  bl_mode :: MatchMode
  bl_force :: bool
  bl_config :: "string option"
  bl_format :: string
  bl_rule :: "string option"
  bl_file :: "string option"
  bl_only :: "DriftStatus option"
  bl_dry_run :: bool

definition baseline_init :: BaselineOptions where
  "baseline_init = \<lparr> bl_files = [], bl_path = DEFAULT_BASELINE_PATH, bl_mode = MatchRule,
     bl_force = False, bl_config = None, bl_format = ''text'', bl_rule = None, bl_file = None,
     bl_only = None, bl_dry_run = False \<rparr>"

definition match_mode_of :: "string \<Rightarrow> MatchMode" where
  "match_mode_of s = (if s = ''message'' then MatchMessage else MatchRule)"

fun generate_step :: "Host \<Rightarrow> BaselineOptions \<Rightarrow> Item \<Rightarrow> BaselineOptions Flow" where
  "generate_step h st (Positional p) = Go (st\<lparr>bl_files := bl_files st @ [p]\<rparr>)"
| "generate_step h st (Opt k neg v) =
     (if k = ''config'' then config_arm h v (\<lambda>path. Go (st\<lparr>bl_config := Some path\<rparr>))
      else if k = ''output'' then unwrap v (\<lambda>x. Go (st\<lparr>bl_path := as_str x\<rparr>))
      else if k = ''match-mode'' then unwrap v (\<lambda>x. Go (st\<lparr>bl_mode := match_mode_of (as_str x)\<rparr>))
      else if k = ''force'' then Go (st\<lparr>bl_force := True\<rparr>)
      else Panic)"

fun regenerate_step :: "Host \<Rightarrow> BaselineOptions \<Rightarrow> Item \<Rightarrow> BaselineOptions Flow" where
  "regenerate_step h st (Positional p) = Go (st\<lparr>bl_files := bl_files st @ [p]\<rparr>)"
| "regenerate_step h st (Opt k neg v) =
     (if k = ''config'' then config_arm h v (\<lambda>path. Go (st\<lparr>bl_config := Some path\<rparr>))
      else if k = ''output'' then unwrap v (\<lambda>x. Go (st\<lparr>bl_path := as_str x\<rparr>))
      else if k = ''match-mode'' then unwrap v (\<lambda>x. Go (st\<lparr>bl_mode := match_mode_of (as_str x)\<rparr>))
      else Panic)"

fun dump_step :: "BaselineOptions \<Rightarrow> Item \<Rightarrow> BaselineOptions Flow" where
  "dump_step st (Positional p) = Go (st\<lparr>bl_files := bl_files st @ [p]\<rparr>)"
| "dump_step st (Opt k neg v) =
     (if k = ''baseline'' then unwrap v (\<lambda>x. Go (st\<lparr>bl_path := as_str x\<rparr>))
      else if k = ''format'' then unwrap v (\<lambda>x. Go (st\<lparr>bl_format := as_str x\<rparr>))
      else if k = ''rule'' then unwrap v (\<lambda>x. Go (st\<lparr>bl_rule := Some (as_str x)\<rparr>))
      else if k = ''file'' then unwrap v (\<lambda>x. Go (st\<lparr>bl_file := Some (as_str x)\<rparr>))
      else Panic)"

definition drift_status_of :: "string \<Rightarrow> DriftStatus option" where
  "drift_status_of s =
     (if s = ''within'' then Some Within else if s = ''over'' then Some Over
      else if s = ''cleared'' then Some Cleared else if s = ''reducible'' then Some Reducible else None)"

fun drift_step :: "Host \<Rightarrow> BaselineOptions \<Rightarrow> Item \<Rightarrow> BaselineOptions Flow" where
  "drift_step h st (Positional p) = Go (st\<lparr>bl_files := bl_files st @ [p]\<rparr>)"
| "drift_step h st (Opt k neg v) =
     (if k = ''config'' then config_arm h v (\<lambda>path. Go (st\<lparr>bl_config := Some path\<rparr>))
      else if k = ''baseline'' then unwrap v (\<lambda>x. Go (st\<lparr>bl_path := as_str x\<rparr>))
      else if k = ''only'' then unwrap v (\<lambda>x. case drift_status_of (as_str x) of
          Some s \<Rightarrow> Go (st\<lparr>bl_only := Some s\<rparr>) | None \<Rightarrow> Panic)
      else Panic)"

fun prune_step :: "Host \<Rightarrow> BaselineOptions \<Rightarrow> Item \<Rightarrow> BaselineOptions Flow" where
  "prune_step h st (Positional p) = Go (st\<lparr>bl_files := bl_files st @ [p]\<rparr>)"
| "prune_step h st (Opt k neg v) =
     (if k = ''config'' then config_arm h v (\<lambda>path. Go (st\<lparr>bl_config := Some path\<rparr>))
      else if k = ''baseline'' then unwrap v (\<lambda>x. Go (st\<lparr>bl_path := as_str x\<rparr>))
      else if k = ''dry-run'' then Go (st\<lparr>bl_dry_run := True\<rparr>)
      else Panic)"

definition no_positionals :: "Host \<Rightarrow> string \<Rightarrow> BaselineOptions \<Rightarrow> BaselineOptions Flow" where
  "no_positionals h subcommand st =
     (if bl_files st \<noteq> [] then Return (baseline_positional_error h subcommand (bl_files st)) else Go st)"

definition generate_options :: "Env \<Rightarrow> Host \<Rightarrow> bool \<Rightarrow> string list \<Rightarrow> BaselineOptions Flow" where
  "generate_options env h posix argv =
     then_do (parse_items env posix BASELINE_GENERATE_PARSER argv) (\<lambda>items.
       then_do (fold_items (generate_step h) items baseline_init) (\<lambda>st.
         then_do (no_positionals h ''generate'' st) (\<lambda>st.
           if exists_path h (bl_path st) \<and> \<not> bl_force st
           then Return (usage_error (''rigor: '' @ bl_path st
             @ '' already exists. Re-run with --force to overwrite, or use `rigor baseline regenerate`.''))
           else Go st)))"

definition regenerate_options :: "Env \<Rightarrow> Host \<Rightarrow> bool \<Rightarrow> string list \<Rightarrow> BaselineOptions Flow" where
  "regenerate_options env h posix argv =
     then_do (parse_items env posix BASELINE_REGENERATE_PARSER argv) (\<lambda>items.
       then_do (fold_items (regenerate_step h) items baseline_init) (no_positionals h ''regenerate''))"

definition dump_options :: "Env \<Rightarrow> Host \<Rightarrow> bool \<Rightarrow> string list \<Rightarrow> BaselineOptions Flow" where
  "dump_options env h posix argv =
     then_do (parse_items env posix BASELINE_DUMP_PARSER argv) (\<lambda>items.
       then_do (fold_items dump_step items baseline_init) (no_positionals h ''dump''))"

definition drift_options :: "Env \<Rightarrow> Host \<Rightarrow> bool \<Rightarrow> string list \<Rightarrow> BaselineOptions Flow" where
  "drift_options env h posix argv =
     then_do (parse_items env posix BASELINE_DRIFT_PARSER argv) (\<lambda>items.
       then_do (fold_items (drift_step h) items baseline_init) (no_positionals h ''drift''))"

definition prune_options :: "Env \<Rightarrow> Host \<Rightarrow> bool \<Rightarrow> string list \<Rightarrow> BaselineOptions Flow" where
  "prune_options env h posix argv =
     then_do (parse_items env posix BASELINE_PRUNE_PARSER argv) (\<lambda>items.
       then_do (fold_items (prune_step h) items baseline_init) (no_positionals h ''prune''))"

end
