(* ===== verification/Command_Laws.thy ===== *)
theory Command_Laws
  imports Command_Folds2 Optparse_Laws
begin

text \<open>
  The contract between the parser and a command: a parser hands over items that fit its table, a
  command takes every such item without a panic and keeps what it claims of its options. The
  contract is a locale over the table, the step of the fold and the claim; every command is an
  interpretation, so what the locale says of a whole run holds of each of them.
\<close>

section \<open>The contract\<close>

lemma parse_items_ok:
  "parse_items env posix p argv \<noteq> Panic"
  "parse_items env posix p argv = Go items \<Longrightarrow> \<forall>it \<in> set items. item_ok p it"
proof -
  obtain out where out: "parse_mode env p argv posix = Some out"
    "\<And>its. out = Items its \<Longrightarrow> \<forall>it \<in> set its. item_ok p it"
    using parse_loop_items[of "[]" p env posix argv "[]"] unfolding parse_mode_def by fastforce
  show "parse_items env posix p argv \<noteq> Panic"
    using out(1) by (cases out) (simp_all add: parse_items_def)
  show "\<forall>it \<in> set items. item_ok p it" if "parse_items env posix p argv = Go items"
    using that out by (cases out) (auto simp: parse_items_def)
qed

lemma parse_items_usage_ok:
  "parse_items_usage env posix p usage argv \<noteq> Panic"
  "parse_items_usage env posix p usage argv = Go items \<Longrightarrow> \<forall>it \<in> set items. item_ok p it"
proof -
  obtain out where out: "parse_mode env p argv posix = Some out"
    "\<And>its. out = Items its \<Longrightarrow> \<forall>it \<in> set its. item_ok p it"
    using parse_loop_items[of "[]" p env posix argv "[]"] unfolding parse_mode_def by fastforce
  show "parse_items_usage env posix p usage argv \<noteq> Panic"
    using out(1) by (cases out) (simp_all add: parse_items_usage_def)
  show "\<forall>it \<in> set items. item_ok p it" if "parse_items_usage env posix p usage argv = Go items"
    using that out by (cases out) (auto simp: parse_items_usage_def)
qed

locale command =
  fixes p :: OptParser and step :: "'s \<Rightarrow> Item \<Rightarrow> 's Flow" and claim :: "'s \<Rightarrow> bool"
  assumes safe: "item_ok p it \<Longrightarrow> step st it \<noteq> Panic"
    and keeps: "item_ok p it \<Longrightarrow> claim st \<Longrightarrow> step st it = Go st' \<Longrightarrow> claim st'"
begin

lemma fold_safe: "\<forall>it \<in> set items. item_ok p it \<Longrightarrow> fold_items step items st \<noteq> Panic"
  by (induction items arbitrary: st) (auto dest: safe split: Flow.splits)

lemma fold_keeps:
  "\<forall>it \<in> set items. item_ok p it \<Longrightarrow> claim st \<Longrightarrow> fold_items step items st = Go st' \<Longrightarrow> claim st'"
  by (induction items arbitrary: st) (auto dest: keeps split: Flow.splits)

lemma run_safe:
  assumes "\<And>st. claim st \<Longrightarrow> rest st \<noteq> Panic" "claim st"
  shows "then_do (parse_items env posix p argv) (\<lambda>items. then_do (fold_items step items st) rest) \<noteq> Panic"
proof (cases "parse_items env posix p argv")
  case (Go items)
  note ok = parse_items_ok(2)[OF Go]
  show ?thesis using Go fold_safe[OF ok, of st] fold_keeps[OF ok assms(2)] assms(1)
    by (cases "fold_items step items st") auto
qed (use parse_items_ok(1) in auto)

lemma run_usage_safe:
  assumes "\<And>st. claim st \<Longrightarrow> rest st \<noteq> Panic" "claim st"
  shows "then_do (parse_items_usage env posix p usage argv)
    (\<lambda>items. then_do (fold_items step items st) rest) \<noteq> Panic"
proof (cases "parse_items_usage env posix p usage argv")
  case (Go items)
  note ok = parse_items_usage_ok(2)[OF Go]
  show ?thesis using Go fold_safe[OF ok, of st] fold_keeps[OF ok assms(2)] assms(1)
    by (cases "fold_items step items st") auto
qed (use parse_items_usage_ok(1) in auto)

lemma run_claim:
  assumes "then_do (parse_items env posix p argv) (\<lambda>items. then_do (fold_items step items st) rest) = Go r"
    and "claim st"
  obtains st' where "claim st'" "rest st' = Go r"
proof (cases "parse_items env posix p argv")
  case (Go items)
  note ok = parse_items_ok(2)[OF Go]
  from assms(1) Go obtain st' where "fold_items step items st = Go st'" "rest st' = Go r"
    by (cases "fold_items step items st") auto
  with fold_keeps[OF ok assms(2)] that show ?thesis by blast
qed (use assms in auto)

end

section \<open>Signatures of the tables\<close>

definition signature :: "OptParser \<Rightarrow> (string \<times> ArgStyle \<times> ValueKind) list" where
  "signature p = map (\<lambda>sw. (sw_key sw, sw_style sw, sw_kind sw)) (switches p)"

fun value_fits :: "ArgStyle \<Rightarrow> ValueKind \<Rightarrow> Value option \<Rightarrow> bool" where
  "value_fits Flag kd v = (v = None)"
| "value_fits Required kd v = (\<exists>x. v = Some x \<and> value_of_kind kd x)"
| "value_fits Optional kd v = (\<forall>x. v = Some x \<longrightarrow> value_of_kind kd x)"

definition entry_fits :: "(string \<times> ArgStyle \<times> ValueKind) list \<Rightarrow> string \<Rightarrow> Value option \<Rightarrow> bool" where
  "entry_fits es k v = list_ex (\<lambda>(k', s, kd). k' = k \<and> value_fits s kd v) es"

lemma entry_fits_simps [simp]:
  "entry_fits [] k v = False"
  "entry_fits ((k', s, kd) # es) k v = (k' = k \<and> value_fits s kd v \<or> entry_fits es k v)"
  by (simp_all add: entry_fits_def)

lemma item_ok_signature: "item_ok p (Opt k neg v) \<Longrightarrow> entry_fits (signature p) k v"
proof -
  assume "item_ok p (Opt k neg v)"
  then obtain sw where sw: "sw \<in> set (switches p)" "sw_key sw = k" "fits_switch neg v sw" by auto
  then have "value_fits (sw_style sw) (sw_kind sw) v"
    by (cases "sw_style sw") (auto simp: fits_switch_def)
  with sw show ?thesis by (force simp: entry_fits_def list_ex_iff signature_def)
qed

lemma HELP_signature:
  "signature HELP_PARSER = [(''format'', Required, Exact [''text'', ''json''])]"
  by (simp add: signature_def HELP_PARSER_def switch_new_def switch_hidden_def)

lemma CHECK_signature:
  "signature CHECK_PARSER = [(''config'', Required, Raw), (''format'', Required, Exact [''text'', ''json'', ''sarif'', ''github'', ''gitlab'', ''checkstyle'', ''junit'', ''teamcity'']), (''explain'', Flag, Raw),
     (''cache-stats'', Flag, Raw), (''coverage'', Flag, Raw), (''clear-cache'', Flag, Raw),
     (''no-cache'', Flag, Raw), (''stats'', Flag, Raw), (''workers'', Required, IntKind),
     (''tmp-file'', Required, Raw), (''instead-of'', Required, Raw), (''baseline'', Required, Raw),
     (''no-baseline'', Flag, Raw), (''baseline-strict'', Flag, Raw), (''fail-on'', Required, Raw),
     (''treat-all-as-inline-rbs'', Flag, Raw), (''verify-incremental'', Flag, Raw), (''verify-incremental-edits'', Required, IntKind),
     (''incremental'', Flag, Raw), (''no-ci-detect'', Flag, Raw), (''bleeding-edge'', Optional, Raw),
     (''no-bleeding-edge'', Flag, Raw), (''no-tolerated-effects'', Flag, Raw), (''ruby'', Required, Raw),
     (''no-ruby'', Flag, Raw)]"
  by (simp add: signature_def CHECK_PARSER_def switch_new_def switch_hidden_def)

lemma TRACE_signature:
  "signature TRACE_PARSER = [(''format'', Required, Exact [''text'', ''json'']), (''delay'', Required, FloatKind), (''line'', Required, IntKind),
     (''verbose'', Flag, Raw), (''config'', Required, Raw)]"
  by (simp add: signature_def TRACE_PARSER_def switch_new_def switch_hidden_def)

lemma TYPE_SCAN_signature:
  "signature TYPE_SCAN_PARSER = [(''format'', Required, Exact [''text'', ''json'']), (''config'', Required, Raw), (''limit'', Required, IntKind),
     (''show-recognized'', Flag, Raw), (''threshold'', Required, FloatKind)]"
  by (simp add: signature_def TYPE_SCAN_PARSER_def switch_new_def switch_hidden_def)

lemma UNUSED_signature:
  "signature UNUSED_PARSER = [(''config'', Required, Raw), (''format'', Required, Exact [''text'', ''json'']), (''entry-point'', Required, Raw),
     (''limit'', Required, IntKind), (''incremental'', Flag, Raw)]"
  by (simp add: signature_def UNUSED_PARSER_def switch_new_def switch_hidden_def)

lemma PLUGIN_signature:
  "signature PLUGIN_PARSER = [(''path'', Required, Raw), (''list'', Flag, Raw), (''root'', Flag, Raw)]"
  by (simp add: signature_def PLUGIN_PARSER_def switch_new_def switch_hidden_def)

lemma BASELINE_GENERATE_signature:
  "signature BASELINE_GENERATE_PARSER = [(''config'', Required, Raw), (''output'', Required, Raw), (''match-mode'', Required, Choice [''rule'', ''message'']),
     (''force'', Flag, Raw)]"
  by (simp add: signature_def BASELINE_GENERATE_PARSER_def switch_new_def switch_hidden_def)

lemma BASELINE_REGENERATE_signature:
  "signature BASELINE_REGENERATE_PARSER = [(''config'', Required, Raw), (''output'', Required, Raw), (''match-mode'', Required, Choice [''rule'', ''message''])]"
  by (simp add: signature_def BASELINE_REGENERATE_PARSER_def switch_new_def switch_hidden_def)

lemma BASELINE_DUMP_signature:
  "signature BASELINE_DUMP_PARSER = [(''baseline'', Required, Raw), (''format'', Required, Exact [''text'', ''json'']), (''rule'', Required, Raw),
     (''file'', Required, Raw)]"
  by (simp add: signature_def BASELINE_DUMP_PARSER_def switch_new_def switch_hidden_def)

lemma BASELINE_DRIFT_signature:
  "signature BASELINE_DRIFT_PARSER = [(''config'', Required, Raw), (''baseline'', Required, Raw), (''only'', Required, Choice [''within'', ''over'', ''cleared'', ''reducible''])]"
  by (simp add: signature_def BASELINE_DRIFT_PARSER_def switch_new_def switch_hidden_def)

lemma BASELINE_PRUNE_signature:
  "signature BASELINE_PRUNE_PARSER = [(''config'', Required, Raw), (''baseline'', Required, Raw), (''dry-run'', Flag, Raw)]"
  by (simp add: signature_def BASELINE_PRUNE_PARSER_def switch_new_def switch_hidden_def)

lemma DIFF_signature:
  "signature DIFF_PARSER = [(''format'', Required, Exact [''text'', ''json'']), (''current'', Required, Raw), (''config'', Required, Raw)]"
  by (simp add: signature_def DIFF_PARSER_def switch_new_def switch_hidden_def)

lemma TRIAGE_signature:
  "signature TRIAGE_PARSER = [(''config'', Required, Raw), (''format'', Required, Exact [''text'', ''json'']), (''top'', Required, IntKind),
     (''include-info'', Flag, Raw), (''hints-only'', Flag, Raw), (''no-hints'', Flag, Raw),
     (''selectors-only'', Flag, Raw)]"
  by (simp add: signature_def TRIAGE_PARSER_def switch_new_def switch_hidden_def)

lemma ANNOTATE_signature:
  "signature ANNOTATE_PARSER = [(''config'', Required, Raw), (''format'', Required, Exact [''text'', ''json'']), (''color'', Flag, Raw),
     (''bat'', Flag, Raw)]"
  by (simp add: signature_def ANNOTATE_PARSER_def switch_new_def switch_hidden_def)

lemma BLEEDING_EDGE_signature:
  "signature BLEEDING_EDGE_PARSER = [(''format'', Required, Exact [''text'', ''json'']), (''config'', Required, Raw)]"
  by (simp add: signature_def BLEEDING_EDGE_PARSER_def switch_new_def switch_hidden_def)

lemma DOCTOR_signature:
  "signature DOCTOR_PARSER = [(''config'', Required, Raw), (''format'', Required, Exact [''text'', ''json''])]"
  by (simp add: signature_def DOCTOR_PARSER_def switch_new_def switch_hidden_def)

lemma EXPLAIN_signature:
  "signature EXPLAIN_PARSER = [(''format'', Required, Exact [''text'', ''json''])]"
  by (simp add: signature_def EXPLAIN_PARSER_def switch_new_def switch_hidden_def)

lemma INIT_signature:
  "signature INIT_PARSER = [(''force'', Flag, Raw), (''path'', Required, Raw), (''no-plugins'', Flag, Raw)]"
  by (simp add: signature_def INIT_PARSER_def switch_new_def switch_hidden_def)

lemma PLUGINS_signature:
  "signature PLUGINS_PARSER = [(''config'', Required, Raw), (''format'', Required, Exact [''text'', ''json'']), (''strict'', Flag, Raw),
     (''capabilities'', Flag, Raw)]"
  by (simp add: signature_def PLUGINS_PARSER_def switch_new_def switch_hidden_def)

lemma TYPE_OF_signature:
  "signature TYPE_OF_PARSER = [(''format'', Required, Exact [''text'', ''json'']), (''trace'', Flag, Raw), (''config'', Required, Raw),
     (''tmp-file'', Required, Raw), (''instead-of'', Required, Raw)]"
  by (simp add: signature_def TYPE_OF_PARSER_def switch_new_def switch_hidden_def)

lemma EFFECTS_signature:
  "signature EFFECTS_PARSER = [(''config'', Required, Raw), (''format'', Required, Exact [''text'', ''json'']), (''full'', Flag, Raw),
     (''label'', Required, Raw), (''pure'', Flag, Raw), (''limit'', Required, IntKind),
     (''why'', Flag, Raw), (''list-labels'', Flag, Raw), (''no-tolerated-effects'', Flag, Raw)]"
  by (simp add: signature_def EFFECTS_PARSER_def switch_new_def switch_hidden_def)

lemma COVERAGE_signature:
  "signature COVERAGE_PARSER = [(''format'', Required, Exact [''text'', ''json'']), (''config'', Required, Raw), (''protection'', Flag, Raw),
     (''mutation'', Flag, Raw), (''with-tests'', Flag, Raw), (''test-command'', Required, Raw),
     (''include-dynamic'', Flag, Raw), (''limit'', Required, IntKind), (''seed'', Required, IntKind),
     (''no-cache'', Flag, Raw), (''workers'', Required, IntKind), (''threshold'', Required, FloatKind)]"
  by (simp add: signature_def COVERAGE_PARSER_def switch_new_def switch_hidden_def)

lemma SIG_GEN_signature:
  "signature SIG_GEN_PARSER = [(''print'', Flag, Raw), (''diff'', Flag, Raw), (''write'', Flag, Raw),
     (''check'', Flag, Raw), (''overwrite'', Flag, Raw), (''include-private'', Flag, Raw),
     (''effect-envelopes'', Flag, Raw), (''no-cache'', Flag, Raw), (''format'', Required, Exact [''text'', ''json'']),
     (''params'', Required, Raw), (''observe'', Required, Raw), (''new-files'', Flag, Raw),
     (''new-methods'', Flag, Raw), (''tighter-returns'', Flag, Raw), (''config'', Required, Raw)]"
  by (simp add: signature_def SIG_GEN_PARSER_def switch_new_def switch_hidden_def)

lemma LSP_signature:
  "signature LSP_PARSER = [(''transport'', Required, Raw), (''log'', Required, Raw), (''config'', Required, Raw)]"
  by (simp add: signature_def LSP_PARSER_def switch_new_def switch_hidden_def)

lemma MCP_signature:
  "signature MCP_PARSER = [(''transport'', Required, Raw), (''config'', Required, Raw)]"
  by (simp add: signature_def MCP_PARSER_def switch_new_def switch_hidden_def)


lemmas command_simps = unwrap_def config_arm_def format_ok_def

text \<open>What an item can be, for a table with a known signature.\<close>

lemma item_cases:
  assumes "item_ok p it" "signature p = es"
  obtains (positional) s where "it = Positional s" | (option_) k neg v where "it = Opt k neg v" "entry_fits es k v"
proof (cases it)
  case (Opt k neg v)
  with assms item_ok_signature[of p k neg v] show ?thesis by (simp only: option_)
qed (rule positional)

end
