(* ===== verification/Command_Contracts.thy ===== *)
theory Command_Contracts
  imports Command_Laws
begin

text \<open>
  Every command is an interpretation of the contract of \<open>Command_Laws\<close>: its fold takes all the
  items its own table lets through, and keeps the format within the list the table names.
\<close>

lemma then_do_Go_iff: "then_do m f = Go y \<longleftrightarrow> (\<exists>x. m = Go x \<and> f x = Go y)"
  by (cases m) auto

lemma then_do_Panic_iff: "then_do m f = Panic \<longleftrightarrow> m = Panic \<or> (\<exists>x. m = Go x \<and> f x = Panic)"
  by (cases m) auto

definition CHECK_FORMATS :: "string list" where
  "CHECK_FORMATS = [''text'', ''json'', ''sarif'', ''github'', ''gitlab'', ''checkstyle'', ''junit'', ''teamcity'']"

definition check_claim :: "CheckOptions \<Rightarrow> bool" where
  "check_claim st = (ck_format st \<in> set CHECK_FORMATS
     \<and> (\<forall>f. ck_unsupported st = Some f \<longrightarrow> f \<in> set CHECK_UNSUPPORTED))"

interpretation checks: command CHECK_PARSER "check_step env h" "check_claim" for env h
  by unfold_locales
    (erule item_cases[OF _ CHECK_signature], force simp: check_claim_def, simp only: entry_fits_simps simp_thms,
      elim disjE conjE; hypsubst; fastforce simp: command_simps check_claim_def CHECK_FORMATS_def CHECK_UNSUPPORTED_def split: sum.splits option.splits Value.splits if_splits)+

interpretation diffing: command DIFF_PARSER "diff_step h" "\<lambda>st. format_ok (df_format st)" for h
  by unfold_locales
    (erule item_cases[OF _ DIFF_signature], force, simp only: entry_fits_simps simp_thms,
      elim disjE conjE; hypsubst; fastforce simp: command_simps split: sum.splits)+

interpretation triaging: command TRIAGE_PARSER "triage_step h" "\<lambda>st. format_ok (tr_format st)" for h
  by unfold_locales
    (erule item_cases[OF _ TRIAGE_signature], force, simp only: entry_fits_simps simp_thms,
      elim disjE conjE; hypsubst; fastforce simp: command_simps split: sum.splits)+

interpretation annotating: command ANNOTATE_PARSER "annotate_step h" "\<lambda>st. format_ok (rp_format st)" for h
  by unfold_locales
    (erule item_cases[OF _ ANNOTATE_signature], force, simp only: entry_fits_simps simp_thms,
      elim disjE conjE; hypsubst; fastforce simp: command_simps split: sum.splits)+

interpretation bleeding: command BLEEDING_EDGE_PARSER "bleeding_edge_step h" "\<lambda>st. format_ok (rp_format st)" for h
  by unfold_locales
    (erule item_cases[OF _ BLEEDING_EDGE_signature], force, simp only: entry_fits_simps simp_thms,
      elim disjE conjE; hypsubst; fastforce simp: command_simps split: sum.splits)+

interpretation diagnosing: command DOCTOR_PARSER "doctor_step h" "\<lambda>st. format_ok (rp_format st)" for h
  by unfold_locales
    (erule item_cases[OF _ DOCTOR_signature], force, simp only: entry_fits_simps simp_thms,
      elim disjE conjE; hypsubst; fastforce simp: command_simps split: sum.splits)+

interpretation plugging: command PLUGINS_PARSER "plugins_step h" "\<lambda>st. format_ok (rp_format st)" for h
  by unfold_locales
    (erule item_cases[OF _ PLUGINS_signature], force, simp only: entry_fits_simps simp_thms,
      elim disjE conjE; hypsubst; fastforce simp: command_simps split: sum.splits)+

interpretation explaining: command EXPLAIN_PARSER "explain_step" "\<lambda>st. format_ok (rp_format st)"
  by unfold_locales
    (erule item_cases[OF _ EXPLAIN_signature], force, simp only: entry_fits_simps simp_thms,
      elim disjE conjE; hypsubst; fastforce simp: command_simps split: sum.splits)+

interpretation initialising: command INIT_PARSER "init_step" "\<lambda>_. True"
  by unfold_locales
    (erule item_cases[OF _ INIT_signature], force, simp only: entry_fits_simps simp_thms,
      elim disjE conjE; hypsubst; fastforce simp: command_simps split: sum.splits)+

interpretation serving_lsp: command LSP_PARSER "lsp_step h" "\<lambda>_. True" for h
  by unfold_locales
    (erule item_cases[OF _ LSP_signature], force, simp only: entry_fits_simps simp_thms,
      elim disjE conjE; hypsubst; fastforce simp: command_simps split: sum.splits)+

interpretation serving_mcp: command MCP_PARSER "mcp_step" "\<lambda>_. True"
  by unfold_locales
    (erule item_cases[OF _ MCP_signature], force, simp only: entry_fits_simps simp_thms,
      elim disjE conjE; hypsubst; fastforce simp: command_simps split: sum.splits)+

interpretation typing: command TYPE_OF_PARSER "type_of_step h" "\<lambda>st. format_ok (ty_format st)" for h
  by unfold_locales
    (erule item_cases[OF _ TYPE_OF_signature], force, simp only: entry_fits_simps simp_thms,
      elim disjE conjE; hypsubst; fastforce simp: command_simps split: sum.splits)+

interpretation effecting: command EFFECTS_PARSER "effects_step h" "\<lambda>st. format_ok (ef_format st)" for h
  by unfold_locales
    (erule item_cases[OF _ EFFECTS_signature], force, simp only: entry_fits_simps simp_thms,
      elim disjE conjE; hypsubst; fastforce simp: command_simps split: sum.splits)+

interpretation covering: command COVERAGE_PARSER "coverage_step h" "\<lambda>st. format_ok (cv_format st)" for h
  by unfold_locales
    (erule item_cases[OF _ COVERAGE_signature], force, simp only: entry_fits_simps simp_thms,
      elim disjE conjE; hypsubst; fastforce simp: command_simps Let_def split: sum.splits)+

interpretation generating_sigs: command SIG_GEN_PARSER "sig_gen_step h" "\<lambda>st. format_ok (sg_format st)" for h
  by unfold_locales
    (erule item_cases[OF _ SIG_GEN_signature], force, simp only: entry_fits_simps simp_thms,
      elim disjE conjE; hypsubst; fastforce simp: command_simps split: sum.splits)+

interpretation generating: command BASELINE_GENERATE_PARSER "generate_step h" "\<lambda>_. True" for h
  by unfold_locales
    (erule item_cases[OF _ BASELINE_GENERATE_signature], force, simp only: entry_fits_simps simp_thms,
      elim disjE conjE; hypsubst; fastforce simp: command_simps split: sum.splits)+

interpretation regenerating: command BASELINE_REGENERATE_PARSER "regenerate_step h" "\<lambda>_. True" for h
  by unfold_locales
    (erule item_cases[OF _ BASELINE_REGENERATE_signature], force, simp only: entry_fits_simps simp_thms,
      elim disjE conjE; hypsubst; fastforce simp: command_simps split: sum.splits)+

interpretation dumping: command BASELINE_DUMP_PARSER "dump_step" "\<lambda>st. format_ok (bl_format st)"
  by unfold_locales
    (erule item_cases[OF _ BASELINE_DUMP_signature], force, simp only: entry_fits_simps simp_thms,
      elim disjE conjE; hypsubst; fastforce simp: command_simps split: sum.splits)+

interpretation drifting: command BASELINE_DRIFT_PARSER "drift_step h" "\<lambda>_. True" for h
  by unfold_locales
    (erule item_cases[OF _ BASELINE_DRIFT_signature], force, simp only: entry_fits_simps simp_thms,
      elim disjE conjE; hypsubst; fastforce simp: command_simps drift_status_of_def split: sum.splits)+

interpretation pruning: command BASELINE_PRUNE_PARSER "prune_step h" "\<lambda>_. True" for h
  by unfold_locales
    (erule item_cases[OF _ BASELINE_PRUNE_signature], force, simp only: entry_fits_simps simp_thms,
      elim disjE conjE; hypsubst; fastforce simp: command_simps split: sum.splits)+

end
