(* ===== verification/Command_Texts.thy ===== *)
theory Command_Texts
  imports Command_Options
begin

text \<open>
  The texts and the lists of names of the commands (\<open>rigor-cli/src/main.rs\<close>), as the bytes of the
  source. A text of several lines is the list of its lines.
\<close>

definition unlines :: "string list \<Rightarrow> string" where
  "unlines ls = concat (map (\<lambda>l. l @ nl) ls)"

definition TOP_HELP :: string where
  "TOP_HELP = unlines [
     ''Usage: rigor <command> [options]'',
     '''',
     ''Commands:'',
     ''  check              Analyze Ruby source files'',
     ''  init               Create a starter .rigor.yml'',
     (''  annotate           Print FILE with each line'' @ [CHR 0x27] @ ''s last-expression type''),
     ''  type-of            Print inferred types at FILE:LINE[:COL] positions'',
     (''  lens               Map a file'' @ [CHR 0x27] @ ''s declarations with their types and provenance (experimental)''),
     ''  trace              Replay how the engine typed FILE as a terminal animation'',
     ''  type-scan          Report Scope#type_of coverage across PATHs'',
     (''  effects            Report each method'' @ [CHR 0x27] @ ''s effect labels, and the committed effect snapshot (opt-in; effects update/check/diff/explain)''),
     ''  explain            Print the description of one or all CheckRules'',
     ''  diff               Compare current diagnostics to a saved `rigor check --format=json` result'',
     ''  baseline           Manage the baseline file (baseline generate/regenerate/dump/drift/prune)'',
     ''  sig-gen            Emit RBS skeletons inferred from .rb sources'',
     ''  lsp                Run the Rigor Language Server (LSP) over stdio'',
     ''  mcp                Run the Rigor MCP server over stdio'',
     ''  triage             Summarise diagnostics: distribution, hotspots, hints'',
     ''  coverage           Report type-precision coverage (precise vs Dynamic ratio)'',
     ''  unused             Report unreferenced classes, modules and constants as removal candidates'',
     ''  plugins            Report activation status of every configured plugin'',
     ''  plugin             Browse bundled plugin source as worked examples (plugin <name>, plugin --list)'',
     ''  playground         Start the browser playground (requires rigor-playground gem)'',
     ''  describe           Recommend the next skill for this project (alias for `skill describe`)'',
     ''  skill              Recommend the next skill + list/print bundled Agent Skills (skill describe, skill <name>)'',
     ''  docs               Print the bundled docs offline (docs <name>, docs --list)'',
     ''  show-bleedingedge  Show the bleeding-edge overlay + what your config adopts'',
     ''  doctor             Classify setup problems vs clean run with routed next actions'',
     ''  upgrade            Migration command skeleton (queued)'',
     (''  help               Print this help, or a command'' @ [CHR 0x27] @ ''s help (help <command>, help --format=json)''),
     ''  version            Print the Rigor version'',
     '''',
     (''Run `rigor help <command>` (or `rigor <command> --help`) for a command'' @ [CHR 0x27] @ ''s options.''),
     ''Run `rigor describe` for the next step on this project, or `rigor help --format=json` for the full surface.'']"

definition BASELINE_HELP :: string where
  "BASELINE_HELP = unlines [
     ''Usage: rigor baseline <subcommand> [options]'',
     '''',
     ''Subcommands:'',
     ''  generate    Write a fresh baseline file from a `rigor check` run.'',
     ''  regenerate  Rewrite the baseline unconditionally (post-fix refresh).'',
     ''  dump        Print the contents of an existing baseline.'',
     ''  drift       Compare baseline vs current diagnostics (reduction / regression hints).'',
     ''  prune       Drop cleared buckets (`actual == 0`) from the baseline.'',
     '''',
     ''Run `rigor baseline <subcommand> --help` for subcommand options.'']"

definition PLUGIN_USAGE :: string where
  "PLUGIN_USAGE = unlines [
     ''Usage: rigor plugin [<name>] [--path <name>] [--list] [--root]'',
     '''',
     ''Browse the plugins bundled in the rigortype toolchain (worked'',
     ''examples for authoring your own). For the activation status of'',
     ''the plugins in your .rigor.yml, use `rigor plugins` (plural).'',
     '''',
     ''  rigor plugin                List bundled + example plugins'',
     (''  rigor plugin <name>         Print <name>'' @ [CHR 0x27] @ ''s main lib source, with a header''),
     ''  rigor plugin --path <name>  Print the absolute directory path of <name>'',
     ''  rigor plugin --list         List bundled + example plugins'',
     ''  rigor plugin --root         Print the gem root + key subdirectories'',
     '''',
     ''Examples:'',
     ''  rigor plugin'',
     ''  rigor plugin rigor-activesupport-core-ext'',
     ''  rigor plugin --path rigor-activerecord'',
     ''  rigor plugin --root'']"

definition SKILL_USAGE :: string where
  "SKILL_USAGE = unlines [
     ''Usage: rigor skill [<name>] [--full <name>] [--path <name>] [--list] [--describe]'',
     '''',
     ''With no argument, lists the bundled skills.'',
     '''',
     ''  rigor skill                List bundled skills'',
     ''  rigor skill <name>         Print the SKILL.md body for <name> (with a header)'',
     ''  rigor skill --full <name>  Print the SKILL.md body AND its references/ inline'',
     ''                             (the complete, version-current procedure in one call)'',
     ''  rigor skill --path <name>  Print the absolute path of the SKILL.md file for <name>'',
     ''  rigor skill --list         List bundled skills (name + absolute path)'',
     ''  rigor skill --describe     Report project state + recommend the next skill to run'',
     (''                             (presence-only probe '' @ [CHR 0xE2, CHR 0x80, CHR 0x94] @ '' never runs `rigor check`)''),
     ''  rigor skill describe --deep'',
     ''                             Same, but run `rigor check` first and route the'',
     ''                             recommendation on its result (slow; writes the cache)'',
     '''',
     ''Examples:'',
     ''  rigor skill'',
     ''  rigor skill rigor-project-init'',
     ''  rigor skill --full rigor-baseline-reduce'',
     ''  rigor skill --path rigor-baseline-reduce'',
     ''  rigor skill --describe        (also: rigor describe)'',
     ''  rigor skill describe --deep   (also: rigor describe --deep)'']"

definition COMMANDS :: "string list" where
  "COMMANDS = [''check'', ''annotate'', ''type-of'', ''trace'', ''type-scan'',
     ''explain'', ''diff'', ''sig-gen'', ''baseline'', ''triage'',
     ''coverage'', ''plugins'', ''plugin'', ''lsp'', ''mcp'',
     ''skill'', ''docs'', ''init'', ''doctor'', ''version'',
     ''show-bleedingedge'', ''effects'', ''unused'', ''describe'', ''playground'',
     ''upgrade'', ''lens'']"

definition CATALOGUE_NAMES :: "string list" where
  "CATALOGUE_NAMES = [''check'', ''init'', ''annotate'', ''type-of'', ''lens'',
     ''trace'', ''type-scan'', ''effects'', ''explain'', ''diff'',
     ''baseline'', ''sig-gen'', ''lsp'', ''mcp'', ''triage'',
     ''coverage'', ''unused'', ''plugins'', ''plugin'', ''playground'',
     ''describe'', ''skill'', ''docs'', ''show-bleedingedge'', ''doctor'',
     ''upgrade'', ''help'', ''version'']"

definition BUNDLED_PLUGIN_NAMES :: "string list" where
  "BUNDLED_PLUGIN_NAMES = [''rigor-ac-library-rb'', ''rigor-actioncable'', ''rigor-actionmailer'', ''rigor-actionpack'', ''rigor-active-model-serializers'',
     ''rigor-activejob'', ''rigor-activerecord'', ''rigor-activestorage'', ''rigor-activesupport-core-ext'', ''rigor-alba'',
     ''rigor-devise'', ''rigor-dry-monads'', ''rigor-dry-schema'', ''rigor-dry-struct'', ''rigor-dry-types'',
     ''rigor-dry-validation'', ''rigor-ethon'', ''rigor-factorybot'', ''rigor-ffi'', ''rigor-ffi-rzmq'',
     ''rigor-grape'', ''rigor-graphql'', ''rigor-hanami'', ''rigor-mangrove'', ''rigor-minitest'',
     ''rigor-pundit'', ''rigor-rails'', ''rigor-rails-i18n'', ''rigor-rails-routes'', ''rigor-railties'',
     ''rigor-rbnacl'', ''rigor-rbs-inline'', ''rigor-rspec'', ''rigor-rspec-rails'', ''rigor-sassc'',
     ''rigor-shoulda-matchers'', ''rigor-sidekiq'', ''rigor-sinatra'', ''rigor-sorbet'', ''rigor-statesman'',
     ''rigor-typelizer'', ''rigor-typescript-utility-types'', ''rigor-deprecations'', ''rigor-lisp-eval'', ''rigor-pattern'',
     ''rigor-routes'', ''rigor-units'', ''rigor-web'']"

definition BUNDLED_SKILL_NAMES :: "string list" where
  "BUNDLED_SKILL_NAMES = [''rigor-ask'', ''rigor-baseline-reduce'', ''rigor-ci-setup'', ''rigor-doctor'', ''rigor-editor-setup'',
     ''rigor-mcp-setup'', ''rigor-monkeypatch-resolve'', ''rigor-next-steps'', ''rigor-plugin-author'', ''rigor-plugin-review'',
     ''rigor-plugin-tune'', ''rigor-project-init'', ''rigor-protection-uplift'', ''rigor-rbs-setup'', ''rigor-type-oracle'',
     ''rigor-unused-adjudicate'', ''rigor-upgrade'']"

end
