(* ===== verification/Command_Routes.thy ===== *)
theory Command_Routes
  imports Command_Texts Command_Folds2
begin

text \<open>
  The dispatch of \<open>rigor-cli/src/main.rs\<close>: which command an argument list names, the commands that
  only print, and the re-entry of \<open>help <command>\<close>. A route is the texts printed with the exit code,
  or the function of the command that is entered with the arguments it gets. The version of the
  package comes from the build.
\<close>

datatype Route = Printed exit | Enter string "string list"

definition asks_help :: "string list \<Rightarrow> bool" where
  "asks_help args = list_ex (\<lambda>a. a = ''-h'' \<or> a = ''--help'') args"

definition not_implemented :: "string \<Rightarrow> exit" where
  "not_implemented name =
     ('''', ''rigor-rs: `'' @ name @ ''` is recognized but not yet implemented in this phase'' @ nl, 2)"

section \<open>Commands without a body\<close>

definition cmd_deferred :: "Env \<Rightarrow> bool \<Rightarrow> string \<Rightarrow> OptParser \<Rightarrow> string list \<Rightarrow> exit Flow" where
  "cmd_deferred env posix name p args =
     then_do (parse_items env posix p args) (\<lambda>items. Return (not_implemented name))"

fun names_incremental :: "Item \<Rightarrow> bool" where
  "names_incremental (Opt k neg v) = (k = ''incremental'')"
| "names_incremental (Positional s) = False"

definition cmd_unused :: "Env \<Rightarrow> bool \<Rightarrow> string list \<Rightarrow> exit Flow" where
  "cmd_unused env posix args =
     then_do (parse_items env posix UNUSED_PARSER args) (\<lambda>items.
       if list_ex names_incremental items
       then Return (usage_error (''rigor unused does not support --incremental: reachability is only sound over a ''
         @ ''whole-project run, so an incremental pass would report constants as unused merely ''
         @ ''because the files that reference them were served from cache. Re-run without --incremental.''))
       else Return (not_implemented ''unused''))"

definition strip_rigor :: "string \<Rightarrow> string" where
  "strip_rigor name = (case strip_prefix ''rigor-'' name of Some r \<Rightarrow> r | None \<Rightarrow> name)"

definition plugin_name_known :: "string \<Rightarrow> bool" where
  "plugin_name_known name = list_ex (\<lambda>p. strip_rigor p = strip_rigor name) BUNDLED_PLUGIN_NAMES"

definition plugin_named :: "string \<Rightarrow> string option \<Rightarrow> exit" where
  "plugin_named verb name =
     (case name of
        None \<Rightarrow> ('''', ''`'' @ verb @ ''` requires a plugin name'' @ nl @ PLUGIN_USAGE, 64)
      | Some n \<Rightarrow>
          if plugin_name_known n then not_implemented ''plugin''
          else ('''', ''Unknown plugin: '' @ n @ nl
            @ ''Run `rigor plugin --list` to see the bundled plugins.'' @ nl, 1))"

record PluginArgs =
  pl_path :: "string option"
  pl_list :: bool
  pl_root :: bool
  pl_names :: "string list"

fun plugin_step :: "PluginArgs \<Rightarrow> Item \<Rightarrow> PluginArgs Flow" where
  "plugin_step st (Positional p) = Go (st\<lparr>pl_names := pl_names st @ [p]\<rparr>)"
| "plugin_step st (Opt k neg v) =
     (if k = ''path'' then Go (st\<lparr>pl_path := map_option as_str v\<rparr>)
      else if k = ''list'' then Go (st\<lparr>pl_list := True\<rparr>)
      else if k = ''root'' then Go (st\<lparr>pl_root := True\<rparr>)
      else Panic)"

definition nth_opt :: "string list \<Rightarrow> nat \<Rightarrow> string option" where
  "nth_opt xs i = (if i < length xs then Some (xs ! i) else None)"

definition plugin_options :: "Env \<Rightarrow> bool \<Rightarrow> string list \<Rightarrow> exit Flow" where
  "plugin_options env posix args =
     then_do (parse_items_usage env posix PLUGIN_PARSER PLUGIN_USAGE args) (\<lambda>items.
       then_do (fold_items plugin_step items
         \<lparr>pl_path = None, pl_list = False, pl_root = False, pl_names = []\<rparr>) (\<lambda>st.
         case pl_path st of
           Some p \<Rightarrow> Return (plugin_named ''path'' (Some p))
         | None \<Rightarrow>
             if pl_root st \<or> pl_list st then Return (not_implemented ''plugin'')
             else (case nth_opt (pl_names st) 0 of
                 None \<Rightarrow> Return (not_implemented ''plugin'')
               | Some name \<Rightarrow> Return (plugin_named ''print'' (Some name)))))"

definition cmd_plugin_deferred :: "Env \<Rightarrow> bool \<Rightarrow> string list \<Rightarrow> exit Flow" where
  "cmd_plugin_deferred env posix args =
     (if asks_help args then Return (PLUGIN_USAGE, '''', 0)
      else case nth_opt args 0 of
        Some v \<Rightarrow>
          if v \<in> set [''list'', ''path'', ''print'', ''root''] then
            (let replacement = (if v = ''list'' then ''rigor plugin --list''
                   else if v = ''path'' then ''rigor plugin --path <name>''
                   else if v = ''print'' then ''rigor plugin <name>''
                   else ''rigor plugin --root'');
                 (out, errs, code) = (if v = ''path'' \<or> v = ''print'' then plugin_named v (nth_opt args 1)
                   else not_implemented ''plugin'')
             in Return (out, ''rigor: `rigor plugin '' @ v
               @ ''` is deprecated and will be removed in the next minor release; use `'' @ replacement @ ''`.'' @ nl
               @ errs, code))
          else if v = ''help'' then Return (PLUGIN_USAGE, '''', 0)
          else plugin_options env posix args
      | None \<Rightarrow> plugin_options env posix args)"


text \<open>\<open>skill\<close> and \<open>describe\<close> dispatch on their words by hand.\<close>

definition cmd_skill_named :: "string \<Rightarrow> exit" where
  "cmd_skill_named name =
     (if name \<in> set BUNDLED_SKILL_NAMES then not_implemented ''skill''
      else ('''', ''Unknown skill: '' @ name @ nl @ ''Available skills (try `rigor skill --list`):'' @ nl
        @ unlines (map (\<lambda>s. ''  '' @ s) BUNDLED_SKILL_NAMES), 1))"

definition cmd_describe_args :: "string list \<Rightarrow> string \<Rightarrow> exit" where
  "cmd_describe_args args usage =
     (if asks_help args then (usage @ nl, '''', 0)
      else case filter (\<lambda>a. a \<noteq> ''--deep'') args of
        unknown # _ \<Rightarrow> ('''', ''unknown option for `describe`: '' @ unknown @ nl @ SKILL_USAGE, 64)
      | [] \<Rightarrow> not_implemented ''describe'')"

definition cmd_skill_deferred :: "string list \<Rightarrow> exit" where
  "cmd_skill_deferred args =
     (case args of
        [] \<Rightarrow> not_implemented ''skill''
      | a # rest \<Rightarrow>
          if a = ''--list'' then not_implemented ''skill''
          else if a \<in> set [''-h'', ''--help'', ''help''] then (SKILL_USAGE, '''', 0)
          else if a = ''describe'' \<or> a = ''--describe''
          then cmd_describe_args rest ''Usage: rigor skill describe [--deep]''
          else if a \<in> set [''--full'', ''--path'', ''--print''] then
            (let missing = (if a = ''--full'' then ''`--full` requires a skill name''
                   else if a = ''--path'' then ''`--path` requires a skill name''
                   else ''a skill name is required'')
             in case nth_opt args 1 of
                  None \<Rightarrow> ('''', missing @ nl @ SKILL_USAGE, 64)
                | Some name \<Rightarrow> cmd_skill_named name)
          else cmd_skill_named a)"

section \<open>Routes\<close>

fun flow_route :: "exit Flow \<Rightarrow> Route option" where
  "flow_route (Go e) = Some (Printed e)"
| "flow_route (Return e) = Some (Printed e)"
| "flow_route Panic = None"

definition BASELINE_VERBS :: "string list" where
  "BASELINE_VERBS = [''generate'', ''regenerate'', ''dump'', ''drift'', ''prune'']"

definition cmd_baseline :: "Env \<Rightarrow> Host \<Rightarrow> string list \<Rightarrow> Route" where
  "cmd_baseline env h args =
     (case args of
        [] \<Rightarrow> Printed (BASELINE_HELP, '''', 0)
      | a # rest \<Rightarrow>
          if a \<in> set [''help'', ''-h'', ''--help''] then Printed (BASELINE_HELP, '''', 0)
          else if a \<in> set BASELINE_VERBS then Enter (''baseline '' @ a) rest
          else Printed ('''', ''Unknown baseline subcommand: '' @ debug_str h a @ nl
            @ (case spell_checker_correct (lowercase env) BASELINE_VERBS a of
                 nearest # _ \<Rightarrow> ''Did you mean `rigor baseline '' @ nearest @ ''`?'' @ nl
               | [] \<Rightarrow> '''')
            @ BASELINE_HELP, 64))"

fun help_fold :: "Item list \<Rightarrow> bool \<Rightarrow> string list \<Rightarrow> bool \<times> string list" where
  "help_fold [] json topics = (json, topics)"
| "help_fold (Positional p # its) json topics = help_fold its json (topics @ [p])"
| "help_fold (Opt k neg (Some v) # its) json topics =
     help_fold its (if k = ''format'' then as_str v = ''json'' else json) topics"
| "help_fold (Opt k neg None # its) json topics = help_fold its json topics"

text \<open>\<open>help\<close> either prints, or names the command whose \<open>--help\<close> is asked for.\<close>

definition unknown_command :: "string \<Rightarrow> exit" where
  "unknown_command other = ('''', ''Unknown command: '' @ other @ nl @ TOP_HELP, 64)"

definition help_topic :: "Env \<Rightarrow> string list \<Rightarrow> (exit + string) option" where
  "help_topic env args =
     (if asks_help args then Some (Inl (TOP_HELP, '''', 0))
      else case parse_order env HELP_PARSER args of
        None \<Rightarrow> None
      | Some (Exit out errs code) \<Rightarrow> Some (Inl (out, errs, code))
      | Some (Items items) \<Rightarrow>
          (let (json, topics) = help_fold items False [] in
           if json then
             (if topics \<noteq> []
              then Some (Inl (usage_error ''rigor help --format=json takes no command; it prints every command''))
              else Some (Inl (usage_error ''rigor: help --format=json is not supported by rigor-rs'')))
           else case topics of
             [] \<Rightarrow> Some (Inl (TOP_HELP, '''', 0))
           | topic # rest \<Rightarrow>
               (let extra = filter (\<lambda>w. \<not> starts_with ''-'' w) rest in
                if extra \<noteq> [] then
                  Some (Inl (usage_error (''rigor help takes one command, got: '' @ topic @ '' '' @ join_str '' '' extra)))
                else if topic = ''help'' then Some (Inl (help_text HELP_PARSER, '''', 0))
                else if topic = ''version'' then Some (Inl (''Usage: rigor version'' @ nl, '''', 0))
                else if topic \<in> set CATALOGUE_NAMES then Some (Inr topic)
                else Some (Inl (unknown_command topic)))))"

lemma help_topic_not_help: "help_topic env args = Some (Inr t) \<Longrightarrow> t \<noteq> ''help''"
  by (auto simp: help_topic_def Let_def split: if_splits option.splits Parsed.splits prod.splits list.splits)

definition ENTERED :: "string list" where
  "ENTERED = [''check'', ''type-of'', ''diff'', ''triage'', ''annotate'', ''sig-gen'', ''explain'', ''init'',
     ''doctor'', ''show-bleedingedge'', ''plugins'', ''docs'', ''lsp'', ''mcp'', ''coverage'', ''effects'']"

text \<open>The arms of the dispatch but \<open>help\<close>.\<close>

definition dispatch_command ::
  "Env \<Rightarrow> Host \<Rightarrow> bool \<Rightarrow> string \<Rightarrow> string \<Rightarrow> string list \<Rightarrow> Route option" where
  "dispatch_command env h posix pkg cmd rest =
     (if cmd \<in> set [''version'', ''--version'', ''-v'', ''-V''] then
        Some (Printed ((if asks_help rest then ''Usage: rigor version'' else ''rigor '' @ pkg) @ nl, '''', 0))
      else if cmd = ''baseline'' then Some (cmd_baseline env h rest)
      else if cmd \<in> set ENTERED then Some (Enter cmd rest)
      else if cmd = ''trace'' then flow_route (cmd_deferred env posix ''trace'' TRACE_PARSER rest)
      else if cmd = ''type-scan'' then flow_route (cmd_deferred env posix ''type-scan'' TYPE_SCAN_PARSER rest)
      else if cmd = ''unused'' then flow_route (cmd_unused env posix rest)
      else if cmd = ''upgrade'' then
        Some (Printed (if asks_help rest then (''Usage: rigor upgrade [options]'' @ nl, '''', 0)
          else (''rigor upgrade: No migration target available yet (ADR-50 WD7, queued).'' @ nl
            @ ''Current version: '' @ pkg @ nl, '''', 0)))
      else if cmd = ''playground'' then
        Some (Printed ('''', ''rigor playground requires the rigor-playground gem.'' @ nl
          @ ''Install it with: gem install rigor-playground'' @ nl, 64))
      else if cmd = ''plugin'' then flow_route (cmd_plugin_deferred env posix rest)
      else if cmd = ''skill'' then Some (Printed (cmd_skill_deferred rest))
      else if cmd = ''describe'' then Some (Printed (cmd_describe_args rest ''Usage: rigor describe [--deep]''))
      else if cmd \<in> set COMMANDS then Some (Printed (not_implemented cmd))
      else Some (Printed ('''', ''Unknown command: '' @ cmd @ nl
        @ (case spell_checker_correct (lowercase env) CATALOGUE_NAMES cmd of
             nearest # _ \<Rightarrow> ''Did you mean `rigor '' @ nearest @ ''`?'' @ nl
           | [] \<Rightarrow> '''')
        @ TOP_HELP, 64)))"

function dispatch :: "Env \<Rightarrow> Host \<Rightarrow> bool \<Rightarrow> string \<Rightarrow> string list \<Rightarrow> Route option" where
  "dispatch env h posix pkg [] = Some (Printed (TOP_HELP, '''', 0))"
| "dispatch env h posix pkg (cmd # rest) =
     (if cmd = ''-h'' \<or> cmd = ''--help'' then Some (Printed (TOP_HELP, '''', 0))
      else if cmd = ''help'' then
        (case help_topic env rest of
           None \<Rightarrow> None
         | Some (Inl e) \<Rightarrow> Some (Printed e)
         | Some (Inr topic) \<Rightarrow> dispatch env h posix pkg [topic, ''--help''])
      else dispatch_command env h posix pkg cmd rest)"
  by pat_completeness auto
termination
  by (relation "measure (\<lambda>(_, _, _, _, args). if args \<noteq> [] \<and> hd args = ''help'' then 1 else 0)")
    (auto dest: help_topic_not_help)

end
