(* ===== verification/Command_Properties.thy ===== *)
theory Command_Properties
  imports Command_Contracts Command_Routes Positions Optparse_Properties
begin

text \<open>
  The properties of the commands' front ends: that no argument list makes one panic, which runs of
  \<open>check\<close> get past its checks, that the checks of a format after the parse are idle, the re-entry of
  \<open>help\<close>, the switch tables, and the two directions between offsets and positions.
\<close>

section \<open>No panic\<close>

interpretation plugin_items: command PLUGIN_PARSER plugin_step "\<lambda>_. True"
  by unfold_locales
    (erule item_cases[OF _ PLUGIN_signature], force, simp only: entry_fits_simps simp_thms,
      elim disjE conjE; hypsubst; fastforce)+

lemma then_do_Go [simp]: "then_do m Go = m"
  by (cases m) simp_all

lemma check_settle_safe: "check_settle h st \<noteq> Panic"
  by (simp add: check_settle_def split: sum.splits option.splits)

lemma report_safe:
  "annotate_options env h posix argv \<noteq> Panic" "bleeding_edge_options env h posix argv \<noteq> Panic"
  "doctor_options env h posix argv \<noteq> Panic" "plugins_options env h posix argv \<noteq> Panic"
  "explain_options env posix argv \<noteq> Panic"
proof -
  have start: "format_ok (rp_format report_init)" by (simp add: report_init_def format_ok_def)
  show "annotate_options env h posix argv \<noteq> Panic" unfolding annotate_options_def
    by (rule annotating.run_safe) (use start in \<open>simp_all split: list.splits\<close>)
  show "bleeding_edge_options env h posix argv \<noteq> Panic" unfolding bleeding_edge_options_def
    using bleeding.run_safe[where rest = Go, of report_init env posix argv h] start by simp
  show "doctor_options env h posix argv \<noteq> Panic" unfolding doctor_options_def
    by (rule diagnosing.run_safe) (use start in simp_all)
  show "plugins_options env h posix argv \<noteq> Panic" unfolding plugins_options_def
    by (rule plugging.run_safe) (use start in simp_all)
  show "explain_options env posix argv \<noteq> Panic" unfolding explain_options_def
    using explaining.run_safe[where rest = Go, of report_init env posix argv] start by simp
qed

lemma analysis_safe:
  "check_options env h posix argv \<noteq> Panic" "diff_options env h posix argv \<noteq> Panic"
  "triage_options env h posix argv \<noteq> Panic" "type_of_options env h posix argv \<noteq> Panic"
  "effects_options env h posix help argv \<noteq> Panic" "coverage_options env h posix argv \<noteq> Panic"
  "sig_gen_options env h posix argv \<noteq> Panic"
proof -
  show "check_options env h posix argv \<noteq> Panic" unfolding check_options_def
    by (rule checks.run_safe)
      (simp_all add: check_settle_safe check_claim_def check_init_def CHECK_FORMATS_def)
  show "diff_options env h posix argv \<noteq> Panic" unfolding diff_options_def
    by (rule diffing.run_safe) (simp_all add: format_ok_def split: list.splits)
  show "triage_options env h posix argv \<noteq> Panic" unfolding triage_options_def
    by (rule triaging.run_safe) (simp_all add: format_ok_def triage_init_def)
  show "type_of_options env h posix argv \<noteq> Panic" unfolding type_of_options_def
    by (rule typing.run_safe) (simp_all add: format_ok_def split: option.splits sum.splits)
  show "effects_options env h posix help argv \<noteq> Panic"
    unfolding effects_options_def
    by (split if_split, intro conjI impI, simp, split if_split, intro conjI impI, simp,
        rule effecting.run_safe) (simp_all add: format_ok_def split: list.splits)
  show "coverage_options env h posix argv \<noteq> Panic" unfolding coverage_options_def
    by (rule covering.run_safe) (simp_all add: format_ok_def coverage_settle_def coverage_init_def)
  show "sig_gen_options env h posix argv \<noteq> Panic" unfolding sig_gen_options_def
    by (rule generating_sigs.run_safe)
      (simp_all add: format_ok_def sig_gen_settle_def sig_gen_init_def Let_def split: option.splits)
qed

lemma baseline_safe:
  "generate_options env h posix argv \<noteq> Panic" "regenerate_options env h posix argv \<noteq> Panic"
  "dump_options env h posix argv \<noteq> Panic" "drift_options env h posix argv \<noteq> Panic"
  "prune_options env h posix argv \<noteq> Panic"
proof -
  have np: "no_positionals h sub st \<noteq> Panic" for sub st by (simp add: no_positionals_def)
  show "generate_options env h posix argv \<noteq> Panic" unfolding generate_options_def
    by (rule generating.run_safe) (auto simp: no_positionals_def)
  show "regenerate_options env h posix argv \<noteq> Panic" unfolding regenerate_options_def
    by (rule regenerating.run_safe) (auto simp: np)
  show "dump_options env h posix argv \<noteq> Panic" unfolding dump_options_def
    by (rule dumping.run_safe) (auto simp: np baseline_init_def format_ok_def)
  show "drift_options env h posix argv \<noteq> Panic" unfolding drift_options_def
    by (rule drifting.run_safe) (auto simp: np)
  show "prune_options env h posix argv \<noteq> Panic" unfolding prune_options_def
    by (rule pruning.run_safe) (auto simp: np)
qed

lemma starting_safe:
  "init_options env h posix argv \<noteq> Panic" "lsp_options env h posix argv \<noteq> Panic"
  "mcp_options env h posix argv \<noteq> Panic"
proof -
  show "init_options env h posix argv \<noteq> Panic" unfolding init_options_def
    by (rule initialising.run_safe) simp_all
  show "lsp_options env h posix argv \<noteq> Panic" unfolding lsp_options_def
    by (rule serving_lsp.run_usage_safe) (simp_all add: transport_check_def)
  show "mcp_options env h posix argv \<noteq> Panic" unfolding mcp_options_def
    by (rule serving_mcp.run_usage_safe) (simp_all add: transport_check_def)
qed

lemma flow_route_safe: "m \<noteq> Panic \<Longrightarrow> flow_route m \<noteq> None"
  by (cases m) simp_all

lemma printing_safe:
  "cmd_deferred env posix name p argv \<noteq> Panic" "cmd_unused env posix argv \<noteq> Panic"
  "cmd_plugin_deferred env posix argv \<noteq> Panic"
proof -
  show "cmd_deferred env posix name p argv \<noteq> Panic" "cmd_unused env posix argv \<noteq> Panic"
    using parse_items_ok(1) by (auto simp: cmd_deferred_def cmd_unused_def then_do_Panic_iff split: if_splits)
  have "plugin_options env posix argv \<noteq> Panic" unfolding plugin_options_def
    by (rule plugin_items.run_usage_safe) (simp_all split: option.splits)
  then show "cmd_plugin_deferred env posix argv \<noteq> Panic"
    by (simp add: cmd_plugin_deferred_def Let_def split: option.splits prod.splits)
qed

lemma help_topic_answers: "help_topic env args = None \<longleftrightarrow> False"
proof -
  obtain out where "parse_order env HELP_PARSER args = Some out"
    using parse_loop_items[of "[]" HELP_PARSER env True args "[]"]
    unfolding parse_order_def parse_mode_def by auto
  then show ?thesis
    by (simp add: help_topic_def Let_def split: Parsed.splits prod.splits list.splits)
qed

lemma dispatch_command_answers: "dispatch_command env h posix pkg cmd rest = None \<longleftrightarrow> False"
  using printing_safe[THEN flow_route_safe] unfolding dispatch_command_def by (auto split: if_splits)

lemma dispatch_answers: "dispatch env h posix pkg argv \<noteq> None"
  by (induction env h posix pkg argv rule: dispatch.induct)
    (auto simp: help_topic_answers dispatch_command_answers simp del: not_None_eq split: option.splits sum.splits)

text \<open>C7: No argument list makes a command panic before it starts to work: in every command the
  \<open>unwrap\<close> and \<open>unreachable!\<close> of the fold over the parsed items are never reached, whatever the
  file system answers, and the dispatch over the commands always answers.\<close>
theorem commands_never_panic:
  "check_options env h posix argv \<noteq> Panic \<and> diff_options env h posix argv \<noteq> Panic
   \<and> triage_options env h posix argv \<noteq> Panic \<and> type_of_options env h posix argv \<noteq> Panic
   \<and> effects_options env h posix help argv \<noteq> Panic \<and> coverage_options env h posix argv \<noteq> Panic
   \<and> sig_gen_options env h posix argv \<noteq> Panic \<and> annotate_options env h posix argv \<noteq> Panic
   \<and> bleeding_edge_options env h posix argv \<noteq> Panic \<and> doctor_options env h posix argv \<noteq> Panic
   \<and> plugins_options env h posix argv \<noteq> Panic \<and> explain_options env posix argv \<noteq> Panic
   \<and> init_options env h posix argv \<noteq> Panic \<and> lsp_options env h posix argv \<noteq> Panic
   \<and> mcp_options env h posix argv \<noteq> Panic \<and> generate_options env h posix argv \<noteq> Panic
   \<and> regenerate_options env h posix argv \<noteq> Panic \<and> dump_options env h posix argv \<noteq> Panic
   \<and> drift_options env h posix argv \<noteq> Panic \<and> prune_options env h posix argv \<noteq> Panic
   \<and> dispatch env h posix pkg argv \<noteq> None"
  by (intro conjI) (rule analysis_safe report_safe baseline_safe starting_safe dispatch_answers)+


section \<open>The checks after the parse\<close>

lemma check_settle_Go:
  "check_settle h st = Go (st', sev, mode) \<longleftrightarrow>
     st' = st \<and> check_fail_on (ck_fail_on st) = Inr sev \<and> ck_tmp_file st = None \<and> ck_instead_of st = None
     \<and> ck_unsupported st = None \<and> (ck_ruby st = None \<or> \<not> ck_no_ruby st)
     \<and> mode = (if ck_no_ruby st then Some Off else ck_ruby st)"
  by (auto simp: check_settle_def buffer_binding_def split: sum.splits option.splits if_splits)

text \<open>C19: A run of \<open>check\<close> that gets as far as its configuration has a format of the list, none of
  the flags the port refuses and neither half of the editor pair; the severity of its gate is the
  one named, error by default; and its mode is off under \<open>--no-ruby\<close>, which then came without
  \<open>--ruby\<close>, and otherwise the one that \<open>--ruby\<close> names, if any.\<close>
theorem check_run_accepted:
  assumes "check_options env h posix argv = Go (st, sev, mode)"
  shows "ck_format st \<in> set CHECK_FORMATS
    \<and> ck_unsupported st = None \<and> ck_tmp_file st = None \<and> ck_instead_of st = None
    \<and> (if ck_fail_on st = None then sev = Error else ck_fail_on st = Some (severity_as_str sev))
    \<and> (if ck_no_ruby st then ck_ruby st = None \<and> mode = Some Off else mode = ck_ruby st)"
proof -
  have start: "check_claim check_init" by (simp add: check_claim_def check_init_def CHECK_FORMATS_def)
  obtain st' where "check_claim st'" "check_settle h st' = Go (st, sev, mode)"
    by (rule checks.run_claim[OF assms[unfolded check_options_def] start])
  then show ?thesis
    unfolding check_settle_Go
    by (auto simp: check_claim_def check_fail_on_def split: option.splits if_splits)
qed

text \<open>\<open>check --fail-on=warning --no-ruby lib\<close>.\<close>

theorem check_run_accepted_witness:
  "\<exists>st. check_options \<lparr>program_name = ''rigor'', lowercase = id\<rparr>
       \<lparr>is_dir = (\<lambda>_. False), is_file = (\<lambda>_. True), exists_path = (\<lambda>_. True), opens = (\<lambda>_. True), debug_str = id\<rparr>
       False [''--fail-on=warning'', ''--no-ruby'', ''lib''] = Go (st, Warning, Some Off)
     \<and> ck_files st = [''lib''] \<and> ck_fail_on st = Some (severity_as_str Warning) \<and> ck_ruby st = None"
proof -
  let ?env = "\<lparr>program_name = ''rigor'', lowercase = id\<rparr>"
  let ?h = "\<lparr>is_dir = (\<lambda>_. False), is_file = (\<lambda>_. True), exists_path = (\<lambda>_. True), opens = (\<lambda>_. True), debug_str = id\<rparr>"
  let ?st = "check_init\<lparr>ck_fail_on := Some ''warning'', ck_no_ruby := True, ck_files := [''lib'']\<rparr>"
  have items: "parse_items ?env False CHECK_PARSER [''--fail-on=warning'', ''--no-ruby'', ''lib'']
      = Go [Opt ''fail-on'' False (Some (StrValue ''warning'')), Opt ''no-ruby'' False None, Positional ''lib'']"
    by code_simp
  have run: "check_options ?env ?h False [''--fail-on=warning'', ''--no-ruby'', ''lib''] = Go (?st, Warning, Some Off)"
    unfolding check_options_def items
    by (simp add: unwrap_def CHECK_UNSUPPORTED_def check_settle_def check_fail_on_def buffer_binding_def check_init_def)
  from check_run_accepted[OF this] run show ?thesis
    by (intro exI[of _ ?st]) (simp add: check_init_def)
qed

section \<open>Help\<close>

lemma catalogue_words: "list_all (\<lambda>c. \<not> starts_with ''-'' c) CATALOGUE_NAMES"
  by code_simp

lemma parse_order_word:
  assumes "\<not> starts_with ''-'' w"
  shows "parse_order env p [w] = Some (Items [Positional w])"
proof -
  have "\<not> is_option w" using assms by (auto simp: is_option_def starts_with_iff)
  then have "scan_token env p w [] [] = None" by (simp add: scan_token_None)
  then show ?thesis by (simp add: parse_order_def parse_mode_def finish_def)
qed

text \<open>C27: For every command of the catalogue but the two that are answered on the spot,
  \<open>rigor help <command>\<close> goes the way of \<open>rigor <command> --help\<close>.\<close>
theorem help_is_command_help:
  assumes "c \<in> set CATALOGUE_NAMES" "c \<noteq> ''help''" "c \<noteq> ''version''"
  shows "dispatch env h posix pkg [''help'', c] = dispatch env h posix pkg [c, ''--help'']"
proof -
  have w: "\<not> starts_with ''-'' c" using catalogue_words assms(1) by (auto simp: list_all_iff)
  then have "c \<noteq> ''-h''" "c \<noteq> ''--help''" by (auto simp: starts_with_iff)
  then have "help_topic env [c] = Some (Inr c)"
    using assms by (simp add: help_topic_def asks_help_def parse_order_word[OF w])
  then show ?thesis by simp
qed

theorem help_is_command_help_witness:
  "dispatch \<lparr>program_name = ''rigor'', lowercase = id\<rparr>
     \<lparr>is_dir = (\<lambda>_. False), is_file = (\<lambda>_. True), exists_path = (\<lambda>_. True), opens = (\<lambda>_. True), debug_str = id\<rparr>
     False ''0.1.0'' [''help'', ''check'']
   = Some (Enter ''check'' [''--help''])"
proof -
  have "''check'' \<in> set CATALOGUE_NAMES" "''check'' \<in> set ENTERED" by code_simp+
  then show ?thesis
    by (subst help_is_command_help) (simp_all add: dispatch_command_def)
qed

section \<open>The tables\<close>

lemma tables_ok: "list_all (\<lambda>p. table_ok p \<and> no_empty_name p) PARSERS"
  by code_simp

text \<open>C25: In the table of every command, every long name a switch declares is the switch's own: it
  resolves to that switch and to the side it was declared with, never to another switch and never
  as ambiguous, and \<open>--\<close> ends the options.\<close>
theorem declared_names_resolve:
  assumes "p \<in> set PARSERS" "i < length (switches p)" "(n, neg) \<in> set (sw_names (switches p ! i))"
  shows "complete_name p n icase = Found (SwitchHit i neg) \<and> complete_name p '''' icase = Found Terminator"
proof -
  have ok: "table_ok p" "no_empty_name p" using tables_ok assms(1) by (auto simp: list_all_iff)
  have "(i, switches p ! i) \<in> set (enumerate 0 (switches p))"
    using assms(2) by (simp add: in_set_enumerate_eq)
  then have "(n, SwitchHit i neg) \<in> set (long_table p)"
    using assms(3) by (force simp: long_table_def)
  moreover have "distinct (map fst (long_table p))" using ok(1) by (simp add: table_ok_def entries_ok_def)
  ultimately have "map_of (long_table p) n = Some (SwitchHit i neg)" by simp
  moreover have "map_of (long_table p) '''' = None"
    using ok(2) by (simp add: no_empty_name_def map_of_eq_None_iff)
  ultimately show ?thesis by (simp add: complete_name_def exact_name_def officious_def)
qed

text \<open>\<open>--no-stats\<close> of \<open>check\<close> is the negated side of \<open>--stats\<close>.\<close>

theorem declared_names_resolve_witness:
  "complete_name CHECK_PARSER ''no-stats'' True = Found (SwitchHit 7 True)"
proof -
  have "CHECK_PARSER \<in> set PARSERS" by (simp add: PARSERS_def)
  moreover have "7 < length (switches CHECK_PARSER)" by code_simp
  moreover have "(''no-stats'', True) \<in> set (sw_names (switches CHECK_PARSER ! 7))" by code_simp
  ultimately show ?thesis by (rule declared_names_resolve[THEN conjunct1])
qed

section \<open>Positions\<close>

lemma split_at_line_start:
  assumes "off \<le> length source"
  defines "ls \<equiv> last_line_start (take off source)"
  shows "ls \<le> off" "takeWhile (\<lambda>c. c \<noteq> line_feed) (drop ls source)
    = drop ls (take off source) @ takeWhile (\<lambda>c. c \<noteq> line_feed) (drop off source)"
proof -
  show le: "ls \<le> off" using after_line_start(2)[of "take off source"] assms by simp
  have "drop ls source = drop ls (take off source) @ drop off source"
    using le by (metis append_take_drop_id diff_is_0_eq drop0 drop_append drop_drop le_add_diff_inverse2
        length_take min.absorb2 assms(1))
  moreover have "\<forall>c \<in> set (drop ls (take off source)). c \<noteq> line_feed"
    using after_line_start(1)[of "take off source"] by (auto simp: ls_def newlines_def filter_empty_conv)
  ultimately show "takeWhile (\<lambda>c. c \<noteq> line_feed) (drop ls source)
      = drop ls (take off source) @ takeWhile (\<lambda>c. c \<noteq> line_feed) (drop off source)"
    by (simp add: takeWhile_append)
qed


lemma no_newlines: "newlines s = 0 \<Longrightarrow> last_line_start s = 0"
  using last_line_start_append[of s "[]"] by (simp add: last_line_start_simps)

text \<open>The end of a text or the first byte of a character.\<close>

definition starts_char :: "string \<Rightarrow> nat \<Rightarrow> bool" where
  "starts_char s i = (i = length s \<or> \<not> continues_char (s ! i))"

text \<open>C13: Offsets and positions invert each other: a line and a column name an offset exactly when
  that offset is within the text, has that line and column, and stands at the start of a line, at
  the end of the text or at the first byte of a character. Every other line or column is refused.\<close>
theorem positions_invert:
  "position_to_offset source l c = Inr off \<longleftrightarrow>
     off \<le> length source \<and> line_col source off = (l, c)
     \<and> (c = 1 \<or> starts_char source off)"
  unfolding starts_char_def
proof
  assume r: "off \<le> length source \<and> line_col source off = (l, c)
    \<and> (c = 1 \<or> off = length source \<or> \<not> continues_char (source ! off))"
  let ?ls = "last_line_start (take off source)"
  let ?tw = "takeWhile (\<lambda>c. c \<noteq> line_feed) (drop off source)"
  have le: "?ls \<le> off" and row: "takeWhile (\<lambda>c. c \<noteq> line_feed) (drop ?ls source) = drop ?ls (take off source) @ ?tw"
    using split_at_line_start[of off source] r by auto
  have lc: "l = 1 + newlines (take off source)" "c = off - ?ls + 1"
    using line_col_prefix[of off source] r by auto
  have seek: "seek_line source 0 1 l 0 = Some ?ls"
    using seek_line_prefix[of off source l 1 0 0] lc(1) r no_newlines[of "take off source"] by simp
  define D where "D = drop ?ls (take off source)"
  have D: "length D = c - 1" using lc(2) r by (simp add: D_def)
  have off: "?ls + (c - 1) = off" using lc(2) le by simp
  have pos: "l \<noteq> 0" "c \<noteq> 0" using lc by simp_all
  have line: "takeWhile (\<lambda>c. c \<noteq> line_feed) (drop ?ls source) = D @ ?tw" using row by (simp add: D_def)
  show "position_to_offset source l c = Inr off"
  proof (cases "?tw = []")
    case True
    with D off pos show ?thesis unfolding position_to_offset_def Let_def seek option.case line by simp
  next
    case False
    then have "drop off source \<noteq> []" by auto
    then have lt: "off < length source" by simp
    have "?tw ! 0 = source ! off" using False lt by (simp add: takeWhile_nth)
    then have "char_boundary (D @ ?tw) (c - 1)"
      using D lt False r by (auto simp: char_boundary_def nth_append)
    moreover obtain k where "c = Suc k" using pos by (cases c) auto
    ultimately show ?thesis using D off pos False
      unfolding position_to_offset_def Let_def seek option.case line by simp
  qed
next
  assume p: "position_to_offset source l c = Inr off"
  then obtain n where n: "seek_line source 0 1 l 0 = Some n" and pos: "0 < l" "0 < c"
    by (auto simp: position_to_offset_def split: if_splits option.splits)
  let ?text = "takeWhile (\<lambda>c. c \<noteq> line_feed) (drop n source)"
  from p n pos have off: "off = n + (c - 1)" "c - 1 \<le> length ?text"
    and cb: "c - 1 < length ?text \<longrightarrow> char_boundary ?text (c - 1)"
    by (auto simp: position_to_offset_def Let_def split: if_splits)
  have at: "n \<le> length source \<and> newlines (take n source) = l - 1 \<and> last_line_start (take n source) = n"
  proof (cases "l = 1")
    case True
    with n have "n = 0" by (simp add: seek_line.simps)
    with True show ?thesis by (simp add: newlines_simps last_line_start_simps)
  next
    case False
    with seek_line_found[OF n] pos(1) show ?thesis by auto
  qed
  have "length ?text \<le> length (drop n source)" by (rule length_takeWhile_le)
  then have "c - 1 \<le> length source - n" using off(2) unfolding length_drop by (rule le_trans[rotated])
  then have le: "off \<le> length source" using off(1) at by linarith
  have pre: "take (c - 1) (drop n source) = take (c - 1) ?text"
    using off(2) by (metis append_eq_conv_conj takeWhile_dropWhile_id take_append diff_is_0_eq take0 append_Nil2 takeWhile_eq_take)
  have "newlines (take (c - 1) ?text) = 0"
    by (auto simp: newlines_def filter_empty_conv dest!: in_set_takeD dest: set_takeWhileD)
  with pre have "newlines (take off source) = l - 1" "last_line_start (take off source) = n"
    using at off(1) by (simp_all add: take_add newlines_simps last_line_start_append)
  then have lc: "line_col source off = (l, c)" using line_col_prefix[OF le] pos off(1) by simp
  have "c = 1 \<or> off = length source \<or> \<not> continues_char (source ! off)"
  proof (cases "c - 1 < length ?text")
    case True
    with cb off(1) pos at show ?thesis
      by (auto simp: char_boundary_def takeWhile_nth nth_drop split: if_splits)
  next
    case False
    with off have len: "c - 1 = length ?text" by simp
    show ?thesis
    proof (cases "off = length source")
      case False
      with le off(1) len have "length ?text < length (drop n source)" by simp
      then have "drop n source ! length ?text = line_feed" using nth_length_takeWhile by fastforce
      then show ?thesis using at off(1) len by (simp add: continues_char_def)
    qed simp
  qed
  with le lc show "off \<le> length source \<and> line_col source off = (l, c)
    \<and> (c = 1 \<or> off = length source \<or> \<not> continues_char (source ! off))" by blast
qed

lemma split_any_last:
  "p x \<Longrightarrow> \<forall>y \<in> set ys. \<not> p y \<Longrightarrow> split_any p (xs @ x # ys) = split_any p xs @ [ys]"
proof (induction xs)
  case Nil
  have "split_any p ys = [ys]" using Nil(2) by (induction ys) auto
  with Nil show ?case by simp
next
  case (Cons z xs)
  have "split_any p xs \<noteq> []" by (cases xs) (auto split: list.splits)
  with Cons show ?case by (auto split: list.splits)
qed

lemma parse_usize_digits: "parse_usize (digits_of n) = (if n < 2 ^ 64 then Some n else None)"
proof -
  obtain d ds where d: "digits_of n = d # ds" using digits_of_props[of n] by (cases "digits_of n") auto
  then have "(case digits_of n of c # r \<Rightarrow> if c = CHR ''+'' then r else digits_of n | [] \<Rightarrow> digits_of n) = digits_of n"
    using digits_plain[of n] by auto
  then show ?thesis using digits_of_props[of n]
    by (simp only: parse_usize_def Let_def radix_loop_digits option.case) auto
qed

text \<open>A position printed as \<open>FILE:LINE:COL\<close> reads back as its three parts, whatever the path
  contains, and a line or a column beyond 64 bits is refused.\<close>
theorem position_argument_reads_back:
  "parse_position [path @ '':'' @ digits_of l @ '':'' @ digits_of c] =
     (if l < 2 ^ 64 \<and> c < 2 ^ 64 then Inr (path, l, c) else Inl BadNumbers)"
proof -
  have plain: "\<forall>y \<in> set (digits_of n). \<not> y = CHR '':''" for n
    using digits_of_props[of n] by (auto simp: list_all_iff is_ascii_digit_def between_def)
  let ?parts = "split_any (\<lambda>c. c = CHR '':'') (path @ '':'' @ digits_of l @ '':'' @ digits_of c)"
  have parts: "?parts = split_any (\<lambda>c. c = CHR '':'') path @ [digits_of l] @ [digits_of c]"
    using split_any_last[of "\<lambda>c. c = CHR '':''" "CHR '':''" "digits_of c" "path @ CHR '':'' # digits_of l"]
      split_any_last[of "\<lambda>c. c = CHR '':''" "CHR '':''" "digits_of l" path] plain by simp
  have ne: "split_any (\<lambda>c. c = CHR '':'') path \<noteq> []" by (cases path) (auto split: list.splits)
  then have "3 \<le> length ?parts" unfolding parts by (cases "split_any (\<lambda>c. c = CHR '':'') path") auto
  then have "parse_position [path @ '':'' @ digits_of l @ '':'' @ digits_of c]
      = decode_position path (digits_of l) (digits_of c)"
    unfolding parse_position_def list.case parse_colon_form_def Let_def parts using ne by (simp add: nth_append)
  then show ?thesis by (simp add: decode_position_def parse_usize_digits)
qed

end
