(* ===== verification/Spec2Isabelle.thy ===== *)
theory Spec2Isabelle
  imports Display_Properties Folding_Properties Effects_Properties Reporting_Properties
    Baseline_Properties Version_Properties Triage_Properties Optparse_Properties
    Command_Properties
begin

text \<open>
  \<^bold>\<open>rigor-rs, a static analyser for Ruby: a verification development of its decision core.\<close>

  \<^bold>\<open>The program.\<close> A run parses Ruby files (\<open>crates/rigor-parse\<close>), indexes RBS signatures
  (\<open>rigor-index\<close>), infers types over an interned lattice (\<open>rigor-types\<close>, \<open>rigor-infer\<close>), lets
  rules produce diagnostics (\<open>rigor-rules\<close>), and reports what the in-source directives, the
  configuration, the severity profile and the baseline leave of them (\<open>rigor-rules\<close>,
  \<open>rigor-cli\<close>). Beside it stands the effect vocabulary (\<open>rigor-effects\<close>). The development covers
  the parts on which every answer of the tool rests and whose input is data, not a syntax tree:
  the type carriers and their algebra, literal folding, rendering, the effect catalogue, the
  reporting pipeline from a rule's diagnostic to the surfaced list, and the front end from the
  argument list to the options of each command.

  \<^bold>\<open>Conventions.\<close> A Rust \<open>String\<close> is its UTF-8 bytes (\<open>string\<close>); \<open>u32\<close>, \<open>u64\<close> and \<open>i64\<close> are
  words and wrap where the code wraps; \<open>usize\<close> counters are \<open>nat\<close>. A panic is \<open>None\<close> of an
  option (or \<open>Panics\<close> in the folder), a \<open>Result\<close> is a sum with the error on the left, \<open>&mut\<close>
  state is returned. A \<open>BTreeSet\<close> or \<open>BTreeMap\<close> is its list in iteration order, a \<open>HashMap\<close> a
  partial function. Recursion through handles runs on fuel: a handle's children stand before it
  in the arena, so one unit per arena entry is enough (two for the pairwise relations), and that
  the fuel given by the top-level definitions always yields an answer is part of the theorems.

  \<^bold>\<open>Type lattice\<close> (\<open>rigor-types\<close>).
  \<^item> \<open>Prelude\<close>, \<open>Collections\<close>: the standard library used: three-way comparison with the locale
    \<open>comparator\<close>, stable sorting, loops that may panic, splitting, ordered maps, \<open>?\<close>.
  \<^item> \<open>Ty\<close>, \<open>Interner\<close> (\<open>ty.rs\<close>, \<open>interner.rs\<close>): the carriers with their derived orders, the
    hash-consing arena, the canonical comparison. \<open>Type_Tree\<close> and \<open>Type_Order\<close> give handles their
    meaning, the tree of carriers below a handle (locale \<open>carrier_store\<close>), and prove the order
    total and independent of interning order.
  \<^item> \<open>Certainty\<close>, \<open>Relations\<close> (\<open>certainty.rs\<close>, \<open>relations.rs\<close>): the trinary answers, subtyping and
    gradual consistency. \<open>Subtype_Laws\<close> proves soundness for inclusion of values and the preorder.
  \<^item> \<open>Algebra\<close> (\<open>algebra.rs\<close>): join, meet, difference, normalization; \<open>Tree_Algebra\<close> is the same on
    trees, \<open>Algebra_Refinement\<close> the refinement, \<open>Lattice_Laws\<close> the laws of canonical types.
    \<open>Types_Properties\<close> states the properties of the lattice.
  \<^item> \<open>Ruby_Text\<close>, \<open>Float64\<close>, \<open>Display\<close> (\<open>display.rs\<close>): literals, 64-bit floats with correct
    rounding and shortest digits, the three renderings; quoted literals are read back by a model of
    Ruby's own reader of double-quoted strings. \<open>Display_Laws\<close> proves once, in the locale
    \<open>handle_recursion\<close> interpreted for each rendering, that they are total and stable.

  \<^bold>\<open>Folding\<close> (\<open>rigor-infer\<close>). \<open>Folding\<close> (\<open>folding.rs\<close>) has the folds of every receiver class and
  the size guards in the order of the code; \<open>Kernel_Fold\<close> (\<open>kernel_fold.rs\<close>) the conversions
  \<open>String()\<close>, \<open>Integer()\<close>, \<open>Float()\<close> and \<open>sprintf\<close>. \<open>Float_Laws\<close>, \<open>Folding_Laws\<close>,
  \<open>Kernel_Laws\<close> and \<open>Folding_Properties\<close> compare them with exact arithmetic, characterise the inputs
  where they differ from Ruby, and delimit the one panic: slices and indices of strings, and the
  16-digit table of the radix conversions, are partial here as they are in the code.

  \<^bold>\<open>Effects\<close> (\<open>rigor-effects\<close>). \<open>Effect_Labels\<close> (\<open>label.rs\<close>, \<open>registry.rs\<close>): labels, registry,
  suggestions; \<open>Label_Laws\<close> reads a label as its path; \<open>Edit_Distance\<close> defines the distance by edit
  steps and by alignments, and \<open>Suggest_Laws\<close> proves the two-row loop equal to it and, in the
  locale \<open>bounded_distance\<close>, the search for a nearest label. \<open>Effect_Catalog\<close> (\<open>catalog.rs\<close>,
  \<open>mutators.rs\<close>): load-time checks and lookup precedence; \<open>Catalog_Laws\<close> relates a loaded catalogue
  to its data. \<open>Sha256\<close> and \<open>Sha256_Laws\<close> (\<open>digest.rs\<close>): the digest with its padding.

  \<^bold>\<open>Reporting\<close> (\<open>rigor-rules\<close>, \<open>rigor-cli\<close>). \<open>Suppression\<close> (\<open>diagnostic.rs\<close>, \<open>suppression.rs\<close>):
  tokens, sets, directives, the filter; \<open>Suppression_Markers\<close> (\<open>suppression_markers.rs\<close>): the rules
  about the markers themselves; \<open>Severity_Profile\<close> (\<open>severity.rs\<close>): the three tables and the
  resolution; \<open>Reporting_Properties\<close> states what they promise. \<open>Baseline\<close> (\<open>baseline.rs\<close>): recording,
  claiming, filtering, auditing; \<open>Baseline_Laws\<close> puts its grouping loops into closed form, and
  \<open>Baseline_Properties\<close> proves that a baseline recorded in rule mode silences its own run, and what
  a recorded baseline can hide of a later one, exactly in rule mode and as a bound in both modes.

  \<open>Version_Guard\<close> (\<open>dead_version_guard.rs\<close>): version segments and their comparison, the grammar,
  operands read over an arena of nodes on fuel (one more than the arena is enough), verdicts, dead
  arms and the filter; \<open>Version_Laws\<close>, \<open>Guard_Laws\<close> and \<open>Version_Properties\<close> prove the order, the
  grammar, the denotation of operands and the exactness of the filter. \<open>Triage\<close> (\<open>triage.rs\<close>): the
  aggregation over hash maps whose iteration order is the argument \<open>HashOrder\<close>, the hints and the
  text report; \<open>Triage_Laws\<close> holds the recogniser contract as a locale, \<open>Triage_Properties\<close> the
  determinism and the accounts. \<open>Str_Ops\<close> has the string operations these share.

  \<^bold>\<open>Front end\<close> (\<open>rigor-cli\<close>). \<open>Optparse\<close> and \<open>Optparse_Scan\<close> (\<open>optparse.rs\<close>): switch tables, name
  completion, conversion of values, the scan of the argument list, whose termination measure is
  the bytes left in the queue, and the printed texts; \<open>Spell_Checker\<close>: its suggestions, in 64-bit
  floats. \<open>Optparse_Laws\<close> and \<open>Optparse_Properties\<close> prove what a scan emits, what a name resolves
  to, the language of a completion, and the range of integer arguments. \<open>Command_Tables\<close> and
  \<open>Command_Texts\<close> are the tables and texts of the commands; \<open>Command_Options\<close>, \<open>Command_Folds\<close> and
  \<open>Command_Folds2\<close> fold the parsed items into the options of each command, with its checks up to
  the first file read, over the record \<open>Host\<close> of file-system answers; \<open>Command_Routes\<close> is the
  dispatch (\<open>main.rs\<close>), with the commands that only print; \<open>Positions\<close> maps offsets to lines and
  columns and back. \<open>Command_Laws\<close> states the contract between the parser and a command as the
  locale \<open>command\<close>, \<open>Command_Contracts\<close> interprets it for every command, and \<open>Command_Properties\<close>
  concludes that no command panics on its arguments.

  \<^bold>\<open>Parameters.\<close> Code outside the repository's sources is an argument: the YAML parser of the
  catalogue, the vendored mutator sets, class names from the RBS index, the regular-expression
  engine of the baseline (a pattern compiles to a search or fails), the iteration order of hash
  maps, the Unicode case table and the quoted form of \<open>{:?}\<close>, environment variables, the answers of
  the file system. Only the baseline properties about message rows assume something of one of
  them, that a row carries the compiled form of its own message, which the constructors and the
  loader establish.

  \<^bold>\<open>Not modelled.\<close> The lowering of Prism trees (\<open>rigor-parse\<close>) and the RBS index
  (\<open>rigor-index\<close>), which translate the results of third-party parsers; the expression typer, the
  flow walkers and the rules over the syntax tree, which need that tree; the work of the commands
  behind their options, which reads files, prints or serves. Of modelled files: the reader and
  writer of the baseline file, the explanation texts of the rule catalogue, the JSON reports
  printed through third-party code, and the Ruby sidecar that folds what the built-in folder
  declines.

  \<^bold>\<open>Plan.\<close> The YAML reader and writer of the baseline with their round trip; the comparison of
  \<open>diff\<close> and the CI formats; the edge algebra of \<open>loop_edges.rs\<close> and the reach index; then the flow
  walkers over a model of the lowered tree.
\<close>

end
